(* ===== verification/Prelude.thy ===== *)
theory Prelude
  imports Main "HOL-Library.Word"
begin

text \<open>
  Shared vocabulary of the development: Rust's fixed-width integers and byte
  buffers, \<open>Result\<close> as a sum type with its \<open>?\<close> operator, operations on \<open>&mut\<close>
  state that may fail half-way, little-endian byte encodings, durations with
  saturating arithmetic, and the locale of byte sources that both container
  decoders (\<open>vault/codec.rs\<close> and \<open>backup/codec.rs\<close>) read from.
\<close>

named_theorems limits "the sizes and counts at which the source refuses an input"

section \<open>Integers, bytes and results\<close>

type_synonym u8 = "8 word"
type_synonym u16 = "16 word"
type_synonym u32 = "32 word"
type_synonym u64 = "64 word"
type_synonym uuid = "128 word"
type_synonym bytes = "u8 list"

text \<open>A random source: the answer to the \<open>i\<close>-th request for \<open>n\<close> bytes, or a failure.\<close>
type_synonym rng = "nat \<Rightarrow> nat \<Rightarrow> bytes option"

text \<open>\<open>usize\<close> is 64 bits wide on the targets of the library.\<close>
definition USIZE_MAX :: nat where [limits]: "USIZE_MAX = 2 ^ 64 - 1"

definition u64_of_len :: "nat \<Rightarrow> u64" where "u64_of_len n = of_nat n"

definition sat_add_usize :: "nat \<Rightarrow> nat \<Rightarrow> nat" where
  "sat_add_usize a b = min (a + b) USIZE_MAX"

definition sat_add_word :: "'a::len word \<Rightarrow> 'a word \<Rightarrow> 'a word" where
  "sat_add_word a b = (if unat a + unat b < 2 ^ LENGTH('a) then a + b else - 1)"

definition sat_sub_word :: "'a::len word \<Rightarrow> 'a word \<Rightarrow> 'a word" where
  "sat_sub_word a b = (if b \<le> a then a - b else 0)"

lemma unat_minus_one_w: "unat (- 1 :: 'a::len word) = 2 ^ LENGTH('a) - 1"
  by (simp add: unsigned_minus_1_eq_mask mask_eq_exp_minus_1)

lemma unat_sat_add_word:
  "unat (sat_add_word a (b :: 'a::len word)) = min (unat a + unat b) (2 ^ LENGTH('a) - 1)"
  by (auto simp: sat_add_word_def unat_word_ariths unat_minus_one_w min_def)

lemma unat_u8_less: "unat (b :: u8) < 256" and unat_u16_less: "unat (h :: u16) < 2 ^ 16"
  and unat_u32_less: "unat (w :: u32) < 2 ^ 32" and unat_u64_less: "unat (v :: u64) < 2 ^ 64"
  using unsigned_less [of b] unsigned_less [of h] unsigned_less [of w] unsigned_less [of v] by simp_all

lemma unat_sat_sub_word: "unat (sat_sub_word a b) = unat a - unat b"
  by (simp add: sat_sub_word_def unat_sub word_le_nat_alt)

text \<open>\<open>Result<T, E>\<close> is \<open>'e + 't\<close>; \<open>rbind\<close> is the \<open>?\<close> operator.\<close>

fun rbind :: "'e + 'a \<Rightarrow> ('a \<Rightarrow> 'e + 'b) \<Rightarrow> 'e + 'b" where
  "rbind (Inl e) k = Inl e"
| "rbind (Inr v) k = k v"

fun map_err :: "('e \<Rightarrow> 'f) \<Rightarrow> 'e + 'a \<Rightarrow> 'f + 'a" where
  "map_err f (Inl e) = Inl (f e)"
| "map_err f (Inr v) = Inr v"

fun ok_or :: "'e \<Rightarrow> 'a option \<Rightarrow> 'e + 'a" where
  "ok_or e None = Inl e"
| "ok_or e (Some v) = Inr v"

fun is_ok :: "'e + 'a \<Rightarrow> bool" where
  "is_ok (Inl _) = False"
| "is_ok (Inr _) = True"

abbreviation guard :: "bool \<Rightarrow> 'e \<Rightarrow> 'e + 'a \<Rightarrow> 'e + 'a" where
  "guard bad e rest \<equiv> (if bad then Inl e else rest)"

lemma rbind_Inr_iff [simp]: "rbind x k = Inr v \<longleftrightarrow> (\<exists>a. x = Inr a \<and> k a = Inr v)"
  by (cases x) auto

lemma rbind_pair_Inr_iff:
  "rbind x (\<lambda>(a, b). k a b) = Inr v \<longleftrightarrow> (\<exists>a b. x = Inr (a, b) \<and> k a b = Inr v)"
  by (cases x) auto

lemma guard_Inr_iff [simp]: "guard bad e k = Inr v \<longleftrightarrow> \<not> bad \<and> k = Inr v"
  by simp

lemma rbind_Inl_iff: "rbind x k = Inl e \<longleftrightarrow> x = Inl e \<or> (\<exists>a. x = Inr a \<and> k a = Inl e)"
  by (cases x) auto

lemma map_err_Inr_iff [simp]: "map_err f x = Inr v \<longleftrightarrow> x = Inr v"
  by (cases x) auto

lemma map_err_Inl_iff: "map_err f x = Inl e \<longleftrightarrow> (\<exists>e'. x = Inl e' \<and> e = f e')"
  by (cases x) auto

lemma ok_or_Inr_iff [simp]: "ok_or e x = Inr v \<longleftrightarrow> x = Some v"
  by (cases x) auto

lemma ok_or_Inl_iff [simp]: "ok_or e x = Inl e' \<longleftrightarrow> x = None \<and> e' = e"
  by (cases x) auto

lemma is_ok_iff: "is_ok x \<longleftrightarrow> (\<exists>v. x = Inr v)"
  by (cases x) auto

lemma rbind_unit_cong: "is_ok x \<Longrightarrow> rbind x (\<lambda>_. k) = k"
  by (cases x) auto

text \<open>
  A Rust method on \<open>&mut self\<close> that returns \<open>Result\<close> leaves the state it has
  already written behind when it returns early: the state is part of both
  outcomes.
\<close>

type_synonym ('s, 'e, 'a) mut_result = "'s \<times> ('e + 'a)"

fun mut_then :: "('s, 'e, 'a) mut_result \<Rightarrow> ('s \<Rightarrow> ('s, 'e, 'b) mut_result) \<Rightarrow> ('s, 'e, 'b) mut_result" where
  "mut_then (s, Inl e) k = (s, Inl e)"
| "mut_then (s, Inr _) k = k s"

fun mut_try :: "'s \<Rightarrow> 'e + 'a \<Rightarrow> ('s, 'e, 'b) mut_result \<Rightarrow> ('s, 'e, 'b) mut_result" where
  "mut_try s (Inl e) k = (s, Inl e)"
| "mut_try s (Inr _) k = k"

lemma mut_then_ok:
  "mut_then p k = (s', Inr v) \<longleftrightarrow> (\<exists>s a. p = (s, Inr a) \<and> k s = (s', Inr v))"
  by (cases p; cases "snd p") auto

lemma mut_try_ok:
  "mut_try s r k = (s', Inr v) \<longleftrightarrow> is_ok r \<and> k = (s', Inr v)"
  by (cases r) auto

lemma is_ok_unitD: "is_ok (x :: 'e + unit) \<Longrightarrow> x = Inr ()"
  by (cases x) auto

lemma unit_result: "(x :: 'e + unit) = Inr () \<longleftrightarrow> is_ok x"
  by (cases x) auto

section \<open>Little-endian integers\<close>

text \<open>\<open>to_le k v\<close> is \<open>v.to_le_bytes()\<close> of a \<open>k\<close>-byte integer; \<open>of_le\<close> is \<open>from_le_bytes\<close>.\<close>

fun to_le :: "nat \<Rightarrow> nat \<Rightarrow> bytes" where
  "to_le 0 v = []"
| "to_le (Suc k) v = of_nat (v mod 256) # to_le k (v div 256)"

fun of_le :: "bytes \<Rightarrow> nat" where
  "of_le [] = 0"
| "of_le (b # bs) = unat b + 256 * of_le bs"

lemma length_to_le [simp]: "length (to_le k v) = k"
  by (induction k arbitrary: v) auto

lemma unat_of_nat_u8 [simp]: "unat (of_nat n :: u8) = n mod 256"
  by (simp add: unat_of_nat)

lemma of_le_to_le: "of_le (to_le k v) = v mod 256 ^ k"
proof (induction k arbitrary: v)
  case (Suc k)
  have "v mod 256 + 256 * (v div 256 mod 256 ^ k) = v mod (256 * 256 ^ k)"
    by (simp add: mod_mult2_eq)
  with Suc show ?case by simp
qed simp

lemma of_le_bound: "of_le bs < 256 ^ length bs"
proof (induction bs)
  case (Cons b bs)
  have "unat b < 256" using unsigned_less [of b] by simp
  with Cons show ?case by (simp add: algebra_simps)
qed simp

lemma to_le_of_le: "to_le (length bs) (of_le bs) = bs"
proof (induction bs)
  case (Cons b bs)
  have "unat b < 256" using unsigned_less [of b] by simp
  with Cons show ?case by simp
qed simp

lemma to_le_of_le_len: "length bs = k \<Longrightarrow> to_le k (of_le bs) = bs"
  using to_le_of_le [of bs] by simp

lemma of_le_to_le_id: "v < 256 ^ k \<Longrightarrow> of_le (to_le k v) = v"
  by (simp add: of_le_to_le)

lemma to_le_inject: "to_le k x = to_le k y \<Longrightarrow> x < 256 ^ k \<Longrightarrow> y < 256 ^ k \<Longrightarrow> x = y"
  by (metis of_le_to_le_id)

section \<open>Durations and instants\<close>

text \<open>
  A \<open>Duration\<close> is a number of nanoseconds up to \<open>Duration::MAX\<close>; an \<open>Instant\<close> is a
  number of nanoseconds on the monotonic clock.
\<close>

type_synonym duration = nat
type_synonym instant = nat

definition DURATION_MAX :: duration where
  "DURATION_MAX = (2 ^ 64 - 1) * 10 ^ 9 + 999999999"

definition dur_secs :: "nat \<Rightarrow> duration" where "dur_secs n = n * 10 ^ 9"
definition dur_millis :: "nat \<Rightarrow> duration" where "dur_millis n = n * 10 ^ 6"
definition dur_as_millis :: "duration \<Rightarrow> nat" where "dur_as_millis d = d div 10 ^ 6"
definition dur_sat_add :: "duration \<Rightarrow> duration \<Rightarrow> duration" where
  "dur_sat_add a b = min (a + b) DURATION_MAX"
definition sat_since :: "instant \<Rightarrow> instant \<Rightarrow> duration" where "sat_since now t = now - t"

lemma dur_sat_add_le: "dur_sat_add a b \<le> a + b"
  by (simp add: dur_sat_add_def)

section \<open>Byte sources\<close>

text \<open>
  What the two container decoders need of their input: the bytes still to be
  read, an exact read that either consumes them or reports the end of the
  input, and nothing else. \<open>Vault_Codec\<close> and \<open>Backup\<close> interpret it on their readers.
\<close>

locale byte_source =
  fixes take_exact :: "nat \<Rightarrow> 's \<Rightarrow> 'e + bytes \<times> 's"
    and remaining :: "'s \<Rightarrow> bytes"
    and valid :: "'s \<Rightarrow> bool"
    and eof :: 'e
  assumes take_ok: "valid s \<Longrightarrow> n \<le> length (remaining s) \<Longrightarrow>
      \<exists>s'. take_exact n s = Inr (take n (remaining s), s') \<and>
           remaining s' = drop n (remaining s) \<and> valid s'"
    and take_eof: "valid s \<Longrightarrow> length (remaining s) < n \<Longrightarrow> take_exact n s = Inl eof"
begin

lemma take_cases:
  assumes "valid s"
  shows "(length (remaining s) < n \<and> take_exact n s = Inl eof) \<or>
    (\<exists>bs s'. take_exact n s = Inr (bs, s') \<and> remaining s = bs @ remaining s' \<and>
       length bs = n \<and> valid s')"
proof (cases "length (remaining s) < n")
  case True
  with assms show ?thesis by (simp add: take_eof)
next
  case False
  then obtain s' where "take_exact n s = Inr (take n (remaining s), s')"
    "remaining s' = drop n (remaining s)" "valid s'"
    using take_ok [OF assms, of n] by auto
  with False show ?thesis by auto
qed

lemma take_prefix:
  assumes "valid s" and "remaining s = bs @ rest" and "length bs = n"
  shows "\<exists>s'. take_exact n s = Inr (bs, s') \<and> remaining s' = rest \<and> valid s'"
  using take_ok [OF assms(1), of n] assms(2,3) by auto

lemma take_inv:
  assumes "valid s" and "take_exact n s = Inr (bs, s')"
  shows "remaining s = bs @ remaining s' \<and> length bs = n \<and> valid s'"
  using take_cases [OF assms(1), of n] assms(2) by auto

lemma take_le_value:
  assumes "valid s" and "remaining s = to_le k v @ rest" and "v < 256 ^ k"
  shows "\<exists>bs s'. take_exact k s = Inr (bs, s') \<and> of_le bs = v \<and> remaining s' = rest \<and> valid s'"
  using take_prefix [OF assms(1,2)] assms(3) by (force simp: of_le_to_le_id)

lemma take_inv_le:
  assumes "valid s" and "take_exact k s = Inr (bs, s')"
  shows "remaining s = to_le k (of_le bs) @ remaining s' \<and> of_le bs < 256 ^ k \<and> valid s'"
  using take_inv [OF assms] of_le_bound [of bs] by (auto simp: to_le_of_le_len)

end

section \<open>Runs of a step function\<close>

fun run :: "('s \<Rightarrow> 'e \<Rightarrow> 's) \<Rightarrow> 's \<Rightarrow> 'e list \<Rightarrow> 's" where
  "run exec s [] = s"
| "run exec s (e # es) = run exec (exec s e) es"

text \<open>Every step of the run satisfies \<open>ok\<close> in the state it is taken in.\<close>
fun run_within :: "('s \<Rightarrow> 'e \<Rightarrow> bool) \<Rightarrow> ('s \<Rightarrow> 'e \<Rightarrow> 's) \<Rightarrow> 's \<Rightarrow> 'e list \<Rightarrow> bool" where
  "run_within ok exec s [] \<longleftrightarrow> True"
| "run_within ok exec s (e # es) \<longleftrightarrow> ok s e \<and> run_within ok exec (exec s e) es"

lemma run_append: "run exec s (xs @ ys) = run exec (run exec s xs) ys"
  by (induction xs arbitrary: s) auto

text \<open>
  What the invariants of the stateful components have in common: a step function, the
  steps considered and a predicate each of them keeps.
\<close>

locale step_invariant =
  fixes exec :: "'s \<Rightarrow> 'e \<Rightarrow> 's" and ok :: "'s \<Rightarrow> 'e \<Rightarrow> bool" and inv :: "'s \<Rightarrow> bool"
  assumes step: "inv s \<Longrightarrow> ok s e \<Longrightarrow> inv (exec s e)"
begin

lemma run_inv: "inv s \<Longrightarrow> run_within ok exec s es \<Longrightarrow> inv (run exec s es)"
  by (induction es arbitrary: s) (auto intro: step)

lemma run_inv_all: "inv s \<Longrightarrow> (\<And>s e. e \<in> set es \<Longrightarrow> ok s e) \<Longrightarrow> inv (run exec s es)"
  by (induction es arbitrary: s) (auto intro: step)

end

text \<open>A service answers every event; \<open>replies\<close> is a run with its answers.\<close>

fun replies :: "('s \<Rightarrow> 'e \<Rightarrow> 's \<times> 'a) \<Rightarrow> 's \<Rightarrow> 'e list \<Rightarrow> 's \<times> 'a list" where
  "replies serve s [] = (s, [])"
| "replies serve s (e # es) =
    (let (s', a) = serve s e; (s'', answers) = replies serve s' es in (s'', a # answers))"

text \<open>The runs an abstract service allows: each step is one of those it offers.\<close>

inductive allowed :: "('t \<Rightarrow> 'e \<Rightarrow> ('t \<times> 'a) set) \<Rightarrow> 't \<Rightarrow> ('e \<times> 'a) list \<Rightarrow> 't \<Rightarrow> bool" for offers where
  allowed_Nil: "allowed offers t [] t"
| allowed_Cons: "(t', a) \<in> offers t e \<Longrightarrow> allowed offers t' obs t'' \<Longrightarrow> allowed offers t ((e, a) # obs) t''"

inductive_simps allowed_simps [simp]: "allowed offers t [] t'" "allowed offers t (x # obs) t'"

text \<open>
  What a simulation is used for: whatever is answered in a run of the service is answered in a run
  the abstract service allows.
\<close>

locale simulation =
  fixes serve :: "'s \<Rightarrow> 'e \<Rightarrow> 's \<times> 'a" and offers :: "'t \<Rightarrow> 'e \<Rightarrow> ('t \<times> 'a) set"
    and abstract :: "'s \<Rightarrow> 't" and ok :: "'e \<Rightarrow> bool" and inv :: "'s \<Rightarrow> bool"
  assumes simulates: "inv s \<Longrightarrow> ok e \<Longrightarrow> serve s e = (s', a) \<Longrightarrow> (abstract s', a) \<in> offers (abstract s) e"
    and keeps_inv: "inv s \<Longrightarrow> ok e \<Longrightarrow> serve s e = (s', a) \<Longrightarrow> inv s'"
begin

lemma trace_allowed:
  assumes "replies serve s es = (s', answers)" and "inv s" and "\<forall>e\<in>set es. ok e"
  shows "allowed offers (abstract s) (zip es answers) (abstract s') \<and> inv s' \<and> length answers = length es"
  using assms
proof (induction es arbitrary: s answers)
  case (Cons e es)
  obtain s1 a where e: "serve s e = (s1, a)" by fastforce
  obtain answers' where r: "replies serve s1 es = (s', answers')" "answers = a # answers'"
    using Cons.prems(1) e by (auto split: prod.splits)
  show ?case
    using Cons.IH [OF r(1) keeps_inv [OF Cons.prems(2) _ e]] simulates [OF Cons.prems(2) _ e] Cons.prems(3) r(2)
    by auto
qed simp

end

end
