(* ===== verification/Rust_String.thy ===== *)
theory Rust_String
  imports Prelude
begin

text \<open>
  Rust's \<open>String\<close> and \<open>str\<close>: a string is its list of Unicode scalar values, \<open>len\<close> counts
  UTF-8 bytes, and the standard-library operations the source uses (UTF-8 coding,
  \<open>trim\<close>, \<open>lines\<close>, \<open>split_once\<close>, integer parsing and printing) are written out
  from their documented behaviour.
\<close>

section \<open>Scalar values and UTF-8\<close>

type_synonym rchar = nat
type_synonym rstring = "rchar list"

text \<open>A literal of the source, whose characters are all ASCII.\<close>
definition lit :: "string \<Rightarrow> rstring" where "lit s = map of_char s"

definition is_scalar :: "rchar \<Rightarrow> bool" where
  "is_scalar c \<longleftrightarrow> c < 0xD800 \<or> (0xE000 \<le> c \<and> c < 0x110000)"

abbreviation scalars :: "rstring \<Rightarrow> bool" where "scalars s \<equiv> list_all is_scalar s"

text \<open>\<open>n as u8\<close>, and the byte it gives.\<close>
definition byte :: "nat \<Rightarrow> u8" where "byte n = of_nat n"

lemma unat_byte [simp]: "n < 256 \<Longrightarrow> unat (byte n) = n"
  by (simp add: byte_def)

lemma byte_unat [simp]: "byte (unat b) = b"
  by (simp add: byte_def)

definition utf8_char :: "rchar \<Rightarrow> bytes" where
  "utf8_char c =
    (if c < 0x80 then [byte c]
     else if c < 0x800 then [byte (0xC0 + c div 64), byte (0x80 + c mod 64)]
     else if c < 0x10000 then
       [byte (0xE0 + c div 4096), byte (0x80 + c div 64 mod 64), byte (0x80 + c mod 64)]
     else
       [byte (0xF0 + c div 262144), byte (0x80 + c div 4096 mod 64),
        byte (0x80 + c div 64 mod 64), byte (0x80 + c mod 64)])"

definition as_bytes :: "rstring \<Rightarrow> bytes" where
  "as_bytes s = concat (map utf8_char s)"

definition char_len :: "rchar \<Rightarrow> nat" where
  "char_len c = (if c < 0x80 then 1 else if c < 0x800 then 2 else if c < 0x10000 then 3 else 4)"

definition str_len :: "rstring \<Rightarrow> nat" where
  "str_len s = sum_list (map char_len s)"

definition cont :: "u8 \<Rightarrow> bool" where "cont b \<longleftrightarrow> 0x80 \<le> unat b \<and> unat b < 0xC0"
definition low6 :: "u8 \<Rightarrow> nat" where "low6 b = unat b - 0x80"

text \<open>
  \<open>std::str::from_utf8\<close>: the decoded scalar has to need its length and be no surrogate,
  which is the Unicode table of well-formed byte sequences.
\<close>

fun from_utf8 :: "bytes \<Rightarrow> rstring option" where
  "from_utf8 [] = Some []"
| "from_utf8 (b # bs) =
    (if unat b < 0x80 then map_option ((#) (unat b)) (from_utf8 bs)
     else if 0xC0 \<le> unat b \<and> unat b < 0xE0 then
       (case bs of
          b1 # r \<Rightarrow>
            (let c = (unat b - 0xC0) * 64 + low6 b1 in
             if cont b1 \<and> 0x80 \<le> c then map_option ((#) c) (from_utf8 r) else None)
        | [] \<Rightarrow> None)
     else if 0xE0 \<le> unat b \<and> unat b < 0xF0 then
       (case bs of
          b1 # b2 # r \<Rightarrow>
            (let c = (unat b - 0xE0) * 4096 + low6 b1 * 64 + low6 b2 in
             if cont b1 \<and> cont b2 \<and> 0x800 \<le> c \<and> is_scalar c
             then map_option ((#) c) (from_utf8 r) else None)
        | _ \<Rightarrow> None)
     else if 0xF0 \<le> unat b \<and> unat b < 0xF8 then
       (case bs of
          b1 # b2 # b3 # r \<Rightarrow>
            (let c = (unat b - 0xF0) * 262144 + low6 b1 * 4096 + low6 b2 * 64 + low6 b3 in
             if cont b1 \<and> cont b2 \<and> cont b3 \<and> 0x10000 \<le> c \<and> is_scalar c
             then map_option ((#) c) (from_utf8 r) else None)
        | _ \<Rightarrow> None)
     else None)"

lemma length_utf8_char [simp]: "length (utf8_char c) = char_len c"
  by (simp add: utf8_char_def char_len_def)

lemma as_bytes_Nil [simp]: "as_bytes [] = []"
  and as_bytes_Cons [simp]: "as_bytes (c # s) = utf8_char c @ as_bytes s"
  by (simp_all add: as_bytes_def)

lemma str_len_Nil [simp]: "str_len [] = 0"
  and str_len_Cons [simp]: "str_len (c # s) = char_len c + str_len s"
  by (simp_all add: str_len_def)

lemma length_as_bytes: "length (as_bytes s) = str_len s"
  by (induction s) auto

lemma char_len_pos: "1 \<le> char_len c"
  by (simp add: char_len_def)

lemma length_le_str_len: "length s \<le> str_len s"
proof (induction s)
  case (Cons c s)
  then show ?case using char_len_pos [of c] by simp
qed simp

lemma str_len_0_iff [simp]: "str_len s = 0 \<longleftrightarrow> s = []"
  using length_le_str_len [of s] by (cases s) auto

lemma str_len_append [simp]: "str_len (s @ t) = str_len s + str_len t"
  by (simp add: str_len_def)

lemma cont_byte [simp]: "n < 64 \<Longrightarrow> cont (byte (0x80 + n)) \<and> low6 (byte (0x80 + n)) = n"
  by (simp add: cont_def low6_def)

lemma from_utf8_char:
  assumes "is_scalar c"
  shows "from_utf8 (utf8_char c @ bs) = map_option ((#) c) (from_utf8 bs)"
proof -
  have c: "c < 0x110000" using assms by (auto simp: is_scalar_def)
  have e2: "c div 64 * 64 + c mod 64 = c" by simp
  have d1: "c div 4096 = c div 64 div 64" and d2: "c div 262144 = c div 4096 div 64"
    using div_mult2_eq [of c 64 64] div_mult2_eq [of c 4096 64] by simp_all
  have m1: "c div 64 div 64 * 64 + c div 64 mod 64 = c div 64"
    and m2: "c div 4096 div 64 * 64 + c div 4096 mod 64 = c div 4096" by simp_all
  have e3: "c div 4096 * 4096 + c div 64 mod 64 * 64 + c mod 64 = c"
    using e2 m1 unfolding d1 by linarith
  have e4: "c div 262144 * 262144 + c div 4096 mod 64 * 4096 + c div 64 mod 64 * 64 + c mod 64 = c"
    using e2 m1 m2 unfolding d1 d2 by linarith
  consider "c < 0x80" | "0x80 \<le> c" "c < 0x800" | "0x800 \<le> c" "c < 0x10000" | "0x10000 \<le> c"
    by linarith
  then show ?thesis
  proof cases
    case 1
    then show ?thesis by (simp add: utf8_char_def)
  next
    case 2
    then have "c div 64 < 32" "2 \<le> c div 64" by auto
    with 2 show ?thesis by (simp add: utf8_char_def cont_def low6_def e2)
  next
    case 3
    then have "c div 4096 < 16" by auto
    with 3 assms show ?thesis by (simp add: utf8_char_def cont_def low6_def e3)
  next
    case 4
    with c have "c div 262144 < 5" by auto
    with 4 assms show ?thesis by (simp add: utf8_char_def cont_def low6_def e4)
  qed
qed

text \<open>Encoding then decoding is the identity on every Rust string.\<close>

lemma from_utf8_as_bytes: "scalars s \<Longrightarrow> from_utf8 (as_bytes s) = Some s"
  by (induction s) (auto simp: from_utf8_char simp del: from_utf8.simps(2))

section \<open>Character classes\<close>

definition is_ascii_char :: "rchar \<Rightarrow> bool" where "is_ascii_char c \<longleftrightarrow> c < 128"
definition is_ascii :: "rstring \<Rightarrow> bool" where "is_ascii s \<longleftrightarrow> list_all is_ascii_char s"

text \<open>\<open>char::is_control\<close>: the general category Cc.\<close>
definition is_control :: "rchar \<Rightarrow> bool" where
  "is_control c \<longleftrightarrow> c < 0x20 \<or> (0x7F \<le> c \<and> c \<le> 0x9F)"

text \<open>\<open>char::is_whitespace\<close>: the property White\_Space.\<close>
definition is_whitespace :: "rchar \<Rightarrow> bool" where
  "is_whitespace c \<longleftrightarrow> (9 \<le> c \<and> c \<le> 13) \<or> c = 0x20 \<or> c = 0x85 \<or> c = 0xA0 \<or> c = 0x1680 \<or>
     (0x2000 \<le> c \<and> c \<le> 0x200A) \<or> c = 0x2028 \<or> c = 0x2029 \<or> c = 0x202F \<or> c = 0x205F \<or> c = 0x3000"

definition is_digit :: "rchar \<Rightarrow> bool" where "is_digit c \<longleftrightarrow> 48 \<le> c \<and> c \<le> 57"

definition is_ascii_alphanumeric :: "rchar \<Rightarrow> bool" where
  "is_ascii_alphanumeric c \<longleftrightarrow> is_digit c \<or> (65 \<le> c \<and> c \<le> 90) \<or> (97 \<le> c \<and> c \<le> 122)"

definition to_ascii_uppercase :: "rchar \<Rightarrow> rchar" where
  "to_ascii_uppercase c = (if 97 \<le> c \<and> c \<le> 122 then c - 32 else c)"

lemma str_len_ascii: "is_ascii s \<Longrightarrow> str_len s = length s"
  by (induction s) (auto simp: is_ascii_def is_ascii_char_def char_len_def)

lemma as_bytes_ascii: "is_ascii s \<Longrightarrow> as_bytes s = map byte s"
  by (induction s) (auto simp: is_ascii_def is_ascii_char_def utf8_char_def)

section \<open>Slicing\<close>

definition trim_end_with :: "(rchar \<Rightarrow> bool) \<Rightarrow> rstring \<Rightarrow> rstring" where
  "trim_end_with p s = rev (dropWhile p (rev s))"

definition trim :: "rstring \<Rightarrow> rstring" where
  "trim s = trim_end_with is_whitespace (dropWhile is_whitespace s)"

fun split_once :: "rchar \<Rightarrow> rstring \<Rightarrow> (rstring \<times> rstring) option" where
  "split_once d [] = None"
| "split_once d (c # s) =
    (if c = d then Some ([], s)
     else map_option (\<lambda>(a, b). (c # a, b)) (split_once d s))"

definition starts_with :: "rstring \<Rightarrow> rstring \<Rightarrow> bool" where
  "starts_with p s \<longleftrightarrow> take (length p) s = p"

text \<open>\<open>str::lines\<close>: the ends are LF or CR LF; a last line without LF keeps its CR.\<close>

definition strip_cr :: "rstring \<Rightarrow> rstring" where
  "strip_cr s = (if s \<noteq> [] \<and> last s = 13 then butlast s else s)"

fun lines_from :: "rstring \<Rightarrow> rstring \<Rightarrow> rstring list" where
  "lines_from acc [] = (if acc = [] then [] else [rev acc])"
| "lines_from acc (c # s) =
    (if c = 10 then strip_cr (rev acc) # lines_from [] s else lines_from (c # acc) s)"

definition str_lines :: "rstring \<Rightarrow> rstring list" where "str_lines s = lines_from [] s"

lemma split_once_Some:
  "split_once d s = Some (a, b) \<Longrightarrow> s = a @ d # b \<and> d \<notin> set a"
  by (induction s arbitrary: a b) (auto split: if_splits)

lemma split_once_None: "split_once d s = None \<longleftrightarrow> d \<notin> set s"
  by (induction s) auto

lemma split_once_append: "d \<notin> set a \<Longrightarrow> split_once d (a @ d # b) = Some (a, b)"
  by (induction a) auto

lemma set_trim_end: "set (trim_end_with p s) \<subseteq> set s"
  by (auto simp: trim_end_with_def dest: set_dropWhileD)

lemma set_trim: "set (trim s) \<subseteq> set s"
  unfolding trim_def using set_trim_end set_dropWhileD by fastforce

lemma trim_end_with_idem [simp]: "trim_end_with p (trim_end_with p s) = trim_end_with p s"
  by (simp add: trim_end_with_def)

lemma trim_end_with_last: "trim_end_with p s \<noteq> [] \<Longrightarrow> \<not> p (last (trim_end_with p s))"
  by (simp add: trim_end_with_def last_rev hd_dropWhile)

lemma trim_end_with_id: "s = [] \<or> \<not> p (last s) \<Longrightarrow> trim_end_with p s = s"
  by (cases s rule: rev_cases) (auto simp: trim_end_with_def)

lemma trim_id: "s = [] \<or> (\<not> is_whitespace (hd s) \<and> \<not> is_whitespace (last s)) \<Longrightarrow> trim s = s"
  by (cases s) (auto simp: trim_def trim_end_with_id)

section \<open>Decimal integers\<close>

text \<open>\<open>str::parse\<close> for an unsigned type with the given maximum.\<close>

definition dec_value :: "rstring \<Rightarrow> nat" where
  "dec_value ds = foldl (\<lambda>a d. 10 * a + (d - 48)) 0 ds"

definition strip_plus :: "rstring \<Rightarrow> rstring" where
  "strip_plus s = (case s of [] \<Rightarrow> [] | c # r \<Rightarrow> if c = 43 \<and> r \<noteq> [] then r else s)"

definition parse_uint :: "nat \<Rightarrow> rstring \<Rightarrow> nat option" where
  "parse_uint max_value s =
    (let ds = strip_plus s in
     if ds = [] \<or> \<not> list_all is_digit ds then None
     else if dec_value ds \<le> max_value then Some (dec_value ds) else None)"

text \<open>\<open>to_string\<close> and the zero-padded \<open>{:0width$}\<close> of an unsigned integer.\<close>

fun dec_digits :: "nat \<Rightarrow> rstring" where
  "dec_digits n = (if n < 10 then [48 + n] else dec_digits (n div 10) @ [48 + n mod 10])"

declare dec_digits.simps [simp del]

definition fmt_zero_padded :: "nat \<Rightarrow> nat \<Rightarrow> rstring" where
  "fmt_zero_padded width n =
    (let ds = dec_digits n in replicate (width - length ds) 48 @ ds)"

lemma dec_value_snoc: "dec_value (ds @ [d]) = 10 * dec_value ds + (d - 48)"
  by (simp add: dec_value_def)

lemma dec_digits_ne [simp]: "dec_digits n \<noteq> []"
  by (subst dec_digits.simps) simp

lemma dec_digits_digit: "list_all is_digit (dec_digits n)"
proof (induction n rule: dec_digits.induct)
  case (1 n)
  then show ?case by (subst dec_digits.simps) (auto simp: is_digit_def list_all_iff)
qed

lemma dec_value_dec_digits: "dec_value (dec_digits n) = n"
proof (induction n rule: dec_digits.induct)
  case (1 n)
  show ?case
  proof (cases "n < 10")
    case True
    then show ?thesis by (simp add: dec_digits.simps [of n] dec_value_def)
  next
    case False
    with 1 show ?thesis by (simp add: dec_digits.simps [of n] dec_value_snoc)
  qed
qed

lemma length_dec_digits: "n < 10 ^ Suc k \<Longrightarrow> length (dec_digits n) \<le> Suc k"
proof (induction k arbitrary: n)
  case 0
  then show ?case by (simp add: dec_digits.simps [of n])
next
  case (Suc k)
  show ?case
  proof (cases "n < 10")
    case True
    then show ?thesis by (simp add: dec_digits.simps [of n])
  next
    case False
    from Suc.prems have "n div 10 < 10 ^ Suc k" by (simp add: less_mult_imp_div_less mult.commute)
    with Suc.IH have "length (dec_digits (n div 10)) \<le> Suc k" by blast
    with False show ?thesis by (simp add: dec_digits.simps [of n])
  qed
qed

lemma dec_value_zeros: "dec_value (replicate k 48 @ ds) = dec_value ds"
  by (induction k) (simp_all add: dec_value_def)

lemma strip_plus_digits: "list_all is_digit ds \<Longrightarrow> strip_plus ds = ds"
  by (cases ds) (auto simp: strip_plus_def is_digit_def)

lemma parse_dec_digits: "n \<le> m \<Longrightarrow> parse_uint m (dec_digits n) = Some n"
  by (simp add: parse_uint_def strip_plus_digits dec_digits_digit dec_value_dec_digits)

lemma fmt_zero_padded_length:
  "0 < w \<Longrightarrow> n < 10 ^ w \<Longrightarrow> length (fmt_zero_padded w n) = w"
  using length_dec_digits [of n "w - 1"] by (simp add: fmt_zero_padded_def Let_def)

lemma fmt_zero_padded_digit: "list_all is_digit (fmt_zero_padded w n)"
  using dec_digits_digit [of n]
  by (auto simp: fmt_zero_padded_def Let_def list_all_iff is_digit_def)

lemma parse_fmt_zero_padded: "n \<le> m \<Longrightarrow> parse_uint m (fmt_zero_padded w n) = Some n"
  using fmt_zero_padded_digit [of w n]
  by (simp add: parse_uint_def strip_plus_digits)
     (simp add: fmt_zero_padded_def Let_def dec_value_zeros dec_value_dec_digits)

end
