(* ===== verification/Policy.thy ===== *)
theory Policy
  imports Rust_String
begin

text \<open>
  \<open>core/antidebug.rs\<close>, \<open>core/session.rs\<close>, \<open>core/policy.rs\<close> and the unlock outcome of
  \<open>vault/duress.rs\<close>: the runtime inspection states and the probes that classify
  them, authentication strength, sensitive operations, runtime security events
  and the policy matrix that decides what a session may do.
\<close>

section \<open>Runtime inspection (core/antidebug.rs)\<close>

datatype runtime_inspection_state = NotDebugged | Debugged | Unknown | TamperSuspected

definition is_restrictive :: "runtime_inspection_state \<Rightarrow> bool" where
  "is_restrictive s \<longleftrightarrow> \<not> (case s of NotDebugged \<Rightarrow> True | _ \<Rightarrow> False)"

definition is_debugged :: "runtime_inspection_state \<Rightarrow> bool" where
  "is_debugged s \<longleftrightarrow> (case s of Debugged \<Rightarrow> True | _ \<Rightarrow> False)"

definition is_unknown :: "runtime_inspection_state \<Rightarrow> bool" where
  "is_unknown s \<longleftrightarrow> (case s of Unknown \<Rightarrow> True | _ \<Rightarrow> False)"

definition is_tamper_suspected :: "runtime_inspection_state \<Rightarrow> bool" where
  "is_tamper_suspected s \<longleftrightarrow> (case s of TamperSuspected \<Rightarrow> True | _ \<Rightarrow> False)"

lemma is_restrictive_iff [simp]: "is_restrictive s \<longleftrightarrow> s \<noteq> NotDebugged"
  by (cases s) (simp_all add: is_restrictive_def)

text \<open>
  The Linux and Android probe, given what reading \<open>/proc/self/status\<close> returned
  (\<open>None\<close> for an I/O error).
\<close>

definition detect_linux_like_runtime_state :: "rstring option \<Rightarrow> runtime_inspection_state" where
  "detect_linux_like_runtime_state status =
    (case status of
       None \<Rightarrow> Unknown
     | Some text \<Rightarrow>
         (case List.find (starts_with (lit ''TracerPid:'')) (str_lines text) of
            None \<Rightarrow> Unknown
          | Some line \<Rightarrow>
              (let value = (case split_once 58 line of None \<Rightarrow> [] | Some (_, rhs) \<Rightarrow> trim rhs) in
               case parse_uint (2 ^ 32 - 1) value of
                 Some n \<Rightarrow> if n = 0 then NotDebugged else Debugged
               | None \<Rightarrow> Unknown)))"

text \<open>
  The Apple probe, given the return code and the size that \<open>sysctl\<close> wrote, the size
  of \<open>kinfo_proc\<close>, the flags of the process and the \<open>P_TRACED\<close> mask.
\<close>

definition detect_apple_runtime_state ::
    "int \<Rightarrow> nat \<Rightarrow> nat \<Rightarrow> u32 \<Rightarrow> u32 \<Rightarrow> runtime_inspection_state" where
  "detect_apple_runtime_state rc written kinfo_size p_flag p_traced =
    (if rc \<noteq> 0 \<or> written < kinfo_size then Unknown
     else if and p_flag p_traced \<noteq> 0 then Debugged else NotDebugged)"

text \<open>
  The dispatch on the target the library is built for: the two answers of the operating
  system are only asked for where there is a probe.
\<close>

datatype target_os = LinuxLike | AppleLike | OtherTarget

definition detect_runtime_inspection_state ::
    "target_os \<Rightarrow> rstring option \<Rightarrow> int \<times> nat \<times> nat \<times> u32 \<times> u32 \<Rightarrow> runtime_inspection_state" where
  "detect_runtime_inspection_state os status sysctl =
    (case os of
       LinuxLike \<Rightarrow> detect_linux_like_runtime_state status
     | AppleLike \<Rightarrow> (case sysctl of (rc, written, kinfo_size, p_flag, p_traced) \<Rightarrow>
         detect_apple_runtime_state rc written kinfo_size p_flag p_traced)
     | OtherTarget \<Rightarrow> Unknown)"

section \<open>Sessions (core/session.rs, vault/duress.rs)\<close>

datatype unlock_outcome = Primary | Decoy

datatype authentication_strength = Strong | Biometric | QuickUnlock

definition is_strong :: "authentication_strength \<Rightarrow> bool" where
  "is_strong a \<longleftrightarrow> (case a of Strong \<Rightarrow> True | _ \<Rightarrow> False)"

datatype sensitive_operation =
  Export | SignedBackupTransfer | RevealSecret | CopySecret | CopyTotp | ChangeSecuritySettings

definition op_requires_strong_reauth :: "sensitive_operation \<Rightarrow> bool" where
  "op_requires_strong_reauth op =
    (case op of
       Export \<Rightarrow> True | SignedBackupTransfer \<Rightarrow> True | RevealSecret \<Rightarrow> True
     | CopySecret \<Rightarrow> True | CopyTotp \<Rightarrow> True | ChangeSecuritySettings \<Rightarrow> True)"

datatype runtime_security_event =
  AppBackgrounded | DeviceLocked | BiometricSetChanged | QuickUnlockInvalidated
| RuntimeBecameRestrictive

definition forces_lock :: "runtime_security_event \<Rightarrow> bool" where
  "forces_lock e =
    (case e of
       DeviceLocked \<Rightarrow> True | BiometricSetChanged \<Rightarrow> True | QuickUnlockInvalidated \<Rightarrow> True
     | RuntimeBecameRestrictive \<Rightarrow> True | _ \<Rightarrow> False)"

definition event_requires_strong_reauth :: "runtime_security_event \<Rightarrow> bool" where
  "event_requires_strong_reauth e = (case e of AppBackgrounded \<Rightarrow> True | _ \<Rightarrow> False)"

lemma is_strong_iff [simp]: "is_strong a \<longleftrightarrow> a = Strong"
  by (cases a) (simp_all add: is_strong_def)

lemma op_requires_strong_reauth_all [simp]: "op_requires_strong_reauth op"
  by (cases op) (simp_all add: op_requires_strong_reauth_def)

lemma forces_lock_iff [simp]: "forces_lock e \<longleftrightarrow> e \<noteq> AppBackgrounded"
  by (cases e) (simp_all add: forces_lock_def)

lemma event_requires_strong_reauth_iff [simp]:
  "event_requires_strong_reauth e \<longleftrightarrow> e = AppBackgrounded"
  by (cases e) (simp_all add: event_requires_strong_reauth_def)

text \<open>The session object, over the type of the decrypted payload.\<close>

record 'p unlocked_vault_session =
  uvs_outcome :: unlock_outcome
  uvs_payload :: 'p
  uvs_auth_strength :: authentication_strength

definition session_new :: "unlock_outcome \<Rightarrow> 'p \<Rightarrow> 'p unlocked_vault_session" where
  "session_new outcome payload =
    \<lparr>uvs_outcome = outcome, uvs_payload = payload, uvs_auth_strength = Strong\<rparr>"

definition session_with_strength ::
    "unlock_outcome \<Rightarrow> 'p \<Rightarrow> authentication_strength \<Rightarrow> 'p unlocked_vault_session" where
  "session_with_strength outcome payload strength =
    \<lparr>uvs_outcome = outcome, uvs_payload = payload, uvs_auth_strength = strength\<rparr>"

definition session_is_decoy :: "'p unlocked_vault_session \<Rightarrow> bool" where
  "session_is_decoy s \<longleftrightarrow> (case uvs_outcome s of Decoy \<Rightarrow> True | _ \<Rightarrow> False)"

definition session_is_strong :: "'p unlocked_vault_session \<Rightarrow> bool" where
  "session_is_strong s = is_strong (uvs_auth_strength s)"

definition session_requires_strong_reauth_for ::
    "'p unlocked_vault_session \<Rightarrow> sensitive_operation \<Rightarrow> bool" where
  "session_requires_strong_reauth_for s op \<longleftrightarrow> \<not> session_is_strong s \<and> op_requires_strong_reauth op"

section \<open>The policy matrix (core/policy.rs)\<close>

record policy_context =
  pc_outcome :: unlock_outcome
  pc_runtime_state :: runtime_inspection_state

definition policy_from_parts :: "unlock_outcome \<Rightarrow> runtime_inspection_state \<Rightarrow> policy_context" where
  "policy_from_parts outcome state = \<lparr>pc_outcome = outcome, pc_runtime_state = state\<rparr>"

text \<open>\<open>PolicyContext::new\<close> captures the state the live probe returns.\<close>
definition policy_new :: "runtime_inspection_state \<Rightarrow> unlock_outcome \<Rightarrow> policy_context" where
  "policy_new probe outcome = \<lparr>pc_outcome = outcome, pc_runtime_state = probe\<rparr>"

definition is_decoy :: "policy_context \<Rightarrow> bool" where
  "is_decoy p \<longleftrightarrow> pc_outcome p = Decoy"

definition is_runtime_restrictive :: "policy_context \<Rightarrow> bool" where
  "is_runtime_restrictive p \<longleftrightarrow> is_restrictive (pc_runtime_state p)"

definition policy_is_tamper_suspected :: "policy_context \<Rightarrow> bool" where
  "policy_is_tamper_suspected p \<longleftrightarrow> is_tamper_suspected (pc_runtime_state p)"

definition allow_secret_export_for_state :: "policy_context \<Rightarrow> runtime_inspection_state \<Rightarrow> bool" where
  "allow_secret_export_for_state p s \<longleftrightarrow> \<not> is_decoy p \<and> s = NotDebugged"

definition allow_secret_export :: "policy_context \<Rightarrow> bool" where
  "allow_secret_export p = allow_secret_export_for_state p (pc_runtime_state p)"

definition allow_plaintext_export :: "policy_context \<Rightarrow> bool" where
  "allow_plaintext_export p = allow_secret_export p"

definition allow_plaintext_import_for_state :: "policy_context \<Rightarrow> runtime_inspection_state \<Rightarrow> bool" where
  "allow_plaintext_import_for_state p s \<longleftrightarrow> \<not> is_decoy p \<and> s = NotDebugged"

definition allow_plaintext_import :: "policy_context \<Rightarrow> bool" where
  "allow_plaintext_import p = allow_plaintext_import_for_state p (pc_runtime_state p)"

definition allow_biometric_unlock_for_state :: "policy_context \<Rightarrow> runtime_inspection_state \<Rightarrow> bool" where
  "allow_biometric_unlock_for_state p s \<longleftrightarrow> \<not> is_decoy p \<and> s = NotDebugged"

definition allow_biometric_unlock :: "policy_context \<Rightarrow> bool" where
  "allow_biometric_unlock p = allow_biometric_unlock_for_state p (pc_runtime_state p)"

definition allow_signed_backup_transfer_for_state ::
    "policy_context \<Rightarrow> runtime_inspection_state \<Rightarrow> bool" where
  "allow_signed_backup_transfer_for_state p s \<longleftrightarrow> \<not> is_decoy p \<and> s = NotDebugged"

definition allow_signed_backup_transfer :: "policy_context \<Rightarrow> bool" where
  "allow_signed_backup_transfer p = allow_signed_backup_transfer_for_state p (pc_runtime_state p)"

definition allow_otpauth_import_for_state :: "policy_context \<Rightarrow> runtime_inspection_state \<Rightarrow> bool" where
  "allow_otpauth_import_for_state p s \<longleftrightarrow> \<not> is_decoy p \<and> s = NotDebugged"

definition allow_otpauth_import :: "policy_context \<Rightarrow> bool" where
  "allow_otpauth_import p = allow_otpauth_import_for_state p (pc_runtime_state p)"

definition allow_clipboard_copy_for_state :: "policy_context \<Rightarrow> runtime_inspection_state \<Rightarrow> bool" where
  "allow_clipboard_copy_for_state p s \<longleftrightarrow> \<not> is_decoy p \<and> s = NotDebugged"

definition allow_clipboard_copy :: "policy_context \<Rightarrow> bool" where
  "allow_clipboard_copy p = allow_clipboard_copy_for_state p (pc_runtime_state p)"

definition allow_totp_copy :: "policy_context \<Rightarrow> bool" where
  "allow_totp_copy p = allow_clipboard_copy p"

definition allow_secret_reveal :: "policy_context \<Rightarrow> bool" where
  "allow_secret_reveal p \<longleftrightarrow> \<not> is_decoy p \<and> pc_runtime_state p = NotDebugged"

definition requires_short_autolock :: "policy_context \<Rightarrow> bool" where
  "requires_short_autolock p = is_restrictive (pc_runtime_state p)"

definition requires_strong_reauth_for_sensitive_ops :: "policy_context \<Rightarrow> bool" where
  "requires_strong_reauth_for_sensitive_ops p = is_restrictive (pc_runtime_state p)"

definition allow_sensitive_operation :: "policy_context \<Rightarrow> sensitive_operation \<Rightarrow> bool" where
  "allow_sensitive_operation p op =
    (case op of
       Export \<Rightarrow> allow_plaintext_export p
     | SignedBackupTransfer \<Rightarrow> allow_signed_backup_transfer p
     | RevealSecret \<Rightarrow> allow_secret_reveal p
     | CopySecret \<Rightarrow> allow_clipboard_copy p
     | CopyTotp \<Rightarrow> allow_totp_copy p
     | ChangeSecuritySettings \<Rightarrow> \<not> is_decoy p \<and> \<not> is_runtime_restrictive p)"

text \<open>The standalone helpers, given what the live probe returns.\<close>

definition current_primary_runtime_policy :: "runtime_inspection_state \<Rightarrow> policy_context" where
  "current_primary_runtime_policy probe = policy_from_parts Primary probe"

definition allow_plaintext_export_under_runtime_policy :: "runtime_inspection_state \<Rightarrow> bool" where
  "allow_plaintext_export_under_runtime_policy probe =
     allow_plaintext_export (current_primary_runtime_policy probe)"

definition allow_clipboard_exposure_under_runtime_policy :: "runtime_inspection_state \<Rightarrow> bool" where
  "allow_clipboard_exposure_under_runtime_policy probe =
     allow_clipboard_copy (current_primary_runtime_policy probe)"

text \<open>
  The abstract contract of the matrix: one trusted posture, in which everything is
  allowed, and nothing is allowed outside it.
\<close>

definition trusted_posture :: "policy_context \<Rightarrow> bool" where
  "trusted_posture p \<longleftrightarrow> pc_outcome p = Primary \<and> pc_runtime_state p = NotDebugged"

lemma not_Decoy_iff: "o' \<noteq> Decoy \<longleftrightarrow> o' = Primary"
  by (cases o') auto

lemmas policy_defs =
  allow_secret_export_for_state_def allow_secret_export_def allow_plaintext_export_def
  allow_plaintext_import_for_state_def allow_plaintext_import_def
  allow_biometric_unlock_for_state_def allow_biometric_unlock_def
  allow_signed_backup_transfer_for_state_def allow_signed_backup_transfer_def
  allow_otpauth_import_for_state_def allow_otpauth_import_def
  allow_clipboard_copy_for_state_def allow_clipboard_copy_def allow_totp_copy_def
  allow_secret_reveal_def is_decoy_def is_runtime_restrictive_def

lemma allow_trusted [simp]:
  "allow_plaintext_export p \<longleftrightarrow> trusted_posture p"
  "allow_plaintext_import p \<longleftrightarrow> trusted_posture p"
  "allow_biometric_unlock p \<longleftrightarrow> trusted_posture p"
  "allow_signed_backup_transfer p \<longleftrightarrow> trusted_posture p"
  "allow_otpauth_import p \<longleftrightarrow> trusted_posture p"
  "allow_clipboard_copy p \<longleftrightarrow> trusted_posture p"
  "allow_totp_copy p \<longleftrightarrow> trusted_posture p"
  "allow_secret_reveal p \<longleftrightarrow> trusted_posture p"
  by (auto simp: policy_defs trusted_posture_def not_Decoy_iff)

lemma allow_sensitive_operation_trusted [simp]:
  "allow_sensitive_operation p op \<longleftrightarrow> trusted_posture p"
  by (cases op)
     (auto simp: allow_sensitive_operation_def trusted_posture_def is_decoy_def
        is_runtime_restrictive_def not_Decoy_iff)

lemma allow_export_runtime [simp]:
  "allow_plaintext_export_under_runtime_policy probe \<longleftrightarrow> probe = NotDebugged"
  by (simp add: allow_plaintext_export_under_runtime_policy_def
      current_primary_runtime_policy_def policy_from_parts_def trusted_posture_def)

lemma trusted_from_parts [simp]:
  "trusted_posture (policy_from_parts o' s) \<longleftrightarrow> o' = Primary \<and> s = NotDebugged"
  by (simp add: trusted_posture_def policy_from_parts_def)

section \<open>Properties\<close>

text \<open>The whole policy matrix is one rule: every export, import, reveal, copy, biometric unlock and
  signed transfer, and every sensitive operation, is allowed exactly for a primary session in a
  runtime inspected as not debugged; a decoy session, and any restrictive runtime state, the
  unknown one included, is denied everything. Short auto-lock and strong re-authentication are
  asked for exactly in the restrictive states.\<close>

lemma policy_matrix_single_rule:
  "let trusted = (pc_outcome p = Primary \<and> pc_runtime_state p = NotDebugged) in
   allow_secret_export p = trusted \<and> allow_plaintext_export p = trusted \<and>
   allow_plaintext_import p = trusted \<and> allow_biometric_unlock p = trusted \<and>
   allow_signed_backup_transfer p = trusted \<and> allow_otpauth_import p = trusted \<and>
   allow_clipboard_copy p = trusted \<and> allow_totp_copy p = trusted \<and>
   allow_secret_reveal p = trusted \<and> allow_sensitive_operation p op = trusted \<and>
   requires_short_autolock p = (pc_runtime_state p \<noteq> NotDebugged) \<and>
   requires_strong_reauth_for_sensitive_ops p = (pc_runtime_state p \<noteq> NotDebugged)"
  by (auto simp: Let_def trusted_posture_def allow_secret_export_def allow_secret_export_for_state_def
      is_decoy_def not_Decoy_iff requires_short_autolock_def requires_strong_reauth_for_sensitive_ops_def)

text \<open>On a target without a probe the live policy allows nothing, even to a primary session.\<close>

lemma unprobed_target_denied:
  "\<not> trusted_posture (policy_new (detect_runtime_inspection_state OtherTarget status sysctl) outcome)"
  by (simp add: detect_runtime_inspection_state_def policy_new_def trusted_posture_def)

text \<open>A session that is not strong needs re-authentication before every sensitive operation.\<close>

lemma session_reauth_iff:
  "session_requires_strong_reauth_for s op \<longleftrightarrow> uvs_auth_strength s \<noteq> Strong"
  by (simp add: session_requires_strong_reauth_for_def session_is_strong_def)

end
