(* ===== verification/Entries.thy ===== *)
theory Entries
  imports Policy
begin

text \<open>
  \<open>entries/validate.rs\<close>, \<open>entries/types.rs\<close> and \<open>entries/error.rs\<close>: field validators,
  the entry data model with its constructors, granular updates and type
  invariants, and the DTO boundary through which entries are serialised.
\<close>

section \<open>Errors and field validation (entries/error.rs, entries/validate.rs)\<close>

datatype entry_error =
  EmptyField | FieldTooLarge | ForbiddenChars | SuspiciousUnicode | VaultLocked
| EntryNotFound | DuplicateEntry | ReauthRequired | PolicyDenied | InvalidType | InvalidData

definition MAX_TITLE_LEN :: nat where [limits]: "MAX_TITLE_LEN = 256"
definition MAX_USERNAME_LEN :: nat where [limits]: "MAX_USERNAME_LEN = 320"
definition MAX_NOTE_LEN :: nat where [limits]: "MAX_NOTE_LEN = 8 * 1024"
definition MAX_PASSWORD_LEN :: nat where [limits]: "MAX_PASSWORD_LEN = 1024"

definition validate_required_bounded :: "rstring \<Rightarrow> nat \<Rightarrow> entry_error + unit" where
  "validate_required_bounded s max_len =
    guard (s = []) EmptyField (guard (str_len s > max_len) FieldTooLarge (Inr ()))"

definition is_bidi_control :: "rchar \<Rightarrow> bool" where
  "is_bidi_control u \<longleftrightarrow> (0x202A \<le> u \<and> u \<le> 0x202E) \<or> (0x2066 \<le> u \<and> u \<le> 0x2069) \<or>
     u = 0x200E \<or> u = 0x200F \<or> u = 0x061C"

definition is_zero_width :: "rchar \<Rightarrow> bool" where
  "is_zero_width u \<longleftrightarrow> (0x200B \<le> u \<and> u \<le> 0x200D) \<or> u = 0xFEFF"

text \<open>Two passes over the string, so a control character anywhere wins over the second error.\<close>

definition reject_controls_and_bidi :: "rstring \<Rightarrow> entry_error + unit" where
  "reject_controls_and_bidi s =
    guard (list_ex is_control s) ForbiddenChars
      (guard (list_ex (\<lambda>u. is_bidi_control u \<or> is_zero_width u) s) SuspiciousUnicode (Inr ()))"

definition validate_title :: "rstring \<Rightarrow> entry_error + unit" where
  "validate_title title =
    rbind (validate_required_bounded title MAX_TITLE_LEN) (\<lambda>_. reject_controls_and_bidi title)"

definition validate_note :: "rstring \<Rightarrow> entry_error + unit" where
  "validate_note note =
    rbind (validate_required_bounded note MAX_NOTE_LEN) (\<lambda>_. reject_controls_and_bidi note)"

definition validate_username :: "rstring \<Rightarrow> entry_error + unit" where
  "validate_username username =
    rbind (validate_required_bounded username MAX_USERNAME_LEN)
      (\<lambda>_. reject_controls_and_bidi username)"

definition validate_password :: "rstring \<Rightarrow> entry_error + unit" where
  "validate_password password = validate_required_bounded password MAX_PASSWORD_LEN"

text \<open>\<open>if let Some(ref x) = field { validate(x)?; }\<close>\<close>
fun validate_opt :: "(rstring \<Rightarrow> entry_error + unit) \<Rightarrow> rstring option \<Rightarrow> entry_error + unit" where
  "validate_opt v None = Inr ()"
| "validate_opt v (Some s) = v s"

section \<open>The data model (entries/types.rs)\<close>

datatype entry_type = Password | SecureNote | Card | Totp

datatype totp_algorithm = Sha1 | Sha256 | Sha512

record totp_secret =
  ts_issuer :: "rstring option"
  ts_account_name :: "rstring option"
  ts_secret_b32 :: rstring
  ts_digits :: u8
  ts_period_secs :: u32
  ts_algorithm :: totp_algorithm

definition is_b32_char :: "rchar \<Rightarrow> bool" where
  "is_b32_char b \<longleftrightarrow> (65 \<le> b \<and> b \<le> 90) \<or> (50 \<le> b \<and> b \<le> 55) \<or> b = 61"

definition totp_secret_validate :: "totp_secret \<Rightarrow> entry_error + unit" where
  "totp_secret_validate t =
    (if \<not> (ts_digits t = 6 \<or> ts_digits t = 7 \<or> ts_digits t = 8) then Inl InvalidType
     else if ts_period_secs t < 10 \<or> ts_period_secs t > 120 then Inl InvalidType
     else
       let s = ts_secret_b32 t in
       if s = [] then Inl EmptyField
       else if str_len s > 1024 then Inl FieldTooLarge
       else if \<not> is_ascii s then Inl SuspiciousUnicode
       else if \<not> list_all is_b32_char s then Inl ForbiddenChars
       else Inr ())"

record entry_metadata =
  em_id :: uuid
  em_entry_type :: entry_type

record entry_secret =
  es_title :: rstring
  es_note :: "rstring option"
  es_username :: "rstring option"
  es_secret :: rstring
  es_extra :: "bytes option"
  es_totp :: "totp_secret option"

record vault_entry =
  ve_meta :: entry_metadata
  ve_secret :: entry_secret

record entry_summary =
  sum_id :: uuid
  sum_entry_type :: entry_type
  sum_title :: rstring

record entry_view =
  vw_id :: uuid
  vw_entry_type :: entry_type
  vw_title :: rstring
  vw_note :: "rstring option"
  vw_username :: "rstring option"
  vw_secret :: rstring
  vw_extra :: "bytes option"
  vw_totp :: "totp_secret option"

datatype entry_update =
  SetTitle rstring
| SetNote "rstring option"
| SetUsername "rstring option"
| SetSecret rstring
| SetExtra "bytes option"
| SetTotp "totp_secret option"
| Replace "rstring option" "rstring option option" "rstring option option" "rstring option"
    "bytes option option" "totp_secret option option"

abbreviation entry_id :: "vault_entry \<Rightarrow> uuid" where "entry_id e \<equiv> em_id (ve_meta e)"
abbreviation entry_type_of :: "vault_entry \<Rightarrow> entry_type" where
  "entry_type_of e \<equiv> em_entry_type (ve_meta e)"

definition validate_invariants :: "vault_entry \<Rightarrow> entry_error + unit" where
  "validate_invariants e =
    (case entry_type_of e of
       Totp \<Rightarrow> (case es_totp (ve_secret e) of
                  None \<Rightarrow> Inl InvalidType
                | Some t \<Rightarrow> totp_secret_validate t)
     | _ \<Rightarrow> if es_totp (ve_secret e) \<noteq> None then Inl InvalidType else Inr ())"

abbreviation entry_ok :: "vault_entry \<Rightarrow> bool" where
  "entry_ok e \<equiv> is_ok (validate_invariants e)"

text \<open>Constructors; the first argument is the identifier \<open>Uuid::new_v4\<close> returns.\<close>

definition new_password ::
    "uuid \<Rightarrow> rstring \<Rightarrow> rstring option \<Rightarrow> rstring \<Rightarrow> rstring option \<Rightarrow> entry_error + vault_entry" where
  "new_password new_id title username password note =
    rbind (validate_title title) (\<lambda>_.
    rbind (validate_opt validate_note note) (\<lambda>_.
    rbind (validate_opt validate_username username) (\<lambda>_.
    rbind (validate_password password) (\<lambda>_.
      let entry = \<lparr>ve_meta = \<lparr>em_id = new_id, em_entry_type = Password\<rparr>,
                   ve_secret = \<lparr>es_title = title, es_note = note, es_username = username,
                     es_secret = password, es_extra = None, es_totp = None\<rparr>\<rparr>
      in rbind (validate_invariants entry) (\<lambda>_. Inr entry)))))"

definition new_secure_note :: "uuid \<Rightarrow> rstring \<Rightarrow> rstring \<Rightarrow> entry_error + vault_entry" where
  "new_secure_note new_id title note =
    rbind (validate_title title) (\<lambda>_.
    rbind (validate_note note) (\<lambda>_.
      let entry = \<lparr>ve_meta = \<lparr>em_id = new_id, em_entry_type = SecureNote\<rparr>,
                   ve_secret = \<lparr>es_title = title, es_note = Some note, es_username = None,
                     es_secret = note, es_extra = None, es_totp = None\<rparr>\<rparr>
      in rbind (validate_invariants entry) (\<lambda>_. Inr entry)))"

definition new_totp ::
    "uuid \<Rightarrow> rstring \<Rightarrow> totp_secret \<Rightarrow> rstring option \<Rightarrow> entry_error + vault_entry" where
  "new_totp new_id title totp note =
    rbind (validate_title title) (\<lambda>_.
    rbind (validate_opt validate_note note) (\<lambda>_.
    rbind (totp_secret_validate totp) (\<lambda>_.
      let entry = \<lparr>ve_meta = \<lparr>em_id = new_id, em_entry_type = Totp\<rparr>,
                   ve_secret = \<lparr>es_title = title, es_note = note, es_username = None,
                     es_secret = ts_secret_b32 totp, es_extra = None, es_totp = Some totp\<rparr>\<rparr>
      in rbind (validate_invariants entry) (\<lambda>_. Inr entry))))"

definition to_summary :: "vault_entry \<Rightarrow> entry_summary" where
  "to_summary e = \<lparr>sum_id = entry_id e, sum_entry_type = entry_type_of e,
                   sum_title = es_title (ve_secret e)\<rparr>"

definition to_view :: "vault_entry \<Rightarrow> entry_view" where
  "to_view e = \<lparr>vw_id = entry_id e, vw_entry_type = entry_type_of e,
      vw_title = es_title (ve_secret e), vw_note = es_note (ve_secret e),
      vw_username = es_username (ve_secret e), vw_secret = es_secret (ve_secret e),
      vw_extra = es_extra (ve_secret e), vw_totp = es_totp (ve_secret e)\<rparr>"

section \<open>Granular updates (\<open>VaultEntry::apply_update\<close>)\<close>

type_synonym entry_result = "(vault_entry, entry_error, unit) mut_result"

definition with_secret :: "vault_entry \<Rightarrow> (entry_secret \<Rightarrow> entry_secret) \<Rightarrow> vault_entry" where
  "with_secret e f = e\<lparr>ve_secret := f (ve_secret e)\<rparr>"

text \<open>The check of the type invariants that ends every call; the writes are not undone.\<close>
definition finish_update :: "vault_entry \<Rightarrow> entry_result" where
  "finish_update e = (e, validate_invariants e)"

text \<open>
  The arm \<open>SetSecret\<close>: for a TOTP entry the new secret is written into the TOTP
  block \<^emph>\<open>before\<close> the block is validated.
\<close>

definition apply_set_secret :: "rstring \<Rightarrow> vault_entry \<Rightarrow> entry_result" where
  "apply_set_secret s e =
    (if entry_type_of e = Password then
       mut_try e (validate_password s) (with_secret e (es_secret_update (\<lambda>_. s)), Inr ())
     else if entry_type_of e = Totp then
       (case es_totp (ve_secret e) of
          None \<Rightarrow> (e, Inl InvalidType)
        | Some t \<Rightarrow>
            (let t' = t\<lparr>ts_secret_b32 := s\<rparr>;
                 e' = with_secret e (es_totp_update (\<lambda>_. Some t'))
             in mut_try e' (totp_secret_validate t')
                  (with_secret e' (es_secret_update (\<lambda>_. s)), Inr ())))
     else (with_secret e (es_secret_update (\<lambda>_. s)), Inr ()))"

definition apply_set_totp :: "totp_secret option \<Rightarrow> vault_entry \<Rightarrow> entry_result" where
  "apply_set_totp t e =
    (if entry_type_of e \<noteq> Totp then (e, Inl InvalidType)
     else
       (case t of
          None \<Rightarrow> (with_secret e (es_totp_update (\<lambda>_. None)), Inr ())
        | Some tsec \<Rightarrow>
            mut_try e (totp_secret_validate tsec)
              (with_secret (with_secret e (es_secret_update (\<lambda>_. ts_secret_b32 tsec)))
                 (es_totp_update (\<lambda>_. Some tsec)), Inr ())))"

fun opt_step :: "'a option \<Rightarrow> ('a \<Rightarrow> vault_entry \<Rightarrow> entry_result) \<Rightarrow> vault_entry \<Rightarrow> entry_result" where
  "opt_step None f e = (e, Inr ())"
| "opt_step (Some x) f e = f x e"

definition apply_set_title :: "rstring \<Rightarrow> vault_entry \<Rightarrow> entry_result" where
  "apply_set_title t e =
    mut_try e (validate_title t) (with_secret e (es_title_update (\<lambda>_. t)), Inr ())"

definition apply_set_note :: "rstring option \<Rightarrow> vault_entry \<Rightarrow> entry_result" where
  "apply_set_note n e =
    mut_try e (validate_opt validate_note n) (with_secret e (es_note_update (\<lambda>_. n)), Inr ())"

definition apply_set_username :: "rstring option \<Rightarrow> vault_entry \<Rightarrow> entry_result" where
  "apply_set_username u e =
    mut_try e (validate_opt validate_username u)
      (with_secret e (es_username_update (\<lambda>_. u)), Inr ())"

definition apply_set_extra :: "bytes option \<Rightarrow> vault_entry \<Rightarrow> entry_result" where
  "apply_set_extra x e = (with_secret e (es_extra_update (\<lambda>_. x)), Inr ())"

text \<open>
  \<open>Replace\<close> runs its parts in order; the nested \<open>SetSecret\<close> and \<open>SetTotp\<close> are whole
  calls of \<open>apply_update\<close>, so each of them ends with the invariant check.
\<close>

fun apply_update :: "vault_entry \<Rightarrow> entry_update \<Rightarrow> entry_result" where
  "apply_update e (SetTitle t) = mut_then (apply_set_title t e) finish_update"
| "apply_update e (SetNote n) = mut_then (apply_set_note n e) finish_update"
| "apply_update e (SetUsername u) = mut_then (apply_set_username u e) finish_update"
| "apply_update e (SetSecret s) = mut_then (apply_set_secret s e) finish_update"
| "apply_update e (SetExtra x) = mut_then (apply_set_extra x e) finish_update"
| "apply_update e (SetTotp t) = mut_then (apply_set_totp t e) finish_update"
| "apply_update e (Replace title note username sec extra totp) =
    mut_then (opt_step title apply_set_title e) (\<lambda>e1.
    mut_then (opt_step note apply_set_note e1) (\<lambda>e2.
    mut_then (opt_step username apply_set_username e2) (\<lambda>e3.
    mut_then (opt_step sec (\<lambda>s x. mut_then (apply_set_secret s x) finish_update) e3) (\<lambda>e4.
    mut_then (opt_step extra apply_set_extra e4) (\<lambda>e5.
    mut_then (opt_step totp (\<lambda>t x. mut_then (apply_set_totp t x) finish_update) e5)
      finish_update)))))"

section \<open>The serialisation boundary (DTOs)\<close>

record totp_secret_dto =
  td_issuer :: "rstring option"
  td_account_name :: "rstring option"
  td_secret_b32 :: rstring
  td_digits :: u8
  td_period_secs :: u32
  td_algorithm :: totp_algorithm

record entry_secret_dto =
  sd_title :: rstring
  sd_note :: "rstring option"
  sd_username :: "rstring option"
  sd_secret :: rstring
  sd_extra :: "bytes option"
  sd_totp :: "totp_secret_dto option"

record vault_entry_dto =
  vd_meta :: entry_metadata
  vd_secret :: entry_secret_dto

definition totp_to_dto :: "totp_secret \<Rightarrow> totp_secret_dto" where
  "totp_to_dto t = \<lparr>td_issuer = ts_issuer t, td_account_name = ts_account_name t,
      td_secret_b32 = ts_secret_b32 t, td_digits = ts_digits t,
      td_period_secs = ts_period_secs t, td_algorithm = ts_algorithm t\<rparr>"

definition totp_from_dto :: "totp_secret_dto \<Rightarrow> totp_secret" where
  "totp_from_dto d = \<lparr>ts_issuer = td_issuer d, ts_account_name = td_account_name d,
      ts_secret_b32 = td_secret_b32 d, ts_digits = td_digits d,
      ts_period_secs = td_period_secs d, ts_algorithm = td_algorithm d\<rparr>"

definition secret_to_dto :: "entry_secret \<Rightarrow> entry_secret_dto" where
  "secret_to_dto s = \<lparr>sd_title = es_title s, sd_note = es_note s, sd_username = es_username s,
      sd_secret = es_secret s, sd_extra = es_extra s, sd_totp = map_option totp_to_dto (es_totp s)\<rparr>"

definition secret_from_dto :: "entry_secret_dto \<Rightarrow> entry_secret" where
  "secret_from_dto d = \<lparr>es_title = sd_title d, es_note = sd_note d, es_username = sd_username d,
      es_secret = sd_secret d, es_extra = sd_extra d, es_totp = map_option totp_from_dto (sd_totp d)\<rparr>"

definition entry_to_dto :: "vault_entry \<Rightarrow> vault_entry_dto" where
  "entry_to_dto e = \<lparr>vd_meta = ve_meta e, vd_secret = secret_to_dto (ve_secret e)\<rparr>"

text \<open>\<open>Deserialize for VaultEntry\<close>, after the DTO has been read: \<open>None\<close> is the serde error.\<close>
definition entry_from_dto :: "vault_entry_dto \<Rightarrow> vault_entry option" where
  "entry_from_dto d =
    (let e = \<lparr>ve_meta = vd_meta d, ve_secret = secret_from_dto (vd_secret d)\<rparr>
     in if is_ok (validate_invariants e) then Some e else None)"

section \<open>Lemmas: validators\<close>

text \<open>The strings the interface may show: no control, bidirectional or zero-width character.\<close>
definition displayable :: "rchar \<Rightarrow> bool" where
  "displayable c \<longleftrightarrow> \<not> is_control c \<and> \<not> is_bidi_control c \<and> \<not> is_zero_width c"

definition safe_text :: "nat \<Rightarrow> rstring \<Rightarrow> bool" where
  "safe_text max_len s \<longleftrightarrow> s \<noteq> [] \<and> str_len s \<le> max_len \<and> list_all displayable s"

lemma validate_required_bounded_ok [simp]:
  "is_ok (validate_required_bounded s n) \<longleftrightarrow> s \<noteq> [] \<and> str_len s \<le> n"
  by (simp add: validate_required_bounded_def)

lemma reject_controls_ok [simp]:
  "is_ok (reject_controls_and_bidi s) \<longleftrightarrow> list_all displayable s"
  by (auto simp: reject_controls_and_bidi_def list_ex_iff list_all_iff displayable_def)

lemma is_ok_rbind [simp]: "is_ok (rbind x (\<lambda>_. k)) \<longleftrightarrow> is_ok x \<and> is_ok k"
  by (cases x) auto

lemma validate_title_ok [simp]: "is_ok (validate_title s) \<longleftrightarrow> safe_text MAX_TITLE_LEN s"
  and validate_note_ok [simp]: "is_ok (validate_note s) \<longleftrightarrow> safe_text MAX_NOTE_LEN s"
  and validate_username_ok [simp]: "is_ok (validate_username s) \<longleftrightarrow> safe_text MAX_USERNAME_LEN s"
  and validate_password_ok [simp]:
    "is_ok (validate_password s) \<longleftrightarrow> s \<noteq> [] \<and> str_len s \<le> MAX_PASSWORD_LEN"
  by (auto simp: validate_title_def validate_note_def validate_username_def validate_password_def
      safe_text_def)

lemma validate_opt_ok [simp]:
  "is_ok (validate_opt v x) \<longleftrightarrow> (case x of None \<Rightarrow> True | Some s \<Rightarrow> is_ok (v s))"
  by (cases x) auto

definition totp_params_ok :: "totp_secret \<Rightarrow> bool" where
  "totp_params_ok t \<longleftrightarrow> ts_digits t \<in> {6, 7, 8} \<and> 10 \<le> ts_period_secs t \<and> ts_period_secs t \<le> 120 \<and>
     ts_secret_b32 t \<noteq> [] \<and> length (ts_secret_b32 t) \<le> 1024 \<and> list_all is_b32_char (ts_secret_b32 t)"

lemma b32_is_ascii: "list_all is_b32_char s \<Longrightarrow> is_ascii s"
  by (auto simp: list_all_iff is_ascii_def is_ascii_char_def is_b32_char_def)

lemma totp_secret_validate_ok [simp]: "is_ok (totp_secret_validate t) \<longleftrightarrow> totp_params_ok t"
  using str_len_ascii [of "ts_secret_b32 t"] b32_is_ascii [of "ts_secret_b32 t"]
  by (auto simp: totp_secret_validate_def totp_params_ok_def Let_def not_less)

lemma entry_ok_iff:
  "entry_ok e \<longleftrightarrow>
    (if entry_type_of e = Totp
     then (\<exists>t. es_totp (ve_secret e) = Some t \<and> totp_params_ok t)
     else es_totp (ve_secret e) = None)"
  by (auto simp: validate_invariants_def split: entry_type.splits option.splits)

section \<open>Lemmas: updates\<close>

lemma with_secret_sel [simp]:
  "ve_meta (with_secret e f) = ve_meta e" "ve_secret (with_secret e f) = f (ve_secret e)"
  by (simp_all add: with_secret_def)

definition keeps :: "('s \<Rightarrow> bool) \<Rightarrow> ('s \<Rightarrow> ('s, 'e, 'a) mut_result) \<Rightarrow> bool" where
  "keeps P f \<longleftrightarrow> (\<forall>s. P s \<longrightarrow> P (fst (f s)))"

lemma keepsD: "keeps P f \<Longrightarrow> P s \<Longrightarrow> P (fst (f s))"
  by (simp add: keeps_def)

lemma keeps_then: "keeps P f \<Longrightarrow> keeps P k \<Longrightarrow> keeps P (\<lambda>s. mut_then (f s) k)"
proof (unfold keeps_def, intro allI impI)
  fix s assume h: "\<forall>s. P s \<longrightarrow> P (fst (f s))" "\<forall>s. P s \<longrightarrow> P (fst (k s))" "P s"
  then show "P (fst (mut_then (f s) k))"
    by (cases "f s"; cases "snd (f s)") (use h in \<open>force+\<close>)
qed

lemma keeps_opt_step: "(\<And>x. keeps P (f x)) \<Longrightarrow> keeps P (opt_step o' f)"
  by (cases o') (auto simp: keeps_def)

lemma fst_finish [simp]: "fst (finish_update e) = e"
  by (simp add: finish_update_def)

lemma keeps_finish: "keeps P finish_update"
  by (simp add: keeps_def)

text \<open>A property of the entry that every arm keeps is kept by \<open>apply_update\<close>, whatever it returns.\<close>

lemma apply_update_keeps:
  assumes arms: "\<And>x. keeps P (apply_set_title x)" "\<And>x. keeps P (apply_set_note x)"
    "\<And>x. keeps P (apply_set_username x)" "\<And>x. keeps P (apply_set_secret x)"
    "\<And>x. keeps P (apply_set_extra x)" "\<And>x. keeps P (apply_set_totp x)"
  shows "keeps P (\<lambda>e. apply_update e u)"
  by (cases u; simp only: apply_update.simps)
     (intro keeps_then keeps_opt_step keeps_finish arms)+

lemmas update_arm_defs =
  apply_set_title_def apply_set_note_def apply_set_username_def apply_set_secret_def
  apply_set_extra_def apply_set_totp_def

lemma fst_mut_try: "fst (mut_try s r k) = (if is_ok r then fst k else s)"
  by (cases r) auto

lemma apply_update_meta: "ve_meta (fst (apply_update e u)) = ve_meta e"
  by (rule apply_update_keeps [where P = "\<lambda>x. ve_meta x = ve_meta e", THEN keepsD])
     (auto simp: keeps_def update_arm_defs fst_mut_try Let_def split: option.splits)

definition text_ok :: "vault_entry \<Rightarrow> bool" where
  "text_ok e \<longleftrightarrow> safe_text MAX_TITLE_LEN (es_title (ve_secret e)) \<and>
     (\<forall>n. es_note (ve_secret e) = Some n \<longrightarrow> safe_text MAX_NOTE_LEN n) \<and>
     (\<forall>u. es_username (ve_secret e) = Some u \<longrightarrow> safe_text MAX_USERNAME_LEN u)"

lemma apply_update_text_ok: "text_ok e \<Longrightarrow> text_ok (fst (apply_update e u))"
  by (erule apply_update_keeps [where P = text_ok, THEN keepsD, rotated -1])
     (auto simp: keeps_def update_arm_defs fst_mut_try Let_def text_ok_def split: option.splits)

text \<open>The primary secret of a TOTP entry mirrors the secret of its TOTP block.\<close>
definition mirrored :: "vault_entry \<Rightarrow> bool" where
  "mirrored e \<longleftrightarrow>
     (\<forall>t. es_totp (ve_secret e) = Some t \<longrightarrow> es_secret (ve_secret e) = ts_secret_b32 t)"

lemma finish_update_ok [simp]: "finish_update e = (e', Inr v) \<longleftrightarrow> e' = e \<and> entry_ok e"
  by (cases "validate_invariants e") (auto simp: finish_update_def)

lemma apply_update_ends:
  assumes "apply_update e u = (e', Inr v)"
  shows "entry_ok e'"
  using assms by (cases u) (auto simp: mut_then_ok)

lemma apply_update_ok_entry: "is_ok (snd (apply_update e u)) \<Longrightarrow> entry_ok (fst (apply_update e u))"
  using apply_update_ends [of e u] by (cases "apply_update e u") (auto simp only: is_ok_iff snd_conv fst_conv)

text \<open>A property each arm keeps when it succeeds is kept when \<open>apply_update\<close> succeeds.\<close>

lemma opt_step_ok: "opt_step o' f e = (e', Inr ()) \<Longrightarrow> P e \<Longrightarrow>
    (\<And>x. f x e = (e', Inr ()) \<Longrightarrow> P e') \<Longrightarrow> P e'"
  by (cases o') auto

lemma apply_update_ok_keeps:
  assumes arms: "\<And>e x e'. P e \<Longrightarrow> apply_set_title x e = (e', Inr ()) \<Longrightarrow> P e'"
    "\<And>e x e'. P e \<Longrightarrow> apply_set_note x e = (e', Inr ()) \<Longrightarrow> P e'"
    "\<And>e x e'. P e \<Longrightarrow> apply_set_username x e = (e', Inr ()) \<Longrightarrow> P e'"
    "\<And>e x e'. P e \<Longrightarrow> apply_set_secret x e = (e', Inr ()) \<Longrightarrow> P e'"
    "\<And>e x e'. P e \<Longrightarrow> apply_set_extra x e = (e', Inr ()) \<Longrightarrow> P e'"
    "\<And>e x e'. P e \<Longrightarrow> apply_set_totp x e = (e', Inr ()) \<Longrightarrow> P e'"
    and ok: "apply_update e u = (e', Inr ())" and "P e"
  shows "P e'"
proof (cases u)
  case (Replace ti no us se ex to)
  from ok [unfolded Replace] obtain e1 e2 e3 e4 e5 where
    s1: "opt_step ti apply_set_title e = (e1, Inr ())" and
    s2: "opt_step no apply_set_note e1 = (e2, Inr ())" and
    s3: "opt_step us apply_set_username e2 = (e3, Inr ())" and
    s4: "opt_step se (\<lambda>s x. mut_then (apply_set_secret s x) finish_update) e3 = (e4, Inr ())" and
    s5: "opt_step ex apply_set_extra e4 = (e5, Inr ())" and
    s6: "opt_step to (\<lambda>t x. mut_then (apply_set_totp t x) finish_update) e5 = (e', Inr ())"
    by (auto simp: mut_then_ok)
  have "P e1" using s1 \<open>P e\<close> by (rule opt_step_ok) (rule arms(1) [OF \<open>P e\<close>])
  then have "P e2" using s2 arms(2) by (cases no) auto
  then have "P e3" using s3 arms(3) by (cases us) auto
  then have "P e4" using s4 arms(4) by (cases se) (auto simp: mut_then_ok)
  then have "P e5" using s5 arms(5) by (cases ex) auto
  then show ?thesis using s6 arms(6) by (cases to) (auto simp: mut_then_ok)
qed (use ok \<open>P e\<close> in \<open>auto simp: mut_then_ok intro: arms\<close>)

definition well_kept :: "vault_entry \<Rightarrow> bool" where
  "well_kept e \<longleftrightarrow> mirrored e \<and> (entry_type_of e \<noteq> Totp \<longrightarrow> es_totp (ve_secret e) = None)"

lemma apply_update_well_kept:
  "apply_update e u = (e', Inr ()) \<Longrightarrow> well_kept e \<Longrightarrow> well_kept e'"
  by (rule apply_update_ok_keeps [where P = well_kept])
     (auto simp: update_arm_defs mut_try_ok Let_def mirrored_def well_kept_def
       split: option.splits if_splits)

lemma well_kept_iff: "entry_ok e \<Longrightarrow> well_kept e \<longleftrightarrow> mirrored e"
  by (auto simp: well_kept_def entry_ok_iff)

lemma validate_invariants_with_secret [simp]:
  "es_totp (f (ve_secret e)) = es_totp (ve_secret e) \<Longrightarrow>
     validate_invariants (with_secret e f) = validate_invariants e"
  by (simp add: validate_invariants_def split: entry_type.splits)

text \<open>The updates that write before they have validated everything.\<close>
fun writes_before_check :: "vault_entry \<Rightarrow> entry_update \<Rightarrow> bool" where
  "writes_before_check e (SetSecret s) \<longleftrightarrow> entry_type_of e = Totp"
| "writes_before_check e (SetTotp t) \<longleftrightarrow> t = None"
| "writes_before_check e (Replace _ _ _ _ _ _) \<longleftrightarrow> True"
| "writes_before_check e _ \<longleftrightarrow> False"

lemma mut_then_err: "mut_then p k = (s', Inl x) \<longleftrightarrow>
    p = (s', Inl x) \<or> (\<exists>s a. p = (s, Inr a) \<and> k s = (s', Inl x))"
  by (cases p; cases "snd p") auto

lemma mut_try_err: "mut_try s r k = (s', Inl x) \<longleftrightarrow> (s' = s \<and> r = Inl x) \<or> (is_ok r \<and> k = (s', Inl x))"
  by (cases r) auto

lemma finish_update_err: "finish_update e = (e', Inl x) \<Longrightarrow> e' = e \<and> \<not> entry_ok e"
  by (auto simp: finish_update_def)

lemma failed_update_no_effect:
  assumes "entry_ok e" and "\<not> writes_before_check e u" and "apply_update e u = (e', Inl x)"
  shows "e' = e"
proof (cases u)
  case (SetTotp t)
  then obtain tsec where t: "t = Some tsec" using assms(2) by (cases t) auto
  show ?thesis
  proof (cases "e' = e")
    case False
    with assms(3) have "entry_type_of e = Totp" "totp_params_ok tsec" and
      "finish_update (with_secret (with_secret e (es_secret_update (\<lambda>_. ts_secret_b32 tsec)))
         (es_totp_update (\<lambda>_. Some tsec))) = (e', Inl x)"
      by (auto simp: SetTotp t apply_set_totp_def mut_then_err mut_try_err mut_try_ok split: if_splits)
    then show ?thesis by (auto dest!: finish_update_err simp: entry_ok_iff)
  qed
qed (use assms in \<open>auto simp: mut_then_err update_arm_defs mut_try_err mut_try_ok
       dest!: finish_update_err split: if_splits\<close>)

section \<open>Lemmas: constructors and the DTO boundary\<close>

lemma entry_ok_newI:
  "ty \<noteq> Totp \<Longrightarrow> entry_ok \<lparr>ve_meta = \<lparr>em_id = i, em_entry_type = ty\<rparr>,
     ve_secret = \<lparr>es_title = a, es_note = b, es_username = c, es_secret = d, es_extra = f, es_totp = None\<rparr>\<rparr>"
  by (simp add: entry_ok_iff)

lemma totp_dto_roundtrip [simp]:
  "totp_from_dto (totp_to_dto t) = t" "totp_to_dto (totp_from_dto d) = d"
  by (simp_all add: totp_to_dto_def totp_from_dto_def)

lemma secret_dto_roundtrip [simp]:
  "secret_from_dto (secret_to_dto x) = x" "secret_to_dto (secret_from_dto d) = d"
  by (simp_all add: secret_to_dto_def secret_from_dto_def option.map_comp comp_def option.map_ident)

lemma entry_eta [simp]: "\<lparr>ve_meta = ve_meta e, ve_secret = ve_secret e\<rparr> = e"
  by (cases e) simp

lemma entry_from_to_dto:
  "entry_from_dto (entry_to_dto e) = (if entry_ok e then Some e else None)"
  by (simp add: entry_from_dto_def entry_to_dto_def Let_def)

lemma entry_from_dto_Some:
  "entry_from_dto d = Some e \<Longrightarrow> entry_ok e \<and> entry_to_dto e = d"
  by (auto simp: entry_from_dto_def entry_to_dto_def Let_def split: if_splits)

section \<open>Properties\<close>

text \<open>The constructors accept exactly the displayable, bounded texts (and, for TOTP, parameters in
  range), and what they build carries the given identifier and type and satisfies its type
  invariant, the text bounds and the mirroring of the TOTP secret.\<close>

lemma constructors_exact:
  "(is_ok (new_password i title username pw note) \<longleftrightarrow>
      safe_text MAX_TITLE_LEN title \<and> (\<forall>n. note = Some n \<longrightarrow> safe_text MAX_NOTE_LEN n) \<and>
      (\<forall>u. username = Some u \<longrightarrow> safe_text MAX_USERNAME_LEN u) \<and> pw \<noteq> [] \<and> str_len pw \<le> MAX_PASSWORD_LEN) \<and>
   (is_ok (new_secure_note i title n) \<longleftrightarrow> safe_text MAX_TITLE_LEN title \<and> safe_text MAX_NOTE_LEN n) \<and>
   (is_ok (new_totp i title t note) \<longleftrightarrow>
      safe_text MAX_TITLE_LEN title \<and> (\<forall>n. note = Some n \<longrightarrow> safe_text MAX_NOTE_LEN n) \<and> totp_params_ok t) \<and>
   (\<forall>e. new_password i title username pw note = Inr e \<or> new_secure_note i title n = Inr e \<or>
        new_totp i title t note = Inr e \<longrightarrow>
      entry_id e = i \<and> entry_ok e \<and> text_ok e \<and> well_kept e)"
proof (intro conjI allI impI, goal_cases)
  case 1
  show ?case by (auto simp: new_password_def Let_def entry_ok_newI split: option.splits)
next
  case 2
  show ?case by (auto simp: new_secure_note_def Let_def entry_ok_newI)
next
  case 3
  show ?case by (auto simp: new_totp_def Let_def entry_ok_iff split: option.splits)
next
  case (4 e)
  then have "entry_id e = i \<and> entry_ok e \<and> text_ok e \<and> mirrored e"
    by (elim disjE)
      (auto simp: new_password_def new_secure_note_def new_totp_def Let_def unit_result text_ok_def
        mirrored_def split: option.splits)
  then show "entry_id e = i" and "entry_ok e" and "text_ok e" and "well_kept e"
    by (auto simp: well_kept_iff)
qed

text \<open>Every granular update keeps identity and type and never stores text the interface may not
  show, whether it succeeds or fails; a successful one, the composed \<open>Replace\<close> included, leaves an
  entry that satisfies its type invariant and whose TOTP secret is still mirrored.\<close>

lemma update_preserves_entry:
  assumes "text_ok e" and "apply_update e u = (e', r)"
  shows "ve_meta e' = ve_meta e \<and> text_ok e' \<and>
    (is_ok r \<longrightarrow> entry_ok e' \<and> (well_kept e \<longrightarrow> well_kept e' \<and> mirrored e'))"
proof (intro conjI impI)
  show "ve_meta e' = ve_meta e" using apply_update_meta [of e u] assms(2) by simp
  show "text_ok e'" using apply_update_text_ok [OF assms(1), of u] assms(2) by simp
  assume "is_ok r"
  then have r: "apply_update e u = (e', Inr ())" using assms(2) is_ok_unitD by blast
  then show "entry_ok e'" by (rule apply_update_ends)
  assume "well_kept e"
  with r show "well_kept e'" by (rule apply_update_well_kept)
  then show "mirrored e'" by (simp add: well_kept_def)
qed

definition sample_note :: vault_entry where
  "sample_note = \<lparr>ve_meta = \<lparr>em_id = 1, em_entry_type = SecureNote\<rparr>,
     ve_secret = \<lparr>es_title = lit ''a'', es_note = None, es_username = None, es_secret = [],
       es_extra = None, es_totp = None\<rparr>\<rparr>"

lemma sample_note_ok: "entry_ok sample_note" "text_ok sample_note" "well_kept sample_note"
  by (simp_all add: sample_note_def entry_ok_iff text_ok_def safe_text_def lit_def MAX_TITLE_LEN_def
      displayable_def is_control_def is_bidi_control_def is_zero_width_def char_len_def well_kept_def
      mirrored_def)

text \<open>Entries cross the serialisation boundary unchanged exactly when they satisfy their type
  invariant: a valid entry is read back as it was written, an invalid one is refused on reading,
  and nothing invalid is ever read.\<close>

lemma entry_serialisation_exact:
  "entry_from_dto (entry_to_dto e) = (if entry_ok e then Some e else None) \<and>
   (entry_from_dto d = Some e \<longleftrightarrow> entry_ok e \<and> d = entry_to_dto e)"
  using entry_from_dto_Some [of d e] entry_from_to_dto [of e] by auto

end
