(* ===== verification/Crypto.thy ===== *)
theory Crypto
  imports Rust_String
begin

text \<open>
  \<open>crypto/kdf.rs\<close>, \<open>crypto/aead.rs\<close> and \<open>memory/secret.rs\<close>. The primitives come from
  the crates \<open>argon2\<close> and \<open>chacha20poly1305\<close>: they are the fields of a record that
  every definition using them takes as an argument, and what the theorems need of
  them are named predicates on that record.
\<close>

section \<open>Secret wrappers (memory/secret.rs)\<close>

text \<open>The wrappers only decide when memory is wiped; their values are the wrapped ones.\<close>

type_synonym master_password = rstring
type_synonym key_material = bytes
type_synonym secret_bytes = bytes

section \<open>The crates behind the crypto layer\<close>

record crypto_lib =
  \<comment> \<open>\<open>argon2::Params::new\<close> accepts the parameters\<close>
  argon2_params_new :: "u32 \<Rightarrow> u32 \<Rightarrow> u32 \<Rightarrow> bool"
  \<comment> \<open>\<open>Argon2::hash_password_into\<close> a 32-byte buffer: password, salt, parameters\<close>
  argon2id_hash :: "bytes \<Rightarrow> bytes \<Rightarrow> u32 \<Rightarrow> u32 \<Rightarrow> u32 \<Rightarrow> bytes option"
  \<comment> \<open>XChaCha20-Poly1305: key, nonce, message, associated data\<close>
  xchacha_encrypt :: "bytes \<Rightarrow> bytes \<Rightarrow> bytes \<Rightarrow> bytes \<Rightarrow> bytes option"
  xchacha_decrypt :: "bytes \<Rightarrow> bytes \<Rightarrow> bytes \<Rightarrow> bytes \<Rightarrow> bytes option"

section \<open>Key derivation (crypto/kdf.rs)\<close>

datatype kdf_error = KdfInvalidParams | Argon2Failure | KdfSysRng

definition SALT_LEN :: nat where "SALT_LEN = 32"
definition XCHACHA20_NONCE_LEN :: nat where "XCHACHA20_NONCE_LEN = 24"

definition DEFAULT_ARGON2ID_MEM_KIB :: u32 where "DEFAULT_ARGON2ID_MEM_KIB = 64 * 1024"
definition DEFAULT_ARGON2ID_TIME_COST :: u32 where "DEFAULT_ARGON2ID_TIME_COST = 3"
definition DEFAULT_ARGON2ID_LANES :: u32 where "DEFAULT_ARGON2ID_LANES = 1"
definition MAX_ARGON2ID_MEM_KIB :: u32 where "MAX_ARGON2ID_MEM_KIB = 512 * 1024"
definition MAX_ARGON2ID_TIME_COST :: u32 where "MAX_ARGON2ID_TIME_COST = 5"

definition generate_vault_salt :: "rng \<Rightarrow> nat \<Rightarrow> kdf_error + bytes" where
  "generate_vault_salt rnd i = ok_or KdfSysRng (rnd i SALT_LEN)"

definition validate_argon2id_params :: "u32 \<Rightarrow> u32 \<Rightarrow> u32 \<Rightarrow> kdf_error + unit" where
  "validate_argon2id_params mem_kib time_cost lanes =
    (if \<not> (DEFAULT_ARGON2ID_MEM_KIB \<le> mem_kib \<and> mem_kib \<le> MAX_ARGON2ID_MEM_KIB)
       \<or> \<not> (DEFAULT_ARGON2ID_TIME_COST \<le> time_cost \<and> time_cost \<le> MAX_ARGON2ID_TIME_COST)
       \<or> lanes \<noteq> DEFAULT_ARGON2ID_LANES
     then Inl KdfInvalidParams else Inr ())"

definition derive_master_key_from_password ::
    "crypto_lib \<Rightarrow> master_password \<Rightarrow> bytes \<Rightarrow> u32 \<Rightarrow> u32 \<Rightarrow> u32 \<Rightarrow> kdf_error + key_material" where
  "derive_master_key_from_password C password salt mem_kib time_cost lanes =
    rbind (validate_argon2id_params mem_kib time_cost lanes) (\<lambda>_.
      guard (\<not> argon2_params_new C mem_kib time_cost lanes) KdfInvalidParams
        (ok_or Argon2Failure (argon2id_hash C (as_bytes password) salt mem_kib time_cost lanes)))"

section \<open>Authenticated encryption (crypto/aead.rs)\<close>

datatype aead_error = AeadSysRng | Encrypt | Decrypt

definition generate_xchacha20_nonce :: "rng \<Rightarrow> nat \<Rightarrow> aead_error + bytes" where
  "generate_xchacha20_nonce rnd i = ok_or AeadSysRng (rnd i XCHACHA20_NONCE_LEN)"

definition encrypt_xchacha20poly1305 ::
    "crypto_lib \<Rightarrow> key_material \<Rightarrow> bytes \<Rightarrow> bytes \<Rightarrow> bytes \<Rightarrow> aead_error + bytes" where
  "encrypt_xchacha20poly1305 C key nonce plaintext aad =
    ok_or Encrypt (xchacha_encrypt C key nonce plaintext aad)"

definition decrypt_xchacha20poly1305 ::
    "crypto_lib \<Rightarrow> key_material \<Rightarrow> bytes \<Rightarrow> bytes \<Rightarrow> bytes \<Rightarrow> aead_error + secret_bytes" where
  "decrypt_xchacha20poly1305 C key nonce ciphertext aad =
    ok_or Decrypt (xchacha_decrypt C key nonce ciphertext aad)"

section \<open>What the theorems ask of the crates\<close>

text \<open>Decryption under the same key, nonce and associated data undoes encryption.\<close>
definition aead_correct :: "crypto_lib \<Rightarrow> bool" where
  "aead_correct C \<longleftrightarrow> (\<forall>k n p a c. xchacha_encrypt C k n p a = Some c \<longrightarrow> xchacha_decrypt C k n c a = Some p)"

lemma aead_correctD:
  "aead_correct C \<Longrightarrow> xchacha_encrypt C k n p a = Some c \<Longrightarrow> xchacha_decrypt C k n c a = Some p"
  by (simp add: aead_correct_def)

text \<open>The parameters the key derivation accepts.\<close>
definition argon2id_params_ok :: "u32 \<Rightarrow> u32 \<Rightarrow> u32 \<Rightarrow> bool" where
  "argon2id_params_ok m t l \<longleftrightarrow> 65536 \<le> m \<and> m \<le> 524288 \<and> 3 \<le> t \<and> t \<le> 5 \<and> l = 1"

lemma validate_argon2id_params_ok [simp]:
  "is_ok (validate_argon2id_params m t l) \<longleftrightarrow> argon2id_params_ok m t l"
  by (auto simp: validate_argon2id_params_def argon2id_params_ok_def DEFAULT_ARGON2ID_MEM_KIB_def
      MAX_ARGON2ID_MEM_KIB_def DEFAULT_ARGON2ID_TIME_COST_def MAX_ARGON2ID_TIME_COST_def
      DEFAULT_ARGON2ID_LANES_def)

lemma derive_master_key_ok:
  "derive_master_key_from_password C pw salt m t l = Inr k \<longleftrightarrow>
     argon2id_params_ok m t l \<and> argon2_params_new C m t l \<and>
     argon2id_hash C (as_bytes pw) salt m t l = Some k"
  by (auto simp: derive_master_key_from_password_def is_ok_iff
      simp flip: validate_argon2id_params_ok)

text \<open>A concrete instance of the crates, for the witnesses: a transparent cipher whose tag is its inputs.\<close>

definition toy_cipher :: crypto_lib where
  "toy_cipher =
    \<lparr>argon2_params_new = (\<lambda>m t l. True),
     argon2id_hash = (\<lambda>pw salt m t l. Some (pw @ salt)),
     xchacha_encrypt = (\<lambda>k n p a. Some (to_le 8 (length k) @ to_le 8 (length n) @ to_le 8 (length a) @ k @ n @ a @ p)),
     xchacha_decrypt = (\<lambda>k n c a.
       let tag = to_le 8 (length k) @ to_le 8 (length n) @ to_le 8 (length a) @ k @ n @ a
       in if take (length tag) c = tag then Some (drop (length tag) c) else None)\<rparr>"

lemma toy_cipher_correct: "aead_correct toy_cipher"
  by (simp add: aead_correct_def toy_cipher_def Let_def)

end
