(* ===== verification/Vault_Codec.thy ===== *)
theory Vault_Codec
  imports Entries Crypto
begin

text \<open>
  \<open>vault/types.rs\<close>, \<open>vault/error.rs\<close>, \<open>vault/mod.rs\<close> and \<open>vault/codec.rs\<close>: the vault
  data model, the JSON boundary and the binary container
  \<open>magic, version, mode, header length, header, payload length, payload\<close>.
\<close>

section \<open>Types (vault/types.rs, vault/error.rs)\<close>

datatype storage_mode = Encrypted | PlaintextJson

text \<open>\<open>mode as u8\<close>: the discriminants of the \<open>repr(u8)\<close> enum.\<close>
definition storage_mode_u8 :: "storage_mode \<Rightarrow> u8" where
  "storage_mode_u8 m = (case m of Encrypted \<Rightarrow> 1 | PlaintextJson \<Rightarrow> 2)"

datatype kdf_params = Argon2id u32 u32 u32

datatype aead_suite = XChaCha20Poly1305

record crypto_header =
  ch_kdf :: kdf_params
  ch_aead :: aead_suite
  ch_salt :: bytes
  ch_nonce :: bytes

record dual_vault_header =
  dh_primary :: crypto_header
  dh_decoy :: crypto_header

record dual_ciphertext_envelope =
  env_primary_ct :: bytes
  env_decoy_ct :: bytes

record vault_header =
  vh_schema_version :: u16
  vh_vault_id :: uuid
  vh_crypto :: crypto_header
  vh_duress :: "dual_vault_header option"

datatype vault_storage = SEncrypted bytes | SPlaintextJson bytes

record vault_file =
  vf_header :: vault_header
  vf_storage :: vault_storage

record parsed_vault_file =
  pv_format_version :: u16
  pv_header :: vault_header
  pv_header_bytes :: bytes
  pv_mode :: storage_mode
  pv_payload :: bytes

record vault_payload =
  vp_entries :: "vault_entry list"

datatype vault_parse_error =
  InvalidMagic | UnsupportedVersion | PlaintextNotAllowed | UnsupportedStorageMode
| HeaderTooLarge | PayloadTooLarge | CiphertextTooLarge | TrailingBytes | InvalidHeader
| InvalidPayload | AuthFailed | Io | Serialize | Deserialize

section \<open>The JSON boundary\<close>

text \<open>
  \<open>serde_json\<close> with the derived (de)serialisers of the plain data: a payload crosses it
  as the list of its entries' DTOs, and the hand-written \<open>Deserialize\<close> of an entry,
  which checks the invariants, is applied to each DTO that was read.
\<close>

record json_lib =
  json_of_payload :: "vault_entry_dto list \<Rightarrow> bytes option"
  json_to_payload :: "bytes \<Rightarrow> vault_entry_dto list option"
  json_of_header :: "vault_header \<Rightarrow> bytes option"
  json_to_header :: "bytes \<Rightarrow> vault_header option"
  json_of_envelope :: "dual_ciphertext_envelope \<Rightarrow> bytes option"
  json_to_envelope :: "bytes \<Rightarrow> dual_ciphertext_envelope option"

text \<open>What is written is read back: one predicate per value that crosses the boundary.\<close>

definition payload_json_ok :: "json_lib \<Rightarrow> vault_entry_dto list \<Rightarrow> bool" where
  "payload_json_ok J ds \<longleftrightarrow> (\<exists>bs. json_of_payload J ds = Some bs \<and> json_to_payload J bs = Some ds)"

definition header_json_ok :: "json_lib \<Rightarrow> vault_header \<Rightarrow> bool" where
  "header_json_ok J h \<longleftrightarrow> (\<exists>bs. json_of_header J h = Some bs \<and> json_to_header J bs = Some h)"

definition envelope_json_ok :: "json_lib \<Rightarrow> dual_ciphertext_envelope \<Rightarrow> bool" where
  "envelope_json_ok J v \<longleftrightarrow> (\<exists>bs. json_of_envelope J v = Some bs \<and> json_to_envelope J bs = Some v)"

text \<open>\<open>serde_json::to_vec\<close> and \<open>from_slice\<close> at the type \<open>VaultPayload\<close>.\<close>

definition payload_to_vec :: "json_lib \<Rightarrow> vault_payload \<Rightarrow> bytes option" where
  "payload_to_vec J p = json_of_payload J (map entry_to_dto (vp_entries p))"

fun entries_from_dtos :: "vault_entry_dto list \<Rightarrow> vault_entry list option" where
  "entries_from_dtos [] = Some []"
| "entries_from_dtos (d # ds) =
    (case entry_from_dto d of
       None \<Rightarrow> None
     | Some e \<Rightarrow> map_option ((#) e) (entries_from_dtos ds))"

definition payload_from_slice :: "json_lib \<Rightarrow> bytes \<Rightarrow> vault_payload option" where
  "payload_from_slice J bs =
    (case json_to_payload J bs of
       None \<Rightarrow> None
     | Some ds \<Rightarrow> map_option (\<lambda>es. \<lparr>vp_entries = es\<rparr>) (entries_from_dtos ds))"

section \<open>The container codec (vault/codec.rs, vault/mod.rs)\<close>

definition MAGIC :: bytes where "MAGIC = [86, 76, 84, 49]"
definition MAX_HEADER_LEN :: u32 where "MAX_HEADER_LEN = 4096"
definition MAX_VAULT_CONTAINER_PAYLOAD_LEN :: u64 where
  "MAX_VAULT_CONTAINER_PAYLOAD_LEN = 16 * 1024 * 1024"

definition serialize_header_json :: "json_lib \<Rightarrow> vault_header \<Rightarrow> vault_parse_error + bytes" where
  "serialize_header_json J h = ok_or Serialize (json_of_header J h)"

definition deserialize_header_json :: "json_lib \<Rightarrow> bytes \<Rightarrow> vault_parse_error + vault_header" where
  "deserialize_header_json J bs = ok_or Deserialize (json_to_header J bs)"

fun is_plaintext_storage :: "vault_storage \<Rightarrow> bool" where
  "is_plaintext_storage (SPlaintextJson _) = True"
| "is_plaintext_storage (SEncrypted _) = False"

fun storage_parts :: "vault_storage \<Rightarrow> storage_mode \<times> bytes" where
  "storage_parts (SEncrypted ciphertext) = (Encrypted, ciphertext)"
| "storage_parts (SPlaintextJson json) = (PlaintextJson, json)"

text \<open>The probe of the runtime state that the policy helper makes is the argument \<open>probe\<close>.\<close>

definition encode_vault_storage ::
    "json_lib \<Rightarrow> runtime_inspection_state \<Rightarrow> vault_header \<Rightarrow> vault_storage \<Rightarrow> u16
      \<Rightarrow> vault_parse_error + bytes" where
  "encode_vault_storage J probe header storage format_version =
    guard (format_version = 0) UnsupportedVersion
    (guard (vh_duress header \<noteq> None \<and> is_plaintext_storage storage) PlaintextNotAllowed
    (guard (is_plaintext_storage storage \<and> \<not> allow_plaintext_export_under_runtime_policy probe)
       PlaintextNotAllowed
    (let (mode, payload_bytes) = storage_parts storage in
     rbind (serialize_header_json J header) (\<lambda>header_bytes.
       guard ((of_nat (length header_bytes) :: u32) > MAX_HEADER_LEN) HeaderTooLarge
       (Inr (MAGIC @ to_le 2 (unat format_version) @ [storage_mode_u8 mode] @
             to_le 4 (unat (of_nat (length header_bytes) :: u32)) @ header_bytes @
             to_le 8 (unat (u64_of_len (length payload_bytes))) @ payload_bytes))))))"

text \<open>
  Reading from an in-memory reader: the state is what is left of the input, and a read
  past its end is the I/O error of \<open>read_exact\<close>.
\<close>

definition read_exact :: "nat \<Rightarrow> bytes \<Rightarrow> vault_parse_error + bytes \<times> bytes" where
  "read_exact n input =
    (if n \<le> length input then Inr (take n input, drop n input) else Inl Io)"

definition read_u16_le :: "bytes \<Rightarrow> vault_parse_error + u16 \<times> bytes" where
  "read_u16_le r = rbind (read_exact 2 r) (\<lambda>(buf, r'). Inr (of_nat (of_le buf), r'))"

definition read_u32_le :: "bytes \<Rightarrow> vault_parse_error + u32 \<times> bytes" where
  "read_u32_le r = rbind (read_exact 4 r) (\<lambda>(buf, r'). Inr (of_nat (of_le buf), r'))"

definition read_u64_le :: "bytes \<Rightarrow> vault_parse_error + u64 \<times> bytes" where
  "read_u64_le r = rbind (read_exact 8 r) (\<lambda>(buf, r'). Inr (of_nat (of_le buf), r'))"

definition read_u8 :: "bytes \<Rightarrow> vault_parse_error + u8 \<times> bytes" where
  "read_u8 r = rbind (read_exact 1 r) (\<lambda>(buf, r'). Inr (hd buf, r'))"

definition decode_storage_mode ::
    "runtime_inspection_state \<Rightarrow> bool \<Rightarrow> u8 \<Rightarrow> vault_parse_error + storage_mode" where
  "decode_storage_mode probe allow_plaintext raw =
    (if raw = 1 then Inr Encrypted
     else if raw = 2 then
       (if \<not> allow_plaintext \<or> \<not> allow_plaintext_export_under_runtime_policy probe
        then Inl PlaintextNotAllowed else Inr PlaintextJson)
     else Inl UnsupportedStorageMode)"

definition decode_vault_file ::
    "json_lib \<Rightarrow> runtime_inspection_state \<Rightarrow> bytes \<Rightarrow> u16 option \<Rightarrow> u64 \<Rightarrow> bool
      \<Rightarrow> vault_parse_error + parsed_vault_file" where
  "decode_vault_file J probe input expected_format_version max_payload_len allow_plaintext =
    rbind (read_exact 4 input) (\<lambda>(magic, r1).
    guard (magic \<noteq> MAGIC) InvalidMagic
    (rbind (read_u16_le r1) (\<lambda>(format_version, r2).
    guard (format_version = 0) UnsupportedVersion
    (guard (case expected_format_version of None \<Rightarrow> False | Some v \<Rightarrow> format_version \<noteq> v)
       UnsupportedVersion
    (rbind (read_u8 r2) (\<lambda>(raw_mode, r3).
    rbind (decode_storage_mode probe allow_plaintext raw_mode) (\<lambda>mode.
    rbind (read_u32_le r3) (\<lambda>(header_len, r4).
    guard (header_len > MAX_HEADER_LEN) HeaderTooLarge
    (rbind (read_exact (unat header_len) r4) (\<lambda>(header_bytes, r5).
    rbind (deserialize_header_json J header_bytes) (\<lambda>header.
    guard (vh_duress header \<noteq> None \<and> mode = PlaintextJson) PlaintextNotAllowed
    (rbind (read_u64_le r5) (\<lambda>(payload_len, r6).
    guard (payload_len > max_payload_len) PayloadTooLarge
    (rbind (read_exact (unat payload_len) r6) (\<lambda>(payload, r7).
    guard (r7 \<noteq> []) TrailingBytes
    (Inr \<lparr>pv_format_version = format_version, pv_header = header, pv_header_bytes = header_bytes,
          pv_mode = mode, pv_payload = payload\<rparr>))))))))))))))))"

definition write_vault_storage ::
    "json_lib \<Rightarrow> runtime_inspection_state \<Rightarrow> (bytes \<Rightarrow> bool) \<Rightarrow> vault_header \<Rightarrow> vault_storage \<Rightarrow> u16
      \<Rightarrow> vault_parse_error + unit" where
  "write_vault_storage J probe write_all header storage format_version =
    rbind (encode_vault_storage J probe header storage format_version) (\<lambda>bs.
      guard (\<not> write_all bs) Io (Inr ()))"

interpretation reader: byte_source read_exact "\<lambda>r. r" "\<lambda>_. True" Io
  by unfold_locales (auto simp: read_exact_def)


section \<open>Lemmas: the readers\<close>

lemma read_exact_iff [simp]: "read_exact n i = Inr (bs, r) \<longleftrightarrow> i = bs @ r \<and> length bs = n"
proof
  assume "read_exact n i = Inr (bs, r)"
  then show "i = bs @ r \<and> length bs = n" using reader.take_inv [where s = i and n = n and bs = bs and s' = r] by simp
next
  assume "i = bs @ r \<and> length bs = n"
  then show "read_exact n i = Inr (bs, r)" using reader.take_prefix [where s = i and bs = bs and rest = r and n = n] by simp
qed

lemma of_nat_of_le_inj:
  assumes "length buf = k" and "8 * k = LENGTH('a::len)"
  shows "(of_nat (of_le buf) :: 'a word) = w \<longleftrightarrow> buf = to_le k (unat w)"
proof -
  have p: "(256 :: nat) ^ k = 2 ^ LENGTH('a)"
    using assms(2) by (simp add: power_mult flip: assms(2))
  have b: "of_le buf < 2 ^ LENGTH('a)" using of_le_bound [of buf] assms(1) p by simp
  show ?thesis
  proof
    assume "(of_nat (of_le buf) :: 'a word) = w"
    then have "unat w = of_le buf" using b by (auto simp: unat_of_nat)
    then show "buf = to_le k (unat w)" using to_le_of_le_len [OF assms(1)] by simp
  next
    assume "buf = to_le k (unat w)"
    then have "of_le buf = unat w"
      using of_le_to_le_id [of "unat w" k] p unsigned_less [of w] by simp
    then show "(of_nat (of_le buf) :: 'a word) = w" by simp
  qed
qed

lemma to_le_of_nat_of_le:
  "length buf = k \<Longrightarrow> 8 * k = LENGTH('a::len) \<Longrightarrow> to_le k (unat (of_nat (of_le buf) :: 'a word)) = buf"
  using of_nat_of_le_inj [of buf k "of_nat (of_le buf) :: 'a word"] by simp

lemma read_u16_le_iff [simp]: "read_u16_le i = Inr (w, r) \<longleftrightarrow> i = to_le 2 (unat w) @ r"
  and read_u32_le_iff [simp]: "read_u32_le i = Inr (x, r) \<longleftrightarrow> i = to_le 4 (unat x) @ r"
  and read_u64_le_iff [simp]: "read_u64_le i = Inr (y, r) \<longleftrightarrow> i = to_le 8 (unat y) @ r"
  by (auto simp: read_u16_le_def read_u32_le_def read_u64_le_def rbind_pair_Inr_iff of_nat_of_le_inj
      to_le_of_nat_of_le)

lemma read_u8_iff [simp]: "read_u8 i = Inr (b, r) \<longleftrightarrow> i = b # r"
  by (auto simp: read_u8_def rbind_pair_Inr_iff length_Suc_conv)

text \<open>The same facts as equations, to run a reader over what a writer has appended.\<close>

lemma read_append:
  "length bs = n \<Longrightarrow> read_exact n (bs @ r) = Inr (bs, r)"
  "read_u16_le (to_le 2 (unat w) @ r) = Inr (w, r)"
  "read_u32_le (to_le 4 (unat x) @ r) = Inr (x, r)"
  "read_u64_le (to_le 8 (unat y) @ r) = Inr (y, r)"
  "read_u8 (b # r) = Inr (b, r)"
  by (simp_all only: read_exact_iff read_u16_le_iff read_u32_le_iff read_u64_le_iff read_u8_iff)

lemma decode_storage_mode_iff [simp]:
  "decode_storage_mode probe allow raw = Inr m \<longleftrightarrow>
     raw = storage_mode_u8 m \<and> (m = PlaintextJson \<longrightarrow> allow \<and> probe = NotDebugged)"
  by (cases m) (auto simp: decode_storage_mode_def storage_mode_u8_def)

section \<open>Lemmas: the layout of a container\<close>

definition container_layout :: "u16 \<Rightarrow> storage_mode \<Rightarrow> bytes \<Rightarrow> bytes \<Rightarrow> bytes" where
  "container_layout version mode header_bytes payload =
     MAGIC @ to_le 2 (unat version) @ [storage_mode_u8 mode] @
     to_le 4 (length header_bytes) @ header_bytes @ to_le 8 (length payload) @ payload"

lemma length_MAGIC: "length MAGIC = 4"
  by (simp add: MAGIC_def)

text \<open>The conditions under which a container is accepted.\<close>

definition acceptable ::
    "json_lib \<Rightarrow> runtime_inspection_state \<Rightarrow> u16 option \<Rightarrow> u64 \<Rightarrow> bool \<Rightarrow> parsed_vault_file \<Rightarrow> bool" where
  "acceptable J probe expected max_len allow_plaintext p \<longleftrightarrow>
     pv_format_version p \<noteq> 0 \<and>
     (\<forall>v. expected = Some v \<longrightarrow> pv_format_version p = v) \<and>
     (pv_mode p = PlaintextJson \<longrightarrow>
        allow_plaintext \<and> probe = NotDebugged \<and> vh_duress (pv_header p) = None) \<and>
     length (pv_header_bytes p) \<le> 4096 \<and>
     json_to_header J (pv_header_bytes p) = Some (pv_header p) \<and>
     length (pv_payload p) \<le> unat max_len"

lemma unat_MAX_HEADER_LEN [simp]: "unat MAX_HEADER_LEN = 4096"
  by (simp add: MAX_HEADER_LEN_def)

lemma decode_vault_file_iff:
  "decode_vault_file J probe input expected max_len allow_plaintext = Inr p \<longleftrightarrow>
     acceptable J probe expected max_len allow_plaintext p \<and>
     input = container_layout (pv_format_version p) (pv_mode p) (pv_header_bytes p) (pv_payload p)"
  (is "?L \<longleftrightarrow> ?R")
proof
  assume ?L
  then show ?R
    by (auto simp: decode_vault_file_def rbind_pair_Inr_iff not_less word_le_nat_alt
        deserialize_header_json_def container_layout_def acceptable_def
        simp del: guard_Inr_iff split: if_splits option.splits)
next
  assume r: ?R
  have "unat max_len < 2 ^ 64" using unsigned_less [of max_len] by simp
  with r have h: "length (pv_header_bytes p) < 2 ^ 32" and q: "length (pv_payload p) < 2 ^ 64"
    by (auto simp: acceptable_def)
  define hl :: u32 where "hl = of_nat (length (pv_header_bytes p))"
  define pl :: u64 where "pl = of_nat (length (pv_payload p))"
  have hl: "unat hl = length (pv_header_bytes p)" and pl: "unat pl = length (pv_payload p)"
    using h q by (simp_all add: hl_def pl_def unat_of_nat)
  have "decode_storage_mode probe allow_plaintext (storage_mode_u8 (pv_mode p)) = Inr (pv_mode p)"
    using r by (auto simp: acceptable_def)
  then show ?L
    using r by (auto simp: decode_vault_file_def container_layout_def acceptable_def read_append
        length_MAGIC deserialize_header_json_def not_less word_le_nat_alt
        simp flip: hl pl split: option.splits)
qed

lemma encode_encrypted_layout:
  assumes "encode_vault_storage J probe header (SEncrypted ct) fv = Inr file"
    and "length file < 2 ^ 32"
  shows "fv \<noteq> 0 \<and> (\<exists>hb. json_of_header J header = Some hb \<and> length hb \<le> 4096 \<and>
    file = container_layout fv Encrypted hb ct)"
proof -
  from assms(1) obtain hb where hb: "json_of_header J header = Some hb" "fv \<noteq> 0"
      and small: "\<not> (of_nat (length hb) :: u32) > MAX_HEADER_LEN"
      and lay: "file = MAGIC @ to_le 2 (unat fv) @ [storage_mode_u8 Encrypted] @
        to_le 4 (unat (of_nat (length hb) :: u32)) @ hb @
        to_le 8 (unat (u64_of_len (length ct))) @ ct"
    by (auto simp: encode_vault_storage_def serialize_header_json_def simp del: guard_Inr_iff
        split: if_splits)
  from lay assms(2) have l: "length hb < 2 ^ 32" "length ct < 2 ^ 32" by simp_all
  then have u: "unat (of_nat (length hb) :: u32) = length hb"
      "unat (u64_of_len (length ct)) = length ct"
    by (simp_all add: u64_of_len_def unat_of_nat)
  with small have "length hb \<le> 4096" by (simp add: not_less word_le_nat_alt)
  with hb lay u show ?thesis by (auto simp: container_layout_def)
qed

text \<open>What was encoded is decoded, as long as the file fits the reader's cap.\<close>

lemma decode_encoded:
  assumes "encode_vault_storage J probe header (SEncrypted ct) fv = Inr file"
    and "length file < 2 ^ 32" and "length file \<le> unat max_len" and "header_json_ok J header"
  shows "\<exists>hb. json_of_header J header = Some hb \<and>
    decode_vault_file J probe' file (Some fv) max_len allow =
      Inr \<lparr>pv_format_version = fv, pv_header = header, pv_header_bytes = hb,
           pv_mode = Encrypted, pv_payload = ct\<rparr>"
proof -
  obtain hb where hb: "json_of_header J header = Some hb" "length hb \<le> 4096" "fv \<noteq> 0"
      and lay: "file = container_layout fv Encrypted hb ct"
    using encode_encrypted_layout [OF assms(1,2)] by blast
  have "length ct \<le> length file" by (simp add: lay container_layout_def)
  moreover have "json_to_header J hb = Some header"
    using assms(4) hb by (auto simp: header_json_ok_def)
  ultimately have "decode_vault_file J probe' file (Some fv) max_len allow =
      Inr \<lparr>pv_format_version = fv, pv_header = header, pv_header_bytes = hb,
           pv_mode = Encrypted, pv_payload = ct\<rparr>"
    using assms(3) hb lay by (simp add: decode_vault_file_iff acceptable_def)
  with hb show ?thesis by blast
qed

text \<open>A file of at most 16 MiB is read back within the container cap.\<close>

lemma decode_created:
  assumes "encode_vault_storage J probe h (SEncrypted ct) fv = Inr file"
    and "length file \<le> 16 * 1024 * 1024" and "header_json_ok J h" and "json_of_header J h = Some hb"
  shows "decode_vault_file J probe' file (Some fv) MAX_VAULT_CONTAINER_PAYLOAD_LEN False =
    Inr \<lparr>pv_format_version = fv, pv_header = h, pv_header_bytes = hb, pv_mode = Encrypted,
         pv_payload = ct\<rparr>"
  using decode_encoded [OF assms(1), where max_len = MAX_VAULT_CONTAINER_PAYLOAD_LEN] assms(2-)
  by (fastforce simp: MAX_VAULT_CONTAINER_PAYLOAD_LEN_def)

text \<open>A caller that expects no particular version reads what one that expects the right one reads.\<close>

lemma decode_any_version:
  "decode_vault_file J probe input (Some fv) max_len allow = Inr parsed \<Longrightarrow>
    decode_vault_file J probe input None max_len allow = Inr parsed"
  by (auto simp: decode_vault_file_iff acceptable_def)

section \<open>A concrete JSON library, for the witnesses\<close>

text \<open>
  Byte strings are written with a marker before each byte and a terminator; one
  header \<open>h\<close> and two payloads, the empty one and \<open>ds\<close>, have fixed names.
\<close>

fun toy_bytes :: "bytes \<Rightarrow> bytes" where
  "toy_bytes [] = [0]"
| "toy_bytes (b # bs) = 1 # b # toy_bytes bs"

fun toy_unbytes :: "bytes \<Rightarrow> (bytes \<times> bytes) option" where
  "toy_unbytes (m # rest) =
    (if m = 0 then Some ([], rest)
     else case rest of [] \<Rightarrow> None
       | b # rest' \<Rightarrow> map_option (\<lambda>(bs, r). (b # bs, r)) (toy_unbytes rest'))"
| "toy_unbytes [] = None"

definition toy_json :: "vault_header \<Rightarrow> vault_entry_dto list \<Rightarrow> json_lib" where
  "toy_json h ds =
    \<lparr>json_of_payload = (\<lambda>d. if d = [] then Some [0] else if d = ds then Some [1] else None),
     json_to_payload = (\<lambda>b. if b = [0] then Some [] else if b = [1] then Some ds else None),
     json_of_header = (\<lambda>h'. if h' = h then Some [7] else None),
     json_to_header = (\<lambda>b. if b = [7] then Some h else None),
     json_of_envelope = (\<lambda>v. Some (toy_bytes (env_primary_ct v) @ toy_bytes (env_decoy_ct v))),
     json_to_envelope = (\<lambda>b. case toy_unbytes b of None \<Rightarrow> None
       | Some (p, r) \<Rightarrow> map_option (\<lambda>(d, _). \<lparr>env_primary_ct = p, env_decoy_ct = d\<rparr>) (toy_unbytes r))\<rparr>"

text \<open>The envelope is two byte vectors: all of them cross the JSON boundary unchanged.\<close>
definition envelope_json_correct :: "json_lib \<Rightarrow> bool" where
  "envelope_json_correct J \<longleftrightarrow>
    (\<forall>v c. json_of_envelope J v = Some c \<longrightarrow> json_to_envelope J c = Some v)"

lemma toy_unbytes_bytes [simp]: "toy_unbytes (toy_bytes bs @ r) = Some (bs, r)"
  by (induction bs) auto

lemma toy_unbytes_bytes_all [simp]: "toy_unbytes (toy_bytes bs) = Some (bs, [])"
  using toy_unbytes_bytes [of bs "[]"] by simp

lemma toy_json_envelope: "envelope_json_correct (toy_json h ds)"
  by (auto simp: envelope_json_correct_def toy_json_def)

section \<open>Properties\<close>

definition sample_header :: vault_header where
  "sample_header = \<lparr>vh_schema_version = 1, vh_vault_id = 7, vh_crypto = \<lparr>ch_kdf = Argon2id 65536 3 1,
     ch_aead = XChaCha20Poly1305, ch_salt = [], ch_nonce = []\<rparr>, vh_duress = None\<rparr>"

text \<open>C14. The decoder accepts exactly the images of the container layout: magic, nonzero version (the
  expected one, if any), a known mode, a header of at most 4096 bytes that parses, a payload
  within the caller's cap, nothing after it, and plaintext only when it is allowed. What it
  returns is the fields of that layout, so a file has one reading.\<close>

theorem decode_exactly_the_layout:
  "decode_vault_file J probe input expected max_len allow_plaintext = Inr p \<longleftrightarrow>
     input = MAGIC @ to_le 2 (unat (pv_format_version p)) @ [storage_mode_u8 (pv_mode p)] @
       to_le 4 (length (pv_header_bytes p)) @ pv_header_bytes p @
       to_le 8 (length (pv_payload p)) @ pv_payload p \<and>
     pv_format_version p \<noteq> 0 \<and> (\<forall>v. expected = Some v \<longrightarrow> pv_format_version p = v) \<and>
     length (pv_header_bytes p) \<le> 4096 \<and> json_to_header J (pv_header_bytes p) = Some (pv_header p) \<and>
     length (pv_payload p) \<le> unat max_len \<and>
     (pv_mode p = PlaintextJson \<longrightarrow> allow_plaintext \<and> probe = NotDebugged \<and> vh_duress (pv_header p) = None)"
  by (auto simp: decode_vault_file_iff acceptable_def container_layout_def)

theorem decode_exactly_the_layout_witness:
  "decode_vault_file (toy_json sample_header []) NotDebugged
     (MAGIC @ to_le 2 1 @ [1] @ to_le 4 1 @ [7] @ to_le 8 1 @ [8]) (Some 1) 16 False =
   Inr \<lparr>pv_format_version = 1, pv_header = sample_header, pv_header_bytes = [7], pv_mode = Encrypted,
        pv_payload = [8]\<rparr>"
  by (subst decode_exactly_the_layout) (simp add: toy_json_def storage_mode_u8_def)

text \<open>No accepted file is a proper prefix of another: a truncated file, and a file with anything
  appended, is refused.\<close>

lemma container_prefix_free:
  assumes "decode_vault_file J probe input expected max_len allow_plaintext = Inr p"
    and "decode_vault_file J' probe' (input @ extra) expected' max_len' allow' = Inr p'"
  shows "extra = [] \<and> pv_header_bytes p' = pv_header_bytes p \<and> pv_payload p' = pv_payload p \<and>
    pv_mode p' = pv_mode p \<and> pv_format_version p' = pv_format_version p"
proof -
  note a = assms(1) [unfolded decode_vault_file_iff] and b = assms(2) [unfolded decode_vault_file_iff]
  have lay: "container_layout (pv_format_version p) (pv_mode p) (pv_header_bytes p) (pv_payload p) @ extra =
      container_layout (pv_format_version p') (pv_mode p') (pv_header_bytes p') (pv_payload p')"
    using a b by simp
  have cap: "unat w < 256 ^ 8" for w :: u64
    using unsigned_less [of w] by simp
  have small: "length (pv_header_bytes p) < 256 ^ 4" "length (pv_header_bytes p') < 256 ^ 4"
    "length (pv_payload p) < 256 ^ 8" "length (pv_payload p') < 256 ^ 8"
    using a b cap [of max_len] cap [of max_len'] by (simp_all add: acceptable_def)
  have v: "unat (pv_format_version q) < 256 ^ 2" for q
    using unsigned_less [of "pv_format_version q"] by simp
  have mode: "storage_mode_u8 x = storage_mode_u8 y \<Longrightarrow> x = y" for x y
    by (cases x; cases y) (simp_all add: storage_mode_u8_def)
  have "pv_format_version p = pv_format_version p'" "pv_mode p = pv_mode p'" and
    h: "to_le 4 (length (pv_header_bytes p)) = to_le 4 (length (pv_header_bytes p'))" and
    rest: "pv_header_bytes p @ to_le 8 (length (pv_payload p)) @ pv_payload p @ extra =
       pv_header_bytes p' @ to_le 8 (length (pv_payload p')) @ pv_payload p'"
    using lay to_le_inject [OF _ v v, of p p'] mode by (auto simp: container_layout_def dest: unsigned_word_eqI)
  moreover have "length (pv_header_bytes p) = length (pv_header_bytes p')"
    by (rule to_le_inject [OF h small(1,2)])
  moreover from this rest have "pv_header_bytes p = pv_header_bytes p'" and
    l8: "to_le 8 (length (pv_payload p)) = to_le 8 (length (pv_payload p'))" and
    pl: "pv_payload p @ extra = pv_payload p'"
    by auto
  moreover have leq: "length (pv_payload p) = length (pv_payload p')"
    by (rule to_le_inject [OF l8 small(3,4)])
  moreover have "extra = []" using leq arg_cong [OF pl, of length] by simp
  ultimately show ?thesis by auto
qed

text \<open>Plaintext vaults are gated on both sides: a plaintext container is written or read only in a
  runtime inspected as not debugged and never for a duress header, and read only on request.\<close>

lemma plaintext_is_gated:
  "(encode_vault_storage J probe header (SPlaintextJson json) fv = Inr bs \<longrightarrow>
      probe = NotDebugged \<and> vh_duress header = None \<and> fv \<noteq> 0) \<and>
   (decode_vault_file J probe input expected max_len allow_plaintext = Inr p \<and> pv_mode p = PlaintextJson \<longrightarrow>
      probe = NotDebugged \<and> allow_plaintext \<and> vh_duress (pv_header p) = None)"
  by (auto simp: encode_vault_storage_def decode_vault_file_iff acceptable_def simp del: guard_Inr_iff
      split: if_splits)

end
