(* ===== verification/Backup.thy ===== *)
theory Backup
  imports Policy Vault_Codec
begin

text \<open>
  \<open>backup/\<close>: the signed backup container. A password-derived Ed25519 key signs every byte
  before the signature. HKDF, Ed25519 and the JSON of the header are crates: they are
  the fields of a record.
\<close>

section \<open>Types and crates\<close>

datatype backup_error = BakPolicyDenied | BakInvalidFormat | BakUnsupportedVersion | BakPayloadTooLarge
  | BakSerialize | BakDeserialize | BakAuthFailed

definition BACKUP_MAGIC :: bytes where "BACKUP_MAGIC = map byte [86, 86, 66, 65, 75, 85, 80, 49]"
definition BACKUP_VERSION :: u16 where "BACKUP_VERSION = 1"
definition MAX_BACKUP_PAYLOAD_LEN :: u64 where "MAX_BACKUP_PAYLOAD_LEN = 64 * 1024 * 1024"

record backup_kdf_policy =
  bk_mem_kib :: u32
  bk_time_cost :: u32
  bk_lanes :: u32

record backup_header =
  bh_version :: u16
  bh_kdf :: backup_kdf_policy
  bh_salt :: bytes

record backup_lib =
  json_of_backup_header :: "backup_header \<Rightarrow> bytes option"
  json_to_backup_header :: "bytes \<Rightarrow> backup_header option"
  \<comment> \<open>HKDF-SHA256 without salt, expanded with the given info to 32 bytes\<close>
  hkdf_expand :: "bytes \<Rightarrow> bytes \<Rightarrow> bytes option"
  \<comment> \<open>Ed25519: seed and message; the public key of a seed; \<open>Signature::from_slice\<close>; verification\<close>
  ed25519_sign :: "bytes \<Rightarrow> bytes \<Rightarrow> bytes"
  ed25519_public :: "bytes \<Rightarrow> bytes"
  ed25519_sig_ok :: "bytes \<Rightarrow> bool"
  ed25519_verify :: "bytes \<Rightarrow> bytes \<Rightarrow> bytes \<Rightarrow> bool"

section \<open>Keys\<close>

definition hkdf_expand_seed :: "backup_lib \<Rightarrow> bytes \<Rightarrow> backup_error + bytes" where
  "hkdf_expand_seed K master_key =
    ok_or BakSerialize (hkdf_expand K master_key (as_bytes (lit ''vipervault-backup-ed25519-seed'')))"

text \<open>The signing key is represented by its seed.\<close>
definition derive_backup_signing_key ::
    "backup_lib \<Rightarrow> crypto_lib \<Rightarrow> master_password \<Rightarrow> backup_header \<Rightarrow> backup_error + bytes" where
  "derive_backup_signing_key K C password header =
    rbind (map_err (\<lambda>_. BakAuthFailed) (derive_master_key_from_password C password (bh_salt header)
      (bk_mem_kib (bh_kdf header)) (bk_time_cost (bh_kdf header)) (bk_lanes (bh_kdf header)))) (\<lambda>master_key.
    hkdf_expand_seed K master_key)"

definition derive_backup_verifying_key ::
    "backup_lib \<Rightarrow> crypto_lib \<Rightarrow> master_password \<Rightarrow> backup_header \<Rightarrow> backup_error + bytes" where
  "derive_backup_verifying_key K C password header =
    rbind (derive_backup_signing_key K C password header) (\<lambda>signing_key. Inr (ed25519_public K signing_key))"

section \<open>Encoding\<close>

definition encode_signed_backup ::
    "backup_lib \<Rightarrow> crypto_lib \<Rightarrow> rng \<Rightarrow> policy_context \<Rightarrow> master_password \<Rightarrow> bytes \<Rightarrow> backup_kdf_policy
      \<Rightarrow> backup_error + bytes" where
  "encode_signed_backup K C rnd policy password vault_container_bytes kdf =
    guard (\<not> allow_signed_backup_transfer policy) BakPolicyDenied
    (guard (u64_of_len (length vault_container_bytes) > MAX_BACKUP_PAYLOAD_LEN) BakPayloadTooLarge
    (rbind (ok_or BakSerialize (rnd 0 32)) (\<lambda>salt.
     let header = \<lparr>bh_version = BACKUP_VERSION, bh_kdf = kdf, bh_salt = salt\<rparr> in
     rbind (ok_or BakSerialize (json_of_backup_header K header)) (\<lambda>header_json.
     guard (length header_json \<ge> 2 ^ 32) BakInvalidFormat
     (let out = BACKUP_MAGIC @ to_le 2 (unat BACKUP_VERSION) @ to_le 4 (length header_json) @ header_json @
        to_le 8 (unat (u64_of_len (length vault_container_bytes))) @ vault_container_bytes in
      rbind (derive_backup_signing_key K C password header) (\<lambda>signing_key.
      Inr (out @ to_le 2 64 @ ed25519_sign K signing_key out)))))))"

section \<open>Decoding\<close>

text \<open>The input and a cursor into it; \<open>checked_add\<close> fails past \<open>usize\<close>.\<close>
type_synonym backup_reader = "bytes \<times> nat"

fun bak_read_slice :: "nat \<Rightarrow> backup_reader \<Rightarrow> backup_error + bytes \<times> backup_reader" where
  "bak_read_slice len (input, cursor) =
    guard (cursor + len > USIZE_MAX) BakInvalidFormat
    (guard (cursor + len > length input) BakInvalidFormat
    (Inr (take len (drop cursor input), (input, cursor + len))))"

fun bak_read_exact :: "nat \<Rightarrow> backup_reader \<Rightarrow> backup_error + bytes \<times> backup_reader" where
  "bak_read_exact n (input, cursor) =
    guard (cursor + n > USIZE_MAX) BakInvalidFormat
    (guard (cursor + n > length input) BakInvalidFormat
    (Inr (take n (drop cursor input), (input, cursor + n))))"

definition bak_read_u16_le :: "backup_reader \<Rightarrow> backup_error + u16 \<times> backup_reader" where
  "bak_read_u16_le r = rbind (bak_read_exact 2 r) (\<lambda>(buf, r'). Inr (of_nat (of_le buf), r'))"

definition bak_read_u32_le :: "backup_reader \<Rightarrow> backup_error + u32 \<times> backup_reader" where
  "bak_read_u32_le r = rbind (bak_read_exact 4 r) (\<lambda>(buf, r'). Inr (of_nat (of_le buf), r'))"

definition bak_read_u64_le :: "backup_reader \<Rightarrow> backup_error + u64 \<times> backup_reader" where
  "bak_read_u64_le r = rbind (bak_read_exact 8 r) (\<lambda>(buf, r'). Inr (of_nat (of_le buf), r'))"

definition decode_signed_backup ::
    "backup_lib \<Rightarrow> crypto_lib \<Rightarrow> policy_context \<Rightarrow> master_password \<Rightarrow> bytes \<Rightarrow> backup_error + bytes" where
  "decode_signed_backup K C policy password backup_bytes =
    guard (\<not> allow_signed_backup_transfer policy) BakPolicyDenied
    (rbind (bak_read_exact 8 (backup_bytes, 0)) (\<lambda>(magic, r1).
    guard (magic \<noteq> BACKUP_MAGIC) BakInvalidFormat
    (rbind (bak_read_u16_le r1) (\<lambda>(version, r2).
    guard (version \<noteq> BACKUP_VERSION) BakUnsupportedVersion
    (rbind (bak_read_u32_le r2) (\<lambda>(header_len, r3).
    guard (header_len = 0) BakInvalidFormat
    (rbind (bak_read_slice (unat header_len) r3) (\<lambda>(header_json, r4).
    rbind (ok_or BakDeserialize (json_to_backup_header K header_json)) (\<lambda>header.
    guard (bh_version header \<noteq> BACKUP_VERSION) BakUnsupportedVersion
    (rbind (bak_read_u64_le r4) (\<lambda>(payload_len, r5).
    guard (payload_len > MAX_BACKUP_PAYLOAD_LEN) BakPayloadTooLarge
    (rbind (bak_read_slice (unat payload_len) r5) (\<lambda>(payload, r6).
    rbind (bak_read_u16_le r6) (\<lambda>(sig_len, r7).
    guard (sig_len \<noteq> 64) BakInvalidFormat
    (rbind (bak_read_slice 64 r7) (\<lambda>(sig_bytes, r8).
    guard (snd r8 \<noteq> length backup_bytes) BakInvalidFormat
    (guard (\<not> ed25519_sig_ok K sig_bytes) BakInvalidFormat
    (guard (length backup_bytes < 2 + 64) BakInvalidFormat
    (let signed_len = length backup_bytes - (2 + 64) in
     rbind (derive_backup_verifying_key K C password header) (\<lambda>verifying_key.
     guard (\<not> ed25519_verify K verifying_key (take signed_len backup_bytes) sig_bytes) BakAuthFailed
     (Inr payload)))))))))))))))))))))"

section \<open>Lemmas: the readers\<close>

definition unread :: "backup_reader \<Rightarrow> bytes" where "unread r = drop (snd r) (fst r)"

definition reader_ok :: "bytes \<Rightarrow> backup_reader \<Rightarrow> bool" where
  "reader_ok input r \<longleftrightarrow> fst r = input \<and> snd r \<le> length input \<and> length input \<le> USIZE_MAX"

text \<open>The slice reader is the same source of bytes as the reader of the vault container.\<close>
interpretation slice: byte_source bak_read_slice unread "reader_ok input" BakInvalidFormat for input
  by unfold_locales (auto simp: unread_def reader_ok_def le_diff_conv2 add.commute)

lemma bak_read_exact_slice: "bak_read_exact n r = bak_read_slice n r"
  by (cases r) simp

text \<open>What a read consumes, forwards and backwards.\<close>

lemma bak_read_slice_inv:
  assumes "reader_ok input r" and "bak_read_slice n r = Inr (bs, r')"
  shows "unread r = bs @ unread r' \<and> length bs = n \<and> reader_ok input r'"
  by (rule slice.take_inv [OF assms])

lemma bak_read_slice_append:
  assumes "reader_ok input r" and "unread r = bs @ rest" and "length bs = n"
  shows "\<exists>r'. bak_read_slice n r = Inr (bs, r') \<and> unread r' = rest \<and> reader_ok input r'"
  by (rule slice.take_prefix [OF assms])

lemma bak_read_le_inv:
  assumes "reader_ok input r"
  shows "bak_read_u16_le r = Inr (w, r') \<Longrightarrow> unread r = to_le 2 (unat w) @ unread r' \<and> reader_ok input r'"
    and "bak_read_u32_le r = Inr (x, r') \<Longrightarrow> unread r = to_le 4 (unat x) @ unread r' \<and> reader_ok input r'"
    and "bak_read_u64_le r = Inr (y, r') \<Longrightarrow> unread r = to_le 8 (unat y) @ unread r' \<and> reader_ok input r'"
  using bak_read_slice_inv [OF assms]
  by (auto simp: bak_read_u16_le_def bak_read_u32_le_def bak_read_u64_le_def bak_read_exact_slice
      rbind_pair_Inr_iff to_le_of_nat_of_le)

lemma bak_read_le_append:
  assumes "reader_ok input r"
  shows "unread r = to_le 2 (unat w) @ rest \<Longrightarrow> \<exists>r'. bak_read_u16_le r = Inr (w, r') \<and> unread r' = rest \<and> reader_ok input r'"
    and "unread r = to_le 4 (unat x) @ rest \<Longrightarrow> \<exists>r'. bak_read_u32_le r = Inr (x, r') \<and> unread r' = rest \<and> reader_ok input r'"
    and "unread r = to_le 8 (unat y) @ rest \<Longrightarrow> \<exists>r'. bak_read_u64_le r = Inr (y, r') \<and> unread r' = rest \<and> reader_ok input r'"
  using bak_read_slice_append [OF assms, of "to_le 2 (unat w)" rest 2] bak_read_slice_append [OF assms, of "to_le 4 (unat x)" rest 4]
    bak_read_slice_append [OF assms, of "to_le 8 (unat y)" rest 8]
    of_nat_of_le_inj [of "to_le 2 (unat w)" 2 w] of_nat_of_le_inj [of "to_le 4 (unat x)" 4 x]
    of_nat_of_le_inj [of "to_le 8 (unat y)" 8 y]
  by (auto simp: bak_read_u16_le_def bak_read_u32_le_def bak_read_u64_le_def bak_read_exact_slice)

section \<open>Lemmas: the layout of a backup\<close>

text \<open>The signed part: everything before the signature.\<close>
definition backup_body :: "bytes \<Rightarrow> bytes \<Rightarrow> bytes" where
  "backup_body header_json payload =
     BACKUP_MAGIC @ to_le 2 (unat BACKUP_VERSION) @ to_le 4 (length header_json) @ header_json @
     to_le 8 (length payload) @ payload"

definition backup_layout :: "bytes \<Rightarrow> bytes \<Rightarrow> bytes \<Rightarrow> bytes" where
  "backup_layout header_json payload sig = backup_body header_json payload @ to_le 2 64 @ sig"

text \<open>What a backup has to satisfy to be accepted under a password.\<close>
definition authentic :: "backup_lib \<Rightarrow> crypto_lib \<Rightarrow> master_password \<Rightarrow> bytes \<Rightarrow> bytes \<Rightarrow> bytes \<Rightarrow> bool" where
  "authentic K C password header_json payload sig \<longleftrightarrow>
     header_json \<noteq> [] \<and> length header_json < 2 ^ 32 \<and> length payload \<le> 64 * 1024 * 1024 \<and>
     length sig = 64 \<and> ed25519_sig_ok K sig \<and>
     (\<exists>header seed. json_to_backup_header K header_json = Some header \<and> bh_version header = BACKUP_VERSION \<and>
        derive_backup_signing_key K C password header = Inr seed \<and>
        ed25519_verify K (ed25519_public K seed) (backup_body header_json payload) sig)"

lemma length_BACKUP_MAGIC [simp]: "length BACKUP_MAGIC = 8"
  by (simp add: BACKUP_MAGIC_def)

lemma unat_MAX_BACKUP [simp]: "unat MAX_BACKUP_PAYLOAD_LEN = 67108864"
  by (simp add: MAX_BACKUP_PAYLOAD_LEN_def)

lemma take_signed [simp]:
  "length sig = 64 \<Longrightarrow> take (length (body @ to_le 2 64 @ sig) - (2 + 64)) (body @ to_le 2 64 @ sig) = body"
  by simp

lemma unread_start [simp]: "unread (input, 0) = input"
  by (simp add: unread_def)

lemma decode_backup_reads:
  assumes "length input \<le> USIZE_MAX" and "decode_signed_backup K C policy pw input = Inr payload"
  shows "allow_signed_backup_transfer policy \<and>
    (\<exists>hj sig. input = backup_layout hj payload sig \<and> authentic K C pw hj payload sig)"
proof -
  have ok: "reader_ok input (input, 0)" using assms(1) by (simp add: reader_ok_def)
  from assms(2) obtain r1 r2 header_len r3 hj r4 header payload_len r5 r6 sig_len r7 sig r8 seed where
    rd: "bak_read_slice 8 (input, 0) = Inr (BACKUP_MAGIC, r1)" "bak_read_u16_le r1 = Inr (BACKUP_VERSION, r2)"
      "bak_read_u32_le r2 = Inr (header_len, r3)" "bak_read_slice (unat header_len) r3 = Inr (hj, r4)"
      "bak_read_u64_le r4 = Inr (payload_len, r5)" "bak_read_slice (unat payload_len) r5 = Inr (payload, r6)"
      "bak_read_u16_le r6 = Inr (sig_len, r7)" "bak_read_slice 64 r7 = Inr (sig, r8)"
    and c: "allow_signed_backup_transfer policy" "header_len \<noteq> 0" "json_to_backup_header K hj = Some header"
      "bh_version header = BACKUP_VERSION" "payload_len \<le> MAX_BACKUP_PAYLOAD_LEN" "sig_len = 64"
      "snd r8 = length input" "ed25519_sig_ok K sig" "derive_backup_signing_key K C pw header = Inr seed"
      "ed25519_verify K (ed25519_public K seed) (take (length input - (2 + 64)) input) sig"
    unfolding decode_signed_backup_def bak_read_exact_slice derive_backup_verifying_key_def Let_def
    by (auto simp: rbind_pair_Inr_iff not_less)
  note i1 = bak_read_slice_inv [OF ok rd(1)]
  note i2 = bak_read_le_inv(1) [OF i1 [THEN conjunct2, THEN conjunct2] rd(2)]
  note i3 = bak_read_le_inv(2) [OF i2 [THEN conjunct2] rd(3)]
  note i4 = bak_read_slice_inv [OF i3 [THEN conjunct2] rd(4)]
  note i5 = bak_read_le_inv(3) [OF i4 [THEN conjunct2, THEN conjunct2] rd(5)]
  note i6 = bak_read_slice_inv [OF i5 [THEN conjunct2] rd(6)]
  note i7 = bak_read_le_inv(1) [OF i6 [THEN conjunct2, THEN conjunct2] rd(7)]
  note i8 = bak_read_slice_inv [OF i7 [THEN conjunct2] rd(8)]
  have "unread r8 = []" using i8 c(7) by (simp add: unread_def reader_ok_def)
  then have lay: "input = backup_layout hj payload sig"
    using i1 i2 i3 i4 i5 i6 i7 i8 c(6) by (simp add: backup_layout_def backup_body_def)
  have "hj \<noteq> []" using i4 c(2) by (auto simp: unat_eq_0)
  moreover have "length hj < 2 ^ 32" using i4 unat_u32_less [of header_len] by simp
  moreover have "length payload \<le> 64 * 1024 * 1024" using i6 c(5) by (simp add: word_le_nat_alt)
  moreover have "take (length input - (2 + 64)) input = backup_body hj payload"
    unfolding lay backup_layout_def using i8 by (intro take_signed) simp
  ultimately have "authentic K C pw hj payload sig" using c i8 unfolding authentic_def by auto
  with lay c(1) show ?thesis by blast
qed

lemma decode_backup_accepts:
  assumes "allow_signed_backup_transfer policy" and "authentic K C pw hj payload sig"
    and "length (backup_layout hj payload sig) \<le> USIZE_MAX"
  shows "decode_signed_backup K C policy pw (backup_layout hj payload sig) = Inr payload"
proof -
  let ?i = "backup_layout hj payload sig"
  note au = assms(2) [unfolded authentic_def]
  then obtain header seed where h: "json_to_backup_header K hj = Some header" "bh_version header = BACKUP_VERSION"
    "derive_backup_signing_key K C pw header = Inr seed"
    "ed25519_verify K (ed25519_public K seed) (backup_body hj payload) sig" by blast
  define hl :: u32 where "hl = of_nat (length hj)"
  define pl :: u64 where "pl = of_nat (length payload)"
  have hl: "unat hl = length hj" "hl \<noteq> 0" and pl: "unat pl = length payload" "pl \<le> MAX_BACKUP_PAYLOAD_LEN"
    using au by (auto simp: hl_def pl_def unat_of_nat word_le_nat_alt simp flip: unat_eq_0)
  have lay: "unread (?i, 0) = BACKUP_MAGIC @ to_le 2 (unat BACKUP_VERSION) @ to_le 4 (unat hl) @ hj @
      to_le 8 (unat pl) @ payload @ to_le 2 (unat (64 :: u16)) @ sig"
    by (simp add: backup_layout_def backup_body_def hl pl)
  have ok: "reader_ok ?i (?i, 0)" using assms(3) by (simp add: reader_ok_def)
  obtain r1 where r1: "bak_read_slice 8 (?i, 0) = Inr (BACKUP_MAGIC, r1)" "reader_ok ?i r1" and
    u1: "unread r1 = to_le 2 (unat BACKUP_VERSION) @ to_le 4 (unat hl) @ hj @ to_le 8 (unat pl) @ payload @
      to_le 2 (unat (64 :: u16)) @ sig"
    using bak_read_slice_append [OF ok lay] by auto
  obtain r2 where r2: "bak_read_u16_le r1 = Inr (BACKUP_VERSION, r2)" "reader_ok ?i r2" and
    u2: "unread r2 = to_le 4 (unat hl) @ hj @ to_le 8 (unat pl) @ payload @ to_le 2 (unat (64 :: u16)) @ sig"
    using bak_read_le_append(1) [OF r1(2) u1] by auto
  obtain r3 where r3: "bak_read_u32_le r2 = Inr (hl, r3)" "reader_ok ?i r3" and
    u3: "unread r3 = hj @ to_le 8 (unat pl) @ payload @ to_le 2 (unat (64 :: u16)) @ sig"
    using bak_read_le_append(2) [OF r2(2) u2] by auto
  obtain r4 where r4: "bak_read_slice (unat hl) r3 = Inr (hj, r4)" "reader_ok ?i r4" and
    u4: "unread r4 = to_le 8 (unat pl) @ payload @ to_le 2 (unat (64 :: u16)) @ sig"
    using bak_read_slice_append [OF r3(2) u3, of "unat hl"] hl by auto
  obtain r5 where r5: "bak_read_u64_le r4 = Inr (pl, r5)" "reader_ok ?i r5" and
    u5: "unread r5 = payload @ to_le 2 (unat (64 :: u16)) @ sig"
    using bak_read_le_append(3) [OF r4(2) u4] by auto
  obtain r6 where r6: "bak_read_slice (unat pl) r5 = Inr (payload, r6)" "reader_ok ?i r6" and
    u6: "unread r6 = to_le 2 (unat (64 :: u16)) @ sig"
    using bak_read_slice_append [OF r5(2) u5, of "unat pl"] pl by auto
  obtain r7 where r7: "bak_read_u16_le r6 = Inr (64, r7)" "reader_ok ?i r7" and u7: "unread r7 = sig @ []"
    using bak_read_le_append(1) [OF r6(2) u6] by auto
  obtain r8 where r8: "bak_read_slice 64 r7 = Inr (sig, r8)" "reader_ok ?i r8" and u8: "unread r8 = []"
    using bak_read_slice_append [OF r7(2) u7] au by auto
  have e: "snd r8 = length ?i" using r8(2) u8 by (auto simp: unread_def reader_ok_def)
  have big: "\<not> length ?i < 2 + 64" using au by (simp add: backup_layout_def)
  have t: "take (length ?i - (2 + 64)) ?i = backup_body hj payload"
    unfolding backup_layout_def using au by (intro take_signed) simp
  show ?thesis
    unfolding decode_signed_backup_def bak_read_exact_slice
    using assms(1) r1 r2 r3 hl(2) r4 h r5 pl(2) r6 r7 r8 e au big t
    by (simp add: derive_backup_verifying_key_def del: bak_read_slice.simps)
qed

lemma backup_key_eq:
  "rbind (map_err (\<lambda>_. BakAuthFailed) x) k = Inr v \<longleftrightarrow> (\<exists>a. x = Inr a \<and> k a = Inr v)"
  by auto

text \<open>What the writer relies on: signatures verify, have 64 bytes, and the header reads back.\<close>
definition backup_lib_correct :: "backup_lib \<Rightarrow> bool" where
  "backup_lib_correct K \<longleftrightarrow>
     (\<forall>seed m. ed25519_verify K (ed25519_public K seed) m (ed25519_sign K seed m) \<and>
        length (ed25519_sign K seed m) = 64 \<and> ed25519_sig_ok K (ed25519_sign K seed m)) \<and>
     (\<forall>h b. json_of_backup_header K h = Some b \<longrightarrow> b \<noteq> [] \<and> json_to_backup_header K b = Some h)"

lemma encode_backup_layout:
  assumes "encode_signed_backup K C rnd policy pw payload kdf = Inr backup" and "backup_lib_correct K"
    and "length payload < 2 ^ 64"
  shows "\<exists>hj sig. backup = backup_layout hj payload sig \<and> authentic K C pw hj payload sig"
proof -
  from assms(1) obtain salt hj seed where
    h: "json_of_backup_header K \<lparr>bh_version = BACKUP_VERSION, bh_kdf = kdf, bh_salt = salt\<rparr> = Some hj"
      "length hj < 2 ^ 32" "u64_of_len (length payload) \<le> MAX_BACKUP_PAYLOAD_LEN"
      "derive_backup_signing_key K C pw \<lparr>bh_version = BACKUP_VERSION, bh_kdf = kdf, bh_salt = salt\<rparr> = Inr seed"
    and b: "backup = (BACKUP_MAGIC @ to_le 2 (unat BACKUP_VERSION) @ to_le 4 (length hj) @ hj @
        to_le 8 (unat (u64_of_len (length payload))) @ payload) @ to_le 2 64 @
        ed25519_sign K seed (BACKUP_MAGIC @ to_le 2 (unat BACKUP_VERSION) @ to_le 4 (length hj) @ hj @
        to_le 8 (unat (u64_of_len (length payload))) @ payload)"
    by (auto simp: encode_signed_backup_def Let_def not_less not_le)
  have l: "unat (u64_of_len (length payload)) = length payload"
    using assms(3) by (simp add: u64_of_len_def unat_of_nat)
  have "backup = backup_layout hj payload (ed25519_sign K seed (backup_body hj payload))"
    unfolding b l backup_layout_def backup_body_def by simp
  moreover have "authentic K C pw hj payload (ed25519_sign K seed (backup_body hj payload))"
    using h assms(2) l unfolding authentic_def backup_lib_correct_def by (auto simp: word_le_nat_alt)
  ultimately show ?thesis by blast
qed

text \<open>Every backup the library writes restores: decoded under the same password, in any session that
  may transfer backups, it gives back the container that was signed, byte for byte.\<close>

lemma restored_backup:
  assumes "encode_signed_backup K C rnd policy pw container kdf = Inr backup" and "backup_lib_correct K"
    and "length backup \<le> USIZE_MAX" and "allow_signed_backup_transfer policy'"
  shows "decode_signed_backup K C policy' pw backup = Inr container"
proof -
  have "length container < 2 ^ 64"
    using assms(1,3) by (auto simp: encode_signed_backup_def Let_def USIZE_MAX_def)
  from encode_backup_layout [OF assms(1,2) this] decode_backup_accepts [OF assms(4)] assms(3)
  show ?thesis by blast
qed

text \<open>A concrete instance of the crates, for the witnesses.\<close>

definition toy_header :: backup_header where
  "toy_header = \<lparr>bh_version = 1, bh_kdf = \<lparr>bk_mem_kib = 65536, bk_time_cost = 3, bk_lanes = 1\<rparr>,
     bh_salt = replicate 32 0\<rparr>"

definition toy_sign :: "bytes \<Rightarrow> bytes \<Rightarrow> bytes" where
  "toy_sign seed m = to_le 32 (of_le seed) @ to_le 32 (of_le m)"

definition toy_backup :: backup_lib where
  "toy_backup = \<lparr>json_of_backup_header = (\<lambda>h. if h = toy_header then Some [9] else None),
     json_to_backup_header = (\<lambda>b. if b = [9] then Some toy_header else None),
     hkdf_expand = (\<lambda>k i. Some k), ed25519_sign = toy_sign, ed25519_public = (\<lambda>s. s),
     ed25519_sig_ok = (\<lambda>s. length s = 64), ed25519_verify = (\<lambda>k m s. s = toy_sign k m)\<rparr>"

lemma toy_backup_correct: "backup_lib_correct toy_backup"
  by (auto simp: backup_lib_correct_def toy_backup_def toy_sign_def)

abbreviation trusted_policy :: policy_context where
  "trusted_policy \<equiv> \<lparr>pc_outcome = Primary, pc_runtime_state = NotDebugged\<rparr>"

lemma trusted_policy_ok: "allow_signed_backup_transfer trusted_policy"
  by (simp add: trusted_posture_def)

lemma toy_encode:
  assumes "length container \<le> 1000"
  shows "\<exists>b. encode_signed_backup toy_backup toy_cipher (\<lambda>i n. Some (replicate n 0)) trusted_policy pw
     container (bh_kdf toy_header) = Inr b \<and> length b < 2 ^ 16"
proof -
  have n: "\<not> u64_of_len (length container) > MAX_BACKUP_PAYLOAD_LEN"
    using assms by (simp add: word_less_nat_alt u64_of_len_def unat_of_nat)
  have h: "\<lparr>bh_version = BACKUP_VERSION, bh_kdf = bh_kdf toy_header, bh_salt = replicate 32 0\<rparr> = toy_header"
    by (simp add: toy_header_def BACKUP_VERSION_def)
  have k: "derive_backup_signing_key toy_backup toy_cipher pw toy_header = Inr (as_bytes pw @ replicate 32 0)"
    by (simp add: derive_backup_signing_key_def backup_key_eq derive_master_key_ok toy_header_def
        argon2id_params_ok_def toy_cipher_def hkdf_expand_seed_def toy_backup_def)
  have sel: "json_of_backup_header toy_backup toy_header = Some [9]" "ed25519_sign toy_backup = toy_sign"
    by (simp_all add: toy_backup_def)
  show ?thesis
    using assms by (simp add: encode_signed_backup_def trusted_posture_def h k sel Let_def n
        toy_sign_def del: replicate.simps)
qed

section \<open>Properties\<close>

text \<open>C15. A backup is accepted only where the policy allows the transfer, whole and authenticated: the bytes are the magic, the version, a header
  that parses, a payload of at most 64 MiB and a signature of 64 bytes with nothing after it, and
  the key derived from the password and the header verifies the signature over every byte before
  the signature field. Where the policy allows it every such backup is accepted, with exactly its payload.\<close>

theorem decode_backup_exactly:
  assumes "length input \<le> USIZE_MAX"
  shows "decode_signed_backup K C policy pw input = Inr payload \<longleftrightarrow>
    allow_signed_backup_transfer policy \<and>
    (\<exists>hj sig. input = backup_body hj payload @ to_le 2 64 @ sig \<and> authentic K C pw hj payload sig)"
  using decode_backup_reads [OF assms] decode_backup_accepts assms by (auto simp: backup_layout_def)

theorem decode_backup_exactly_witness:
  "\<exists>b. decode_signed_backup toy_backup toy_cipher trusted_policy (lit ''pw'') b = Inr [1, 2]"
proof -
  obtain b where b: "encode_signed_backup toy_backup toy_cipher (\<lambda>i n. Some (replicate n 0)) trusted_policy
      (lit ''pw'') [1, 2] (bh_kdf toy_header) = Inr b" "length b < 2 ^ 16"
    using toy_encode [of "[1, 2]"] by auto
  obtain hj sig where "b = backup_layout hj [1, 2] sig" "authentic toy_backup toy_cipher (lit ''pw'') hj [1, 2] sig"
    using encode_backup_layout [OF b(1) toy_backup_correct] by auto
  moreover have "length b \<le> USIZE_MAX" using b(2) by (simp add: USIZE_MAX_def)
  ultimately show ?thesis
    using decode_backup_exactly [of b] trusted_policy_ok unfolding backup_layout_def by blast
qed

end
