(* ===== verification/Backup_Cases.thy ===== *)
theory Backup_Cases
  imports Backup
begin

text \<open>
  \<open>fuzz/fuzz_targets/decode_signed_backup_structured.rs\<close>: the project's structured test of
  the backup decoder. It writes a backup, damages one field and decodes. The fields are
  located and damaged here as the target does it. The target asserts only that an untouched
  backup decodes; what the decoder does with the damaged ones is proved here for every
  payload.
\<close>

section \<open>Cases\<close>

definition MAX_PAYLOAD_LEN :: nat where [limits]: "MAX_PAYLOAD_LEN = 8 * 1024"
definition MAX_TRAILING_LEN :: nat where [limits]: "MAX_TRAILING_LEN = 256"

datatype mutation_kind =
  MutNone | MutUnsupportedVersion | MutHeaderLenShrink | MutHeaderLenGrow | MutHeaderJsonFlip
| MutPayloadLenShrink | MutPayloadLenGrow | MutPayloadFlip | MutSigLenShort | MutSigLenLong
| MutSigFlip | MutAppendTrailing

record structured_case =
  sc_payload :: bytes
  sc_mutation :: mutation_kind
  sc_tweak :: u8
  sc_trailing :: bytes

record backup_offsets =
  version_start :: nat
  version_end :: nat
  header_len_start :: nat
  header_len_end :: nat
  header_json_start :: nat
  header_json_end :: nat
  payload_len_start :: nat
  payload_len_end :: nat
  payload_start :: nat
  payload_end :: nat
  sig_len_start :: nat
  sig_len_end :: nat
  sig_start :: nat
  sig_end :: nat

definition bounded_payload :: "structured_case \<Rightarrow> bytes" where
  "bounded_payload c = take MAX_PAYLOAD_LEN (sc_payload c)"

definition bounded_trailing :: "structured_case \<Rightarrow> bytes" where
  "bounded_trailing c = take MAX_TRAILING_LEN (sc_trailing c)"

definition case_kdf :: backup_kdf_policy where
  "case_kdf = \<lparr>bk_mem_kib = 64 * 1024, bk_time_cost = 3, bk_lanes = 1\<rparr>"

definition FUZZ_PASSWORD :: master_password where "FUZZ_PASSWORD = lit ''fuzz-password''"

section \<open>Locating and damaging the fields\<close>

definition checked_add_usize :: "nat \<Rightarrow> nat \<Rightarrow> nat option" where
  "checked_add_usize a b = (if a + b \<le> USIZE_MAX then Some (a + b) else None)"

text \<open>\<open>bytes.get(start..end)\<close>\<close>
definition slice_get :: "bytes \<Rightarrow> nat \<Rightarrow> nat \<Rightarrow> bytes option" where
  "slice_get input a b = (if a \<le> b \<and> b \<le> length input then Some (take (b - a) (drop a input)) else None)"

definition locate_offsets :: "bytes \<Rightarrow> backup_offsets option" where
  "locate_offsets input =
    (if length input < 8 + 2 + 4 + 8 + 2 + 64 then None
     else
       Option.bind (checked_add_usize 8 2) (\<lambda>ve.
       Option.bind (checked_add_usize ve 4) (\<lambda>hle.
       Option.bind (map_option of_le (slice_get input ve hle)) (\<lambda>header_len.
       Option.bind (checked_add_usize hle header_len) (\<lambda>hje.
       Option.bind (checked_add_usize hje 8) (\<lambda>ple.
       Option.bind (map_option of_le (slice_get input hje ple)) (\<lambda>payload_len.
       Option.bind (checked_add_usize ple payload_len) (\<lambda>pe.
       Option.bind (checked_add_usize pe 2) (\<lambda>sle.
       Option.bind (map_option of_le (slice_get input pe sle)) (\<lambda>sig_len.
       Option.bind (checked_add_usize sle sig_len) (\<lambda>se.
         if se \<noteq> length input then None
         else Some \<lparr>version_start = 8, version_end = ve, header_len_start = ve, header_len_end = hle,
           header_json_start = hle, header_json_end = hje, payload_len_start = hje, payload_len_end = ple,
           payload_start = ple, payload_end = pe, sig_len_start = pe, sig_len_end = sle,
           sig_start = sle, sig_end = se\<rparr>)))))))))))"

text \<open>The little-endian reads and writes; a write out of range leaves the bytes as they are.\<close>
definition read_le_at :: "bytes \<Rightarrow> nat \<Rightarrow> nat \<Rightarrow> nat option" where
  "read_le_at input a b = map_option of_le (slice_get input a b)"

definition write_le_at :: "nat \<Rightarrow> bytes \<Rightarrow> nat \<Rightarrow> nat \<Rightarrow> nat \<Rightarrow> bytes" where
  "write_le_at k input a b v =
    (case slice_get input a b of None \<Rightarrow> input | Some _ \<Rightarrow> take a input @ to_le k v @ drop b input)"

definition flip_in :: "bytes \<Rightarrow> nat \<Rightarrow> nat \<Rightarrow> u8 \<Rightarrow> bytes" where
  "flip_in input a b tweak =
    (if a < b then let i = a + unat tweak mod (b - a) in input[i := xor (input ! i) 1] else input)"

definition apply_mutation :: "bytes \<Rightarrow> mutation_kind \<Rightarrow> u8 \<Rightarrow> bytes \<Rightarrow> bytes" where
  "apply_mutation input mutation tweak trailing =
    (case locate_offsets input of
       None \<Rightarrow> input
     | Some f \<Rightarrow>
        (case mutation of
           MutNone \<Rightarrow> input
         | MutUnsupportedVersion \<Rightarrow> write_le_at 2 input (version_start f) (version_end f) 0xFFFF
         | MutHeaderLenShrink \<Rightarrow>
             (case read_le_at input (header_len_start f) (header_len_end f) of
                None \<Rightarrow> input
              | Some n \<Rightarrow> if n > 1 then write_le_at 4 input (header_len_start f) (header_len_end f) (n - 1)
                         else input)
         | MutHeaderLenGrow \<Rightarrow>
             (case read_le_at input (header_len_start f) (header_len_end f) of
                None \<Rightarrow> input
              | Some n \<Rightarrow> write_le_at 4 input (header_len_start f) (header_len_end f) (min (n + 1) (2 ^ 32 - 1)))
         | MutHeaderJsonFlip \<Rightarrow> flip_in input (header_json_start f) (header_json_end f) tweak
         | MutPayloadLenShrink \<Rightarrow>
             (case read_le_at input (payload_len_start f) (payload_len_end f) of
                None \<Rightarrow> input
              | Some n \<Rightarrow> if n > 0 then write_le_at 8 input (payload_len_start f) (payload_len_end f) (n - 1)
                         else input)
         | MutPayloadLenGrow \<Rightarrow>
             (case read_le_at input (payload_len_start f) (payload_len_end f) of
                None \<Rightarrow> input
              | Some n \<Rightarrow> write_le_at 8 input (payload_len_start f) (payload_len_end f) (min (n + 1) (2 ^ 64 - 1)))
         | MutPayloadFlip \<Rightarrow> flip_in input (payload_start f) (payload_end f) tweak
         | MutSigLenShort \<Rightarrow> write_le_at 2 input (sig_len_start f) (sig_len_end f) 63
         | MutSigLenLong \<Rightarrow> write_le_at 2 input (sig_len_start f) (sig_len_end f) 65
         | MutSigFlip \<Rightarrow> flip_in input (sig_start f) (sig_end f) tweak
         | MutAppendTrailing \<Rightarrow> input @ trailing))"

text \<open>The target: \<open>False\<close> is a failed \<open>expect\<close> or assertion.\<close>
definition structured_case_passes ::
    "backup_lib \<Rightarrow> crypto_lib \<Rightarrow> rng \<Rightarrow> runtime_inspection_state \<Rightarrow> structured_case \<Rightarrow> bool" where
  "structured_case_passes K C rnd probe c =
    (case encode_signed_backup K C rnd (policy_new probe Primary) FUZZ_PASSWORD (bounded_payload c) case_kdf of
       Inl _ \<Rightarrow> False
     | Inr encoded \<Rightarrow>
         let mutated = apply_mutation encoded (sc_mutation c) (sc_tweak c) (bounded_trailing c);
             result = decode_signed_backup K C (policy_new probe Primary) FUZZ_PASSWORD mutated
         in if sc_mutation c = MutNone then result = Inr (bounded_payload c) else True)"

section \<open>Lemmas\<close>

lemma field_inject:
  assumes "to_le k (length a) @ a @ x = to_le k (length b) @ b @ y"
    and "length a < 256 ^ k" and "length b < 256 ^ k"
  shows "a = b \<and> x = y"
proof -
  have "to_le k (length a) = to_le k (length b)" "a @ x = b @ y" using assms(1) by simp_all
  moreover from this(1) have "length a = length b" by (rule to_le_inject [OF _ assms(2,3)])
  ultimately show ?thesis by simp
qed

text \<open>The bytes determine the fields, whatever follows the payload.\<close>

lemma body_inject:
  assumes "backup_body hj p @ x = backup_body hj' p' @ y"
    and "length hj < 2 ^ 32" "length hj' < 2 ^ 32" "length p < 2 ^ 64" "length p' < 2 ^ 64"
  shows "hj = hj' \<and> p = p' \<and> x = y"
  using field_inject [of 4 hj "to_le 8 (length p) @ p @ x" hj' "to_le 8 (length p') @ p' @ y"]
    field_inject [of 8 p x p' y] assms by (simp add: backup_body_def)

lemma slice_get_append [simp]:
  "slice_get (a @ b @ c) (length a) (length a + length b) = Some b"
  by (simp add: slice_get_def)

lemma body_length: "length (backup_body hj p) = 22 + length hj + length p"
  by (simp add: backup_body_def)

definition layout_offsets :: "bytes \<Rightarrow> bytes \<Rightarrow> backup_offsets" where
  "layout_offsets hj p = \<lparr>version_start = 8, version_end = 10, header_len_start = 10, header_len_end = 14,
     header_json_start = 14, header_json_end = 14 + length hj, payload_len_start = 14 + length hj,
     payload_len_end = 22 + length hj, payload_start = 22 + length hj, payload_end = 22 + length hj + length p,
     sig_len_start = 22 + length hj + length p, sig_len_end = 24 + length hj + length p,
     sig_start = 24 + length hj + length p, sig_end = 88 + length hj + length p\<rparr>"

lemma layout_slices:
  assumes "length sig = 64"
  shows "slice_get (backup_layout hj p sig) 10 14 = Some (to_le 4 (length hj))"
    and "slice_get (backup_layout hj p sig) (14 + length hj) (22 + length hj) = Some (to_le 8 (length p))"
    and "slice_get (backup_layout hj p sig) (22 + length hj + length p) (24 + length hj + length p) =
      Some (to_le 2 64)"
  using assms by (simp_all add: slice_get_def backup_layout_def backup_body_def)

lemma locate_layout:
  assumes "length sig = 64" and "length hj < 2 ^ 32" and "length p < 2 ^ 64"
    and "length (backup_layout hj p sig) \<le> USIZE_MAX"
  shows "locate_offsets (backup_layout hj p sig) = Some (layout_offsets hj p)"
proof -
  have l: "length (backup_layout hj p sig) = 88 + length hj + length p"
    using assms(1) by (simp add: backup_layout_def body_length)
  have n: "of_le (to_le 4 (length hj)) = length hj" "of_le (to_le 8 (length p)) = length p"
    "of_le (to_le 2 64) = 64"
    using assms(2,3) by (simp_all add: of_le_to_le_id del: to_le.simps)
  show ?thesis
    using layout_slices [OF assms(1), of hj p] assms(4) l n
    by (simp add: locate_offsets_def checked_add_usize_def layout_offsets_def add.commute add.left_commute
        del: to_le.simps)
qed

text \<open>The damage to the version, to the length of the signature and at the end.\<close>

lemma damaged_forms:
  assumes "length sig = 64" and "length hj < 2 ^ 32" and "length p < 2 ^ 64"
    and "length (backup_layout hj p sig) \<le> USIZE_MAX"
  shows "take 2 (drop 8 (apply_mutation (backup_layout hj p sig) MutUnsupportedVersion tweak t)) = to_le 2 0xFFFF"
    and "apply_mutation (backup_layout hj p sig) MutSigLenShort tweak t = backup_body hj p @ to_le 2 63 @ sig"
    and "apply_mutation (backup_layout hj p sig) MutSigLenLong tweak t = backup_body hj p @ to_le 2 65 @ sig"
    and "apply_mutation (backup_layout hj p sig) MutAppendTrailing tweak t = backup_body hj p @ to_le 2 64 @ sig @ t"
    and "apply_mutation (backup_layout hj p sig) MutNone tweak t = backup_layout hj p sig"
proof -
  let ?b = "backup_layout hj p sig"
  note f = locate_layout [OF assms]
  have "slice_get ?b 8 10 \<noteq> None" by (simp add: slice_get_def backup_layout_def body_length)
  then have "apply_mutation ?b MutUnsupportedVersion tweak t = take 8 ?b @ to_le 2 0xFFFF @ drop 10 ?b"
    by (auto simp: apply_mutation_def f layout_offsets_def write_le_at_def simp del: to_le.simps)
  moreover have "length (take 8 ?b) = 8" by (simp add: backup_layout_def body_length)
  ultimately show "take 2 (drop 8 (apply_mutation ?b MutUnsupportedVersion tweak t)) = to_le 2 0xFFFF"
    by (simp del: to_le.simps length_take)
  have b: "take (22 + length hj + length p) ?b = backup_body hj p" "drop (24 + length hj + length p) ?b = sig"
    by (simp_all add: backup_layout_def body_length)
  show "apply_mutation ?b MutSigLenShort tweak t = backup_body hj p @ to_le 2 63 @ sig"
    "apply_mutation ?b MutSigLenLong tweak t = backup_body hj p @ to_le 2 65 @ sig"
    "apply_mutation ?b MutAppendTrailing tweak t = backup_body hj p @ to_le 2 64 @ sig @ t"
    "apply_mutation ?b MutNone tweak t = ?b"
    using layout_slices(3) [OF assms(1), of hj p] b
    by (simp_all add: apply_mutation_def f layout_offsets_def write_le_at_def del: to_le.simps)
      (simp add: backup_layout_def)
qed

lemma damaged_not_layout:
  assumes "length sig = 64" and "length hj < 2 ^ 32" and "length p < 2 ^ 64"
    and "length (backup_layout hj p sig) \<le> USIZE_MAX"
    and "length hj' < 2 ^ 32" and "length p' < 2 ^ 64" and "length sig' = 64"
    and "kind \<in> {MutUnsupportedVersion, MutSigLenShort, MutSigLenLong} \<or> kind = MutAppendTrailing \<and> t \<noteq> []"
  shows "apply_mutation (backup_layout hj p sig) kind tweak t \<noteq> backup_layout hj' p' sig'"
proof
  assume e: "apply_mutation (backup_layout hj p sig) kind tweak t = backup_layout hj' p' sig'"
  note forms = damaged_forms [OF assms(1-4), of tweak t]
  have tail: "x = to_le 2 64 @ sig'" if "backup_body hj p @ x = backup_layout hj' p' sig'" for x
    using body_inject [OF that [unfolded backup_layout_def] assms(2,5,3,6)] by blast
  have two: "m = 64" if "to_le 2 m @ sig = to_le 2 64 @ sig'" "m < 256 ^ 2" for m
  proof -
    from that(1) have "to_le 2 m = to_le 2 64" by (simp only: append_eq_append_conv length_to_le simp_thms)
    then show ?thesis by (rule to_le_inject [OF _ that(2)]) simp
  qed
  consider "kind = MutUnsupportedVersion" | "kind = MutSigLenShort" | "kind = MutSigLenLong"
    | "kind = MutAppendTrailing" "t \<noteq> []" using assms(8) by auto
  then show False
  proof cases
    case 1
    have "take 2 (drop 8 (backup_layout hj' p' sig')) = to_le 2 1"
      by (simp add: backup_layout_def backup_body_def BACKUP_VERSION_def del: to_le.simps)
    with forms(1) e 1 have "to_le 2 0xFFFF = to_le 2 1" by (simp del: to_le.simps)
    then show False using to_le_inject [of 2 "0xFFFF" 1] by simp
  next
    case 2
    with e forms(2) have "backup_body hj p @ to_le 2 63 @ sig = backup_layout hj' p' sig'" by metis
    from two [OF tail [OF this]] show False by simp
  next
    case 3
    with e forms(3) have "backup_body hj p @ to_le 2 65 @ sig = backup_layout hj' p' sig'" by metis
    from two [OF tail [OF this]] show False by simp
  next
    case 4
    with e forms(4) have "backup_body hj p @ to_le 2 64 @ sig @ t = backup_layout hj' p' sig'" by metis
    from tail [OF this] have "sig @ t = sig'" by (simp only: same_append_eq)
    with 4(2) assms(1,7) show False by auto
  qed
qed

lemma flip_length [simp]: "length (flip_in input a b tweak) = length input"
  by (simp add: flip_in_def Let_def)

lemma write_length: "b = a + k \<Longrightarrow> length (write_le_at k input a b v) = length input"
  by (auto simp: write_le_at_def slice_get_def split: option.splits if_splits)

lemma damaged_length:
  assumes "length sig = 64" and "length hj < 2 ^ 32" and "length p < 2 ^ 64"
    and "length (backup_layout hj p sig) \<le> USIZE_MAX"
  shows "length (apply_mutation (backup_layout hj p sig) kind tweak t) \<le> length (backup_layout hj p sig) + length t"
  unfolding apply_mutation_def locate_layout [OF assms]
  by (cases kind) (auto simp: layout_offsets_def write_length split: option.splits)

section \<open>Properties\<close>

text \<open>The target asserts nothing about a damaged backup, and its \<open>expect\<close> fails where the runtime forbids the
  transfer: it passes on a case exactly when the backup could be written.\<close>

lemma structured_case_passes_iff:
  assumes "backup_lib_correct K"
    and "\<And>b. encode_signed_backup K C rnd (policy_new probe Primary) FUZZ_PASSWORD (bounded_payload c) case_kdf = Inr b \<Longrightarrow>
      length b \<le> USIZE_MAX"
  shows "structured_case_passes K C rnd probe c \<longleftrightarrow>
    is_ok (encode_signed_backup K C rnd (policy_new probe Primary) FUZZ_PASSWORD (bounded_payload c) case_kdf)"
proof (cases "encode_signed_backup K C rnd (policy_new probe Primary) FUZZ_PASSWORD (bounded_payload c) case_kdf")
  case (Inr backup)
  have pay: "length (bounded_payload c) < 2 ^ 64" by (simp add: bounded_payload_def MAX_PAYLOAD_LEN_def min_def)
  from encode_backup_layout [OF Inr assms(1) pay] obtain hj sig where
    b: "backup = backup_layout hj (bounded_payload c) sig"
    and au: "authentic K C FUZZ_PASSWORD hj (bounded_payload c) sig" by blast
  have l: "length sig = 64" "length hj < 2 ^ 32" using au by (simp_all add: authentic_def)
  have n: "length (backup_layout hj (bounded_payload c) sig) \<le> USIZE_MAX" using assms(2) [OF Inr] b by simp
  have al: "allow_signed_backup_transfer (policy_new probe Primary)"
    using Inr by (auto simp: encode_signed_backup_def split: if_splits)
  show ?thesis
    using Inr decode_backup_accepts [OF al au n] damaged_forms(5) [OF l pay n] b
    by (simp add: structured_case_passes_def)
qed (simp add: structured_case_passes_def)

text \<open>C16. What the decoder does with the backups the structured test writes and damages, once the backup could
  be written (the runtime allows the transfer) and with signatures that verify as documented. An untouched
  backup decodes to its payload; a foreign version, a signature length of 63 or 65 and trailing bytes are
  never accepted; and damage of any kind that changed the bytes is accepted only when the bytes are again a
  complete container whose 64 signature bytes verify, under the key derived from the test's password and
  the header found in the damaged bytes, over everything before the signature field, and that message
  or that signature is not the one the writer has produced: a forgery, or another signature of the
  same message.\<close>

theorem damaged_backup_rejected:
  assumes "encode_signed_backup K C rnd (policy_new probe Primary) FUZZ_PASSWORD (bounded_payload c) case_kdf
      = Inr backup"
    and "backup_lib_correct K" and "length backup + 256 \<le> USIZE_MAX"
    and "damaged = apply_mutation backup (sc_mutation c) (sc_tweak c) (bounded_trailing c)"
  shows "(sc_mutation c = MutNone \<longrightarrow>
       decode_signed_backup K C (policy_new probe Primary) FUZZ_PASSWORD damaged = Inr (bounded_payload c)) \<and>
    (sc_mutation c \<in> {MutUnsupportedVersion, MutSigLenShort, MutSigLenLong} \<or>
       sc_mutation c = MutAppendTrailing \<and> bounded_trailing c \<noteq> [] \<longrightarrow>
       \<not> is_ok (decode_signed_backup K C (policy_new probe Primary) FUZZ_PASSWORD damaged)) \<and>
    (\<exists>hj s. backup = backup_body hj (bounded_payload c) @ to_le 2 64 @ s \<and>
       (\<forall>p. decode_signed_backup K C (policy_new probe Primary) FUZZ_PASSWORD damaged = Inr p \<and> damaged \<noteq> backup \<longrightarrow>
         (\<exists>hj' s' header seed. damaged = backup_body hj' p @ to_le 2 64 @ s' \<and> length s' = 64 \<and>
            (backup_body hj' p \<noteq> backup_body hj (bounded_payload c) \<or> s' \<noteq> s) \<and>
            json_to_backup_header K hj' = Some header \<and>
            derive_backup_signing_key K C FUZZ_PASSWORD header = Inr seed \<and>
            ed25519_verify K (ed25519_public K seed) (backup_body hj' p) s')))"
proof -
  let ?D = "decode_signed_backup K C (policy_new probe Primary) FUZZ_PASSWORD"
  have pay: "length (bounded_payload c) < 2 ^ 64" by (simp add: bounded_payload_def MAX_PAYLOAD_LEN_def min_def)
  from encode_backup_layout [OF assms(1,2) pay] obtain hj sig where
    b: "backup = backup_layout hj (bounded_payload c) sig"
    and au: "authentic K C FUZZ_PASSWORD hj (bounded_payload c) sig" by blast
  have l: "length sig = 64" "length hj < 2 ^ 32" using au by (simp_all add: authentic_def)
  have n: "length (backup_layout hj (bounded_payload c) sig) \<le> USIZE_MAX" using assms(3) b by simp
  have "length damaged \<le> length backup + length (bounded_trailing c)"
    unfolding assms(4) b by (rule damaged_length [OF l pay n])
  then have dl: "length damaged \<le> USIZE_MAX"
    using assms(3) by (simp add: bounded_trailing_def MAX_TRAILING_LEN_def min_def split: if_splits)
  have al: "allow_signed_backup_transfer (policy_new probe Primary)"
    using assms(1) by (auto simp: encode_signed_backup_def split: if_splits)
  have rej: "\<not> is_ok (?D damaged)"
    if "sc_mutation c \<in> {MutUnsupportedVersion, MutSigLenShort, MutSigLenLong} \<or>
       sc_mutation c = MutAppendTrailing \<and> bounded_trailing c \<noteq> []"
  proof
    assume "is_ok (?D damaged)"
    then obtain p where "?D damaged = Inr p" by (auto simp: is_ok_iff)
    from decode_backup_reads [OF dl this] obtain hj' sig' where
      d: "damaged = backup_layout hj' p sig'" "authentic K C FUZZ_PASSWORD hj' p sig'" by blast
    then have "length hj' < 2 ^ 32" "length p < 2 ^ 64" "length sig' = 64" by (simp_all add: authentic_def)
    from damaged_not_layout [OF l pay n this that] d(1) assms(4) b show False by simp
  qed
  have none: "?D damaged = Inr (bounded_payload c)" if "sc_mutation c = MutNone"
    using decode_backup_accepts [OF al au n] damaged_forms(5) [OF l pay n] b assms(4) that by simp
  have forged: "\<exists>hj' s' header seed. damaged = backup_body hj' p @ to_le 2 64 @ s' \<and> length s' = 64 \<and>
      (backup_body hj' p \<noteq> backup_body hj (bounded_payload c) \<or> s' \<noteq> sig) \<and>
      json_to_backup_header K hj' = Some header \<and> derive_backup_signing_key K C FUZZ_PASSWORD header = Inr seed \<and>
      ed25519_verify K (ed25519_public K seed) (backup_body hj' p) s'" if "?D damaged = Inr p" "damaged \<noteq> backup" for p
  proof -
    from decode_backup_reads [OF dl that(1)] obtain hj' s' where
      d: "damaged = backup_layout hj' p s'" and a: "authentic K C FUZZ_PASSWORD hj' p s'" by blast
    from a obtain header seed where "json_to_backup_header K hj' = Some header"
      "derive_backup_signing_key K C FUZZ_PASSWORD header = Inr seed"
      "ed25519_verify K (ed25519_public K seed) (backup_body hj' p) s'" "length s' = 64" by (auto simp: authentic_def)
    moreover have "backup_body hj' p \<noteq> backup_body hj (bounded_payload c) \<or> s' \<noteq> sig"
      using that(2) b d by (auto simp: backup_layout_def)
    ultimately show ?thesis using d unfolding backup_layout_def by blast
  qed
  have "backup = backup_body hj (bounded_payload c) @ to_le 2 64 @ sig" using b by (simp add: backup_layout_def)
  with rej none forged show ?thesis by blast
qed

theorem damaged_backup_rejected_witness:
  "\<exists>backup. encode_signed_backup toy_backup toy_cipher (\<lambda>i n. Some (replicate n 0)) trusted_policy FUZZ_PASSWORD
      [1, 2] case_kdf = Inr backup \<and>
    \<not> is_ok (decode_signed_backup toy_backup toy_cipher trusted_policy FUZZ_PASSWORD
        (apply_mutation backup MutAppendTrailing 0 [3]))"
proof -
  let ?c = "\<lparr>sc_payload = [1, 2], sc_mutation = MutAppendTrailing, sc_tweak = 0, sc_trailing = [3]\<rparr>"
  have k: "bh_kdf toy_header = case_kdf" by (simp add: toy_header_def case_kdf_def)
  have p: "policy_new NotDebugged Primary = trusted_policy" by (simp add: policy_new_def)
  obtain backup where b: "encode_signed_backup toy_backup toy_cipher (\<lambda>i n. Some (replicate n 0)) trusted_policy
      FUZZ_PASSWORD [1, 2] case_kdf = Inr backup" "length backup < 2 ^ 16"
    using toy_encode [of "[1, 2]" FUZZ_PASSWORD] by (auto simp: k)
  have c: "bounded_payload ?c = [1, 2]" "bounded_trailing ?c = [3]"
    by (simp_all add: bounded_payload_def bounded_trailing_def MAX_PAYLOAD_LEN_def MAX_TRAILING_LEN_def)
  have "length backup + 256 \<le> USIZE_MAX" using b(2) by (simp add: USIZE_MAX_def)
  from damaged_backup_rejected [of _ _ _ NotDebugged ?c, unfolded p c, OF b(1) toy_backup_correct this refl] b(1)
  show ?thesis by simp
qed

end
