(* ===== verification/Duress.thy ===== *)
theory Duress
  imports Vault_Codec
begin

text \<open>
  \<open>vault/duress.rs\<close>, \<open>vault/create.rs\<close> and \<open>vault/migrate.rs\<close>: the dual-ciphertext
  envelope and its two branches, the creation of plain and duress vaults, and the
  conversion of an encrypted vault into a duress vault. Fresh salts and nonces are
  the answers of the random source \<open>rnd\<close> to the requests in the order they are made.
\<close>

section \<open>The envelope (vault/duress.rs)\<close>

definition validate_payload_json :: "json_lib \<Rightarrow> bytes \<Rightarrow> vault_parse_error + unit" where
  "validate_payload_json J plaintext_json =
    map_err (\<lambda>_. InvalidPayload) (rbind (ok_or () (payload_from_slice J plaintext_json)) (\<lambda>_. Inr ()))"

definition decrypt_with_crypto_header ::
    "crypto_lib \<Rightarrow> bytes \<Rightarrow> crypto_header \<Rightarrow> bytes \<Rightarrow> master_password \<Rightarrow> vault_parse_error + bytes" where
  "decrypt_with_crypto_header C header_bytes ch ciphertext password =
    (case ch_kdf ch of Argon2id mem_kib time_cost lanes \<Rightarrow>
      rbind (map_err (\<lambda>_. AuthFailed)
               (derive_master_key_from_password C password (ch_salt ch) mem_kib time_cost lanes))
        (\<lambda>key. map_err (\<lambda>_. AuthFailed)
           (decrypt_xchacha20poly1305 C key (ch_nonce ch) ciphertext header_bytes)))"

definition encrypt_with_crypto_header ::
    "crypto_lib \<Rightarrow> bytes \<Rightarrow> crypto_header \<Rightarrow> bytes \<Rightarrow> master_password \<Rightarrow> vault_parse_error + bytes" where
  "encrypt_with_crypto_header C header_bytes ch plaintext password =
    (case ch_kdf ch of Argon2id mem_kib time_cost lanes \<Rightarrow>
      rbind (map_err (\<lambda>_. AuthFailed)
               (derive_master_key_from_password C password (ch_salt ch) mem_kib time_cost lanes))
        (\<lambda>key. map_err (\<lambda>_. AuthFailed)
           (encrypt_xchacha20poly1305 C key (ch_nonce ch) plaintext header_bytes)))"

definition unlock_duress_envelope_to_plaintext_json ::
    "json_lib \<Rightarrow> crypto_lib \<Rightarrow> bytes \<Rightarrow> dual_vault_header \<Rightarrow> dual_ciphertext_envelope \<Rightarrow> master_password
      \<Rightarrow> vault_parse_error + unlock_outcome \<times> secret_bytes" where
  "unlock_duress_envelope_to_plaintext_json J C header_bytes duress_header envelope password =
    (case decrypt_with_crypto_header C header_bytes (dh_primary duress_header)
            (env_primary_ct envelope) password of
       Inr pt \<Rightarrow> rbind (validate_payload_json J pt) (\<lambda>_. Inr (Primary, pt))
     | Inl _ \<Rightarrow>
        (case decrypt_with_crypto_header C header_bytes (dh_decoy duress_header)
                (env_decoy_ct envelope) password of
           Inr pt \<Rightarrow> rbind (validate_payload_json J pt) (\<lambda>_. Inr (Decoy, pt))
         | Inl _ \<Rightarrow> Inl AuthFailed))"

definition unlock_duress_envelope ::
    "json_lib \<Rightarrow> crypto_lib \<Rightarrow> bytes \<Rightarrow> dual_vault_header \<Rightarrow> dual_ciphertext_envelope \<Rightarrow> master_password
      \<Rightarrow> vault_parse_error + unlock_outcome \<times> vault_payload" where
  "unlock_duress_envelope J C header_bytes duress_header envelope password =
    rbind (unlock_duress_envelope_to_plaintext_json J C header_bytes duress_header envelope password)
      (\<lambda>(outcome, plaintext_json).
        rbind (ok_or InvalidPayload (payload_from_slice J plaintext_json))
          (\<lambda>payload. Inr (outcome, payload)))"

definition encrypt_duress_envelope_from_plaintext_json ::
    "json_lib \<Rightarrow> crypto_lib \<Rightarrow> bytes \<Rightarrow> dual_vault_header \<Rightarrow> master_password \<Rightarrow> master_password
      \<Rightarrow> bytes \<Rightarrow> bytes \<Rightarrow> vault_parse_error + dual_ciphertext_envelope" where
  "encrypt_duress_envelope_from_plaintext_json J C header_bytes duress_header
      primary_password decoy_password primary_plaintext_json decoy_plaintext_json =
    rbind (validate_payload_json J primary_plaintext_json) (\<lambda>_.
    rbind (validate_payload_json J decoy_plaintext_json) (\<lambda>_.
    rbind (encrypt_with_crypto_header C header_bytes (dh_primary duress_header)
             primary_plaintext_json primary_password) (\<lambda>primary_ct.
    rbind (encrypt_with_crypto_header C header_bytes (dh_decoy duress_header)
             decoy_plaintext_json decoy_password) (\<lambda>decoy_ct.
      Inr \<lparr>env_primary_ct = primary_ct, env_decoy_ct = decoy_ct\<rparr>))))"

definition encrypt_duress_envelope ::
    "json_lib \<Rightarrow> crypto_lib \<Rightarrow> bytes \<Rightarrow> dual_vault_header \<Rightarrow> master_password \<Rightarrow> master_password
      \<Rightarrow> vault_payload \<Rightarrow> vault_payload \<Rightarrow> vault_parse_error + dual_ciphertext_envelope" where
  "encrypt_duress_envelope J C header_bytes duress_header primary_password decoy_password
      primary_payload decoy_payload =
    rbind (ok_or Serialize (payload_to_vec J primary_payload)) (\<lambda>primary_pt.
    rbind (ok_or Serialize (payload_to_vec J decoy_payload)) (\<lambda>decoy_pt.
      encrypt_duress_envelope_from_plaintext_json J C header_bytes duress_header
        primary_password decoy_password primary_pt decoy_pt))"

section \<open>Creation (vault/create.rs)\<close>

record vault_kdf_policy =
  kp_mem_kib :: u32
  kp_time_cost :: u32
  kp_lanes :: u32

definition as_kdf_params :: "vault_kdf_policy \<Rightarrow> kdf_params" where
  "as_kdf_params p = Argon2id (kp_mem_kib p) (kp_time_cost p) (kp_lanes p)"

definition fill :: "rng \<Rightarrow> nat \<Rightarrow> nat \<Rightarrow> vault_parse_error + bytes" where
  "fill rnd i n = ok_or Serialize (rnd i n)"

definition create_encrypted_vault ::
    "json_lib \<Rightarrow> crypto_lib \<Rightarrow> rng \<Rightarrow> uuid \<Rightarrow> master_password \<Rightarrow> vault_payload \<Rightarrow> u16
      \<Rightarrow> vault_kdf_policy \<Rightarrow> vault_parse_error + vault_file" where
  "create_encrypted_vault J C rnd new_id password payload schema_version kdf =
    rbind (fill rnd 0 SALT_LEN) (\<lambda>salt.
    rbind (fill rnd 1 XCHACHA20_NONCE_LEN) (\<lambda>nonce.
    let crypto = \<lparr>ch_kdf = as_kdf_params kdf, ch_aead = XChaCha20Poly1305,
                  ch_salt = salt, ch_nonce = nonce\<rparr>;
        header = \<lparr>vh_schema_version = schema_version, vh_vault_id = new_id,
                  vh_crypto = crypto, vh_duress = None\<rparr>
    in
    rbind (ok_or Serialize (json_of_header J header)) (\<lambda>header_bytes.
    rbind (map_err (\<lambda>_. InvalidHeader) (derive_master_key_from_password C password salt
             (kp_mem_kib kdf) (kp_time_cost kdf) (kp_lanes kdf))) (\<lambda>master_key.
    rbind (ok_or Serialize (payload_to_vec J payload)) (\<lambda>plaintext.
    rbind (map_err (\<lambda>_. Serialize)
             (encrypt_xchacha20poly1305 C master_key nonce plaintext header_bytes)) (\<lambda>ciphertext.
      Inr \<lparr>vf_header = header, vf_storage = SEncrypted ciphertext\<rparr>))))))"

text \<open>The header that both creation and migration build for a duress vault.\<close>
definition duress_vault_header ::
    "u16 \<Rightarrow> uuid \<Rightarrow> vault_kdf_policy \<Rightarrow> bytes \<Rightarrow> bytes \<Rightarrow> bytes \<Rightarrow> bytes \<Rightarrow> vault_header" where
  "duress_vault_header schema_version vault_id kdf salt1 nonce1 salt2 nonce2 =
    (let primary_crypto = \<lparr>ch_kdf = as_kdf_params kdf, ch_aead = XChaCha20Poly1305,
                           ch_salt = salt1, ch_nonce = nonce1\<rparr>;
         decoy_crypto = \<lparr>ch_kdf = as_kdf_params kdf, ch_aead = XChaCha20Poly1305,
                         ch_salt = salt2, ch_nonce = nonce2\<rparr>
     in \<lparr>vh_schema_version = schema_version, vh_vault_id = vault_id, vh_crypto = primary_crypto,
         vh_duress = Some \<lparr>dh_primary = primary_crypto, dh_decoy = decoy_crypto\<rparr>\<rparr>)"

definition create_duress_vault ::
    "json_lib \<Rightarrow> crypto_lib \<Rightarrow> rng \<Rightarrow> uuid \<Rightarrow> master_password \<Rightarrow> master_password \<Rightarrow> vault_payload
      \<Rightarrow> vault_payload \<Rightarrow> u16 \<Rightarrow> vault_kdf_policy \<Rightarrow> vault_parse_error + vault_file" where
  "create_duress_vault J C rnd new_id primary_password decoy_password primary_payload decoy_payload
      schema_version kdf =
    rbind (fill rnd 0 SALT_LEN) (\<lambda>salt1.
    rbind (fill rnd 1 XCHACHA20_NONCE_LEN) (\<lambda>nonce1.
    rbind (fill rnd 2 SALT_LEN) (\<lambda>salt2.
    rbind (fill rnd 3 XCHACHA20_NONCE_LEN) (\<lambda>nonce2.
    let header = duress_vault_header schema_version new_id kdf salt1 nonce1 salt2 nonce2 in
    rbind (ok_or Serialize (json_of_header J header)) (\<lambda>header_bytes.
    rbind (ok_or InvalidHeader (vh_duress header)) (\<lambda>duress_header.
    rbind (encrypt_duress_envelope J C header_bytes duress_header primary_password decoy_password
             primary_payload decoy_payload) (\<lambda>envelope.
    rbind (ok_or Serialize (json_of_envelope J envelope)) (\<lambda>ciphertext.
      Inr \<lparr>vf_header = header, vf_storage = SEncrypted ciphertext\<rparr>))))))))"

section \<open>Migration (vault/migrate.rs)\<close>

text \<open>
  The legacy ciphertext is opened with a \<^emph>\<open>re-serialised\<close> header as associated data,
  not with the header bytes of the file it came from.
\<close>

definition enable_duress_on_vault ::
    "json_lib \<Rightarrow> crypto_lib \<Rightarrow> rng \<Rightarrow> vault_file \<Rightarrow> master_password \<Rightarrow> master_password \<Rightarrow> vault_payload
      \<Rightarrow> vault_kdf_policy \<Rightarrow> vault_parse_error + vault_file" where
  "enable_duress_on_vault J C rnd vault primary_password decoy_password decoy_payload kdf =
    (case vf_storage vault of
       SPlaintextJson _ \<Rightarrow> Inl InvalidHeader
     | SEncrypted legacy_ciphertext \<Rightarrow>
       guard (vh_duress (vf_header vault) \<noteq> None) InvalidHeader
       (case ch_kdf (vh_crypto (vf_header vault)) of Argon2id mem_kib time_cost lanes \<Rightarrow>
       rbind (map_err (\<lambda>_. AuthFailed) (derive_master_key_from_password C primary_password
                (ch_salt (vh_crypto (vf_header vault))) mem_kib time_cost lanes)) (\<lambda>primary_key.
       rbind (ok_or Serialize (json_of_header J (vf_header vault))) (\<lambda>legacy_header_bytes.
       rbind (map_err (\<lambda>_. AuthFailed) (decrypt_xchacha20poly1305 C primary_key
                (ch_nonce (vh_crypto (vf_header vault))) legacy_ciphertext legacy_header_bytes))
         (\<lambda>primary_plaintext_json.
       rbind (ok_or InvalidPayload (payload_from_slice J primary_plaintext_json)) (\<lambda>_.
       rbind (ok_or Serialize (payload_to_vec J decoy_payload)) (\<lambda>decoy_plaintext_json.
       rbind (fill rnd 0 SALT_LEN) (\<lambda>salt1.
       rbind (fill rnd 1 XCHACHA20_NONCE_LEN) (\<lambda>nonce1.
       rbind (fill rnd 2 SALT_LEN) (\<lambda>salt2.
       rbind (fill rnd 3 XCHACHA20_NONCE_LEN) (\<lambda>nonce2.
       let new_header = duress_vault_header (vh_schema_version (vf_header vault))
             (vh_vault_id (vf_header vault)) kdf salt1 nonce1 salt2 nonce2 in
       rbind (ok_or Serialize (json_of_header J new_header)) (\<lambda>header_bytes.
       rbind (ok_or InvalidHeader (vh_duress new_header)) (\<lambda>duress_ref.
       rbind (encrypt_duress_envelope_from_plaintext_json J C header_bytes duress_ref
                primary_password decoy_password primary_plaintext_json decoy_plaintext_json)
         (\<lambda>envelope.
       rbind (ok_or Serialize (json_of_envelope J envelope)) (\<lambda>ciphertext.
         Inr \<lparr>vf_header = new_header, vf_storage = SEncrypted ciphertext\<rparr>)))))))))))))))"

section \<open>Lemmas: payloads across the JSON boundary\<close>

definition payload_ok :: "vault_payload \<Rightarrow> bool" where
  "payload_ok p \<longleftrightarrow> list_all entry_ok (vp_entries p)"

lemma payload_eta [simp]: "\<lparr>vp_entries = vp_entries p\<rparr> = p"
  by (cases p) simp

lemma entries_from_dtos_map:
  "entries_from_dtos (map entry_to_dto es) = (if list_all entry_ok es then Some es else None)"
  by (induction es) (auto simp: entry_from_to_dto)

lemma entries_from_dtos_Some:
  "entries_from_dtos ds = Some es \<Longrightarrow> list_all entry_ok es \<and> map entry_to_dto es = ds"
  by (induction ds arbitrary: es) (auto split: option.splits dest: entry_from_dto_Some)

text \<open>What a payload looks like once it was read back from its own bytes.\<close>

lemma payload_from_to_vec:
  assumes "payload_json_ok J (map entry_to_dto (vp_entries p))" and "payload_to_vec J p = Some bs"
  shows "payload_from_slice J bs = (if payload_ok p then Some p else None)"
  using assms by (auto simp: payload_json_ok_def payload_to_vec_def payload_from_slice_def
      entries_from_dtos_map payload_ok_def)

lemma payload_from_slice_ok: "payload_from_slice J bs = Some p \<Longrightarrow> payload_ok p"
  by (auto simp: payload_from_slice_def payload_ok_def split: option.splits
      dest: entries_from_dtos_Some)

lemma validate_payload_json_ok [simp]:
  "validate_payload_json J bs = Inr v \<longleftrightarrow> (\<exists>p. payload_from_slice J bs = Some p)"
  by (auto simp: validate_payload_json_def)

lemma validate_payload_json_err [simp]:
  "validate_payload_json J bs = Inl x \<longleftrightarrow> payload_from_slice J bs = None \<and> x = InvalidPayload"
  by (cases "payload_from_slice J bs") (auto simp: validate_payload_json_def)

section \<open>Lemmas: the branches of the envelope\<close>

lemma fill_ok [simp]: "fill rnd i n = Inr bs \<longleftrightarrow> rnd i n = Some bs"
  by (simp add: fill_def)

lemma decrypt_encrypt_branch:
  assumes "aead_correct C" and "encrypt_with_crypto_header C hb ch pt pw = Inr ct"
  shows "decrypt_with_crypto_header C hb ch ct pw = Inr pt"
  using assms by (auto simp: encrypt_with_crypto_header_def decrypt_with_crypto_header_def
      encrypt_xchacha20poly1305_def decrypt_xchacha20poly1305_def aead_correctD split: kdf_params.splits)

lemma decrypt_branch_err: "decrypt_with_crypto_header C hb ch ct pw = Inl x \<Longrightarrow> x = AuthFailed"
  by (auto simp: decrypt_with_crypto_header_def rbind_Inl_iff map_err_Inl_iff split: kdf_params.splits)

text \<open>A password is shut out of a branch when its derived key does not authenticate there.\<close>
definition shut_out :: "crypto_lib \<Rightarrow> bytes \<Rightarrow> crypto_header \<Rightarrow> bytes \<Rightarrow> master_password \<Rightarrow> bool" where
  "shut_out C hb ch ct pw \<longleftrightarrow> \<not> is_ok (decrypt_with_crypto_header C hb ch ct pw)"

lemma unlock_envelope_primary:
  assumes "decrypt_with_crypto_header C hb (dh_primary dh) (env_primary_ct env) pw = Inr pt"
    and "payload_from_slice J pt = Some p"
  shows "unlock_duress_envelope_to_plaintext_json J C hb dh env pw = Inr (Primary, pt)"
  using assms by (auto simp: unlock_duress_envelope_to_plaintext_json_def validate_payload_json_def)

lemma unlock_envelope_decoy:
  assumes "shut_out C hb (dh_primary dh) (env_primary_ct env) pw"
    and "decrypt_with_crypto_header C hb (dh_decoy dh) (env_decoy_ct env) pw = Inr pt"
    and "payload_from_slice J pt = Some p"
  shows "unlock_duress_envelope_to_plaintext_json J C hb dh env pw = Inr (Decoy, pt)"
  using assms by (auto simp: unlock_duress_envelope_to_plaintext_json_def validate_payload_json_def
      shut_out_def split: sum.splits)

lemma unlock_envelope_neither:
  assumes "shut_out C hb (dh_primary dh) (env_primary_ct env) pw"
    and "shut_out C hb (dh_decoy dh) (env_decoy_ct env) pw"
  shows "unlock_duress_envelope_to_plaintext_json J C hb dh env pw = Inl AuthFailed"
  using assms by (auto simp: unlock_duress_envelope_to_plaintext_json_def shut_out_def split: sum.splits)

text \<open>What an envelope that was written contains.\<close>

lemma encrypt_envelope_ok:
  assumes "encrypt_duress_envelope_from_plaintext_json J C hb dh pw1 pw2 pt1 pt2 = Inr env"
  shows "(\<exists>p1. payload_from_slice J pt1 = Some p1) \<and> (\<exists>p2. payload_from_slice J pt2 = Some p2) \<and>
    encrypt_with_crypto_header C hb (dh_primary dh) pt1 pw1 = Inr (env_primary_ct env) \<and>
    encrypt_with_crypto_header C hb (dh_decoy dh) pt2 pw2 = Inr (env_decoy_ct env)"
  using assms by (auto simp: encrypt_duress_envelope_from_plaintext_json_def)

lemma envelope_opens:
  assumes "aead_correct C"
    and "encrypt_duress_envelope_from_plaintext_json J C hb dh pw1 pw2 pt1 pt2 = Inr env"
  shows "unlock_duress_envelope_to_plaintext_json J C hb dh env pw1 = Inr (Primary, pt1)"
    and "shut_out C hb (dh_primary dh) (env_primary_ct env) pw2 \<Longrightarrow>
      unlock_duress_envelope_to_plaintext_json J C hb dh env pw2 = Inr (Decoy, pt2)"
proof -
  note e = encrypt_envelope_ok [OF assms(2)]
  from e show "unlock_duress_envelope_to_plaintext_json J C hb dh env pw1 = Inr (Primary, pt1)"
    by (blast intro: unlock_envelope_primary decrypt_encrypt_branch [OF assms(1)])
  from e show "shut_out C hb (dh_primary dh) (env_primary_ct env) pw2 \<Longrightarrow>
      unlock_duress_envelope_to_plaintext_json J C hb dh env pw2 = Inr (Decoy, pt2)"
    by (blast intro: unlock_envelope_decoy decrypt_encrypt_branch [OF assms(1)])
qed

lemma duress_vault_header_sel [simp]:
  "vh_schema_version (duress_vault_header v i k s1 n1 s2 n2) = v"
  "vh_vault_id (duress_vault_header v i k s1 n1 s2 n2) = i"
  "vh_duress (duress_vault_header v i k s1 n1 s2 n2) \<noteq> None"
  by (simp_all add: duress_vault_header_def Let_def)

end
