(* ===== verification/Rate_Limit.thy ===== *)
theory Rate_Limit
  imports Prelude
begin

text \<open>
  \<open>core/rate_limit.rs\<close> and \<open>core/auth_gate.rs\<close>: the in-memory failure counter with
  its progressive delay schedule and jitter, and the gate that runs a
  password-based operation under it.
\<close>

section \<open>The limiter (core/rate_limit.rs)\<close>

record unlock_throttle_policy =
  quiet_period :: duration
  max_delay :: duration
  jitter_max :: duration

definition default_throttle_policy :: unlock_throttle_policy where
  "default_throttle_policy =
    \<lparr>quiet_period = dur_secs (60 * 10), max_delay = dur_secs 60, jitter_max = dur_millis 1000\<rparr>"

record unlock_rate_limiter =
  failures :: u32
  last_failure :: "instant option"

definition default_limiter :: unlock_rate_limiter where
  "default_limiter = \<lparr>failures = 0, last_failure = None\<rparr>"

definition on_success :: "unlock_rate_limiter \<Rightarrow> unlock_rate_limiter" where
  "on_success l = l\<lparr>failures := 0, last_failure := None\<rparr>"

definition password_delay_for_failures :: "u32 \<Rightarrow> duration" where
  "password_delay_for_failures n =
    (if n \<le> 2 then 0
     else if n \<le> 4 then dur_secs 1
     else if n \<le> 6 then dur_secs 5
     else if n \<le> 8 then dur_secs 10
     else if n \<le> 10 then dur_secs 15
     else if n \<le> 12 then dur_secs 30
     else if n \<le> 15 then dur_secs 60
     else dur_secs 300)"

text \<open>
  The jitter drawn from the random word \<open>r\<close>. \<open>max_ms as u64 + 1\<close> overflows when the
  truncated bound is \<open>u64::MAX\<close>: an overflow panic, or a remainder by zero (a panic as
  well) where overflow checks are off. \<open>None\<close> is that panic.
\<close>

definition jitter :: "duration \<Rightarrow> u64 \<Rightarrow> duration option" where
  "jitter max_jitter r =
    (let max_ms = dur_as_millis max_jitter in
     if max_ms = 0 then Some 0
     else
       let bound = (of_nat max_ms :: u64) + 1 in
       if bound = 0 then None else Some (dur_millis (unat (r mod bound))))"

definition on_failure_delay ::
    "unlock_rate_limiter \<Rightarrow> unlock_throttle_policy \<Rightarrow> instant \<Rightarrow> u64
      \<Rightarrow> unlock_rate_limiter \<times> duration option" where
  "on_failure_delay l policy now r =
    (let decayed = (case last_failure l of
           Some prev \<Rightarrow>
             if quiet_period policy \<le> sat_since now prev then failures l div 2 else failures l
         | None \<Rightarrow> failures l);
         n = sat_add_word decayed 1;
         base = password_delay_for_failures n
     in (l\<lparr>failures := n, last_failure := Some now\<rparr>,
         map_option (dur_sat_add (min base (max_delay policy))) (jitter (jitter_max policy) r)))"

section \<open>The gate (core/auth_gate.rs)\<close>

record auth_gate =
  gate_limiter :: unlock_rate_limiter
  gate_policy :: unlock_throttle_policy

definition auth_gate_new :: "unlock_throttle_policy \<Rightarrow> auth_gate" where
  "auth_gate_new policy = \<lparr>gate_limiter = default_limiter, gate_policy = policy\<rparr>"

text \<open>
  \<open>run\<close> on the result \<open>res\<close> of the operation at the time \<open>now\<close>: the result handed to
  the caller, the gate afterwards and how long the task slept; \<open>None\<close> is a panic.
\<close>

definition auth_gate_run ::
    "auth_gate \<Rightarrow> instant \<Rightarrow> u64 \<Rightarrow> 'e + 't \<Rightarrow> ('e \<Rightarrow> bool) \<Rightarrow> ('t \<Rightarrow> bool)
      \<Rightarrow> (('e + 't) \<times> auth_gate \<times> duration) option" where
  "auth_gate_run g now r res is_auth_failure should_reset_on_success =
    (case res of
       Inr v \<Rightarrow>
         if should_reset_on_success v
         then Some (res, g\<lparr>gate_limiter := on_success (gate_limiter g)\<rparr>, 0)
         else Some (res, g, 0)
     | Inl e \<Rightarrow>
         if is_auth_failure e then
           (let (l', delay) = on_failure_delay (gate_limiter g) (gate_policy g) now r in
            map_option (\<lambda>d. (res, g\<lparr>gate_limiter := l'\<rparr>, d)) delay)
         else Some (res, g, 0))"

definition auth_gate_run_blocking ::
    "auth_gate \<Rightarrow> instant \<Rightarrow> u64 \<Rightarrow> 'e + 't \<Rightarrow> ('e \<Rightarrow> bool) \<Rightarrow> ('t \<Rightarrow> bool)
      \<Rightarrow> (('e + 't) \<times> auth_gate \<times> duration) option" where
  "auth_gate_run_blocking g now r res is_auth_failure should_reset_on_success =
    (case res of
       Inr v \<Rightarrow>
         Some (res, if should_reset_on_success v
                    then g\<lparr>gate_limiter := on_success (gate_limiter g)\<rparr> else g, 0)
     | Inl e \<Rightarrow>
         if is_auth_failure e then
           (case on_failure_delay (gate_limiter g) (gate_policy g) now r of
              (l', None) \<Rightarrow> None
            | (l', Some d) \<Rightarrow> Some (res, g\<lparr>gate_limiter := l'\<rparr>, d))
         else Some (res, g, 0))"

definition auth_gate_reset :: "auth_gate \<Rightarrow> auth_gate" where
  "auth_gate_reset g = g\<lparr>gate_limiter := on_success (gate_limiter g)\<rparr>"

section \<open>Lemmas\<close>

text \<open>The policies for which the jitter draw cannot panic.\<close>
definition jitter_safe :: "unlock_throttle_policy \<Rightarrow> bool" where
  "jitter_safe p \<longleftrightarrow> (dur_as_millis (jitter_max p) + 1) mod 2 ^ 64 \<noteq> 0"

lemma u64_of_nat_0_iff: "(of_nat n :: u64) = 0 \<longleftrightarrow> n mod 2 ^ 64 = 0"
  by (simp add: word_of_nat_eq_0_iff dvd_eq_mod_eq_0)

lemma jitter_Some:
  assumes "jitter_safe p"
  obtains d where "jitter (jitter_max p) r = Some d" "d \<le> jitter_max p"
proof (cases "dur_as_millis (jitter_max p) = 0")
  case True
  with that show ?thesis by (simp add: jitter_def)
next
  case False
  let ?m = "dur_as_millis (jitter_max p)"
  let ?b = "(of_nat ?m :: u64) + 1"
  have b: "?b = of_nat (?m + 1)" by simp
  have nz: "?b \<noteq> 0" using assms unfolding b u64_of_nat_0_iff jitter_safe_def by simp
  have "unat ?b \<le> ?m + 1" unfolding b unat_of_nat by (rule mod_less_eq_dividend)
  moreover have "unat (r mod ?b) < unat ?b"
    unfolding unat_mod_distrib by (rule mod_less_divisor [OF unat_gt_0 [THEN iffD2, OF nz]])
  ultimately have "unat (r mod ?b) \<le> ?m" by linarith
  then have "dur_millis (unat (r mod ?b)) \<le> jitter_max p"
    by (simp add: dur_millis_def dur_as_millis_def)
  with False nz that show ?thesis by (simp add: jitter_def Let_def)
qed


lemma password_delay_le: "password_delay_for_failures n \<le> dur_secs 300"
  by (simp add: password_delay_for_failures_def dur_secs_def)

lemma password_delay_mono:
  assumes "m \<le> n"
  shows "password_delay_for_failures m \<le> password_delay_for_failures n"
  using assms unfolding password_delay_for_failures_def dur_secs_def
  by (auto intro: order_trans)

text \<open>One failure: the counter, the time stamp and bounds of the delay.\<close>

lemma on_failure_delay_fields [simp]:
  "last_failure (fst (on_failure_delay l p now r)) = Some now"
  by (simp add: on_failure_delay_def Let_def)

lemma on_failure_delay_bounds:
  assumes "jitter_safe p"
  obtains d where "snd (on_failure_delay l p now r) = Some d"
    "min (password_delay_for_failures (failures (fst (on_failure_delay l p now r)))) (max_delay p) \<le> d"
    "d \<le> min (password_delay_for_failures (failures (fst (on_failure_delay l p now r)))) (max_delay p)
          + jitter_max p"
proof -
  obtain j where j: "jitter (jitter_max p) r = Some j" "j \<le> jitter_max p"
    using jitter_Some [OF assms] by blast
  let ?base = "min (password_delay_for_failures (failures (fst (on_failure_delay l p now r)))) (max_delay p)"
  have "?base \<le> DURATION_MAX"
    using password_delay_le [of "failures (fst (on_failure_delay l p now r))"]
    by (simp add: DURATION_MAX_def dur_secs_def min_le_iff_disj)
  moreover have "snd (on_failure_delay l p now r) = Some (dur_sat_add ?base j)"
    using j by (simp add: on_failure_delay_def Let_def)
  ultimately show ?thesis
    using j that by (simp add: dur_sat_add_def)
qed

text \<open>The counter: halved after a quiet period, then one more, up to its width.\<close>
lemma on_failure_delay_failures:
  "unat (failures (fst (on_failure_delay l p now r))) =
    min (2 ^ 32 - 1) ((case last_failure l of
        None \<Rightarrow> unat (failures l)
      | Some t \<Rightarrow> if quiet_period p \<le> sat_since now t then unat (failures l) div 2 else unat (failures l)) + 1)"
proof -
  have "unat (n div 2) = unat n div 2" for n :: u32 by (simp add: unat_div_distrib)
  then show ?thesis
    by (simp add: on_failure_delay_def unat_sat_add_word min.commute Let_def split: option.splits)
qed

lemma on_failure_delay_counts:
  assumes "\<And>t. last_failure l = Some t \<Longrightarrow> sat_since now t < quiet_period p"
  shows "failures (fst (on_failure_delay l p now r)) = sat_add_word (failures l) 1"
  using assms by (auto simp: on_failure_delay_def Let_def split: option.splits)

text \<open>A burst of authentication failures, each with its time and its random word.\<close>

fun failure_burst ::
    "unlock_rate_limiter \<Rightarrow> unlock_throttle_policy \<Rightarrow> (instant \<times> u64) list \<Rightarrow> duration option list" where
  "failure_burst l p [] = []"
| "failure_burst l p ((now, r) # as) =
    (let (l', d) = on_failure_delay l p now r in d # failure_burst l' p as)"

fun within_quiet ::
    "unlock_throttle_policy \<Rightarrow> instant option \<Rightarrow> (instant \<times> u64) list \<Rightarrow> bool" where
  "within_quiet p prev [] \<longleftrightarrow> True"
| "within_quiet p prev ((now, r) # as) \<longleftrightarrow>
    (case prev of None \<Rightarrow> True | Some t \<Rightarrow> sat_since now t < quiet_period p) \<and>
    within_quiet p (Some now) as"

lemma length_failure_burst [simp]: "length (failure_burst l p as) = length as"
  by (induction l p as rule: failure_burst.induct) (auto simp: Let_def split: prod.splits)

lemma failure_burst_nth:
  assumes "jitter_safe p" "within_quiet p (last_failure l) as"
    and "unat (failures l) + length as < 2 ^ 32" and "i < length as"
  shows "\<exists>d. failure_burst l p as ! i = Some d \<and>
    min (password_delay_for_failures (failures l + of_nat (i + 1))) (max_delay p) \<le> d \<and>
    d \<le> min (password_delay_for_failures (failures l + of_nat (i + 1))) (max_delay p) + jitter_max p"
  using assms(2-)
proof (induction as arbitrary: l i)
  case (Cons a as)
  obtain now r where a: "a = (now, r)" by (cases a)
  obtain l' d where s: "on_failure_delay l p now r = (l', d)" by fastforce
  have n: "failures l' = failures l + 1"
    using on_failure_delay_counts [of l now p r] Cons.prems(1,2) s a
    by (auto simp: sat_add_word_def split: option.splits)
  show ?case
  proof (cases i)
    case 0
    with on_failure_delay_bounds [OF assms(1), of l now r] show ?thesis
      using n by (auto simp: a s)
  next
    case (Suc j)
    have "unat (failures l') = unat (failures l) + 1"
      using n Cons.prems(2) by (simp add: unat_word_ariths)
    moreover have "last_failure l' = Some now"
      using on_failure_delay_fields [of l p now r] s by simp
    ultimately show ?thesis
      using Cons.IH [of l' j] Cons.prems Suc n by (auto simp: a s add.assoc)
  qed
qed simp

section \<open>Properties\<close>

text \<open>C39. A burst of wrong passwords, each strictly less than a quiet period after the one before, is delayed
  by the schedule under any policy whose jitter draw cannot panic (the bound is not one millisecond short
  of a multiple of 2 to the 64): the \<open>i\<close>-th failure (from 0) sleeps at least the delay scheduled for \<open>i + 1\<close>
  failures, capped at the policy's maximum, and at most the jitter bound longer; the schedule
  never decreases.\<close>

theorem burst_follows_schedule:
  assumes "jitter_safe policy" and "within_quiet policy None attempts"
    and "length attempts < 2 ^ 32" and "i < length attempts" and "j \<le> i"
  shows "\<exists>d. failure_burst default_limiter policy attempts ! i = Some d \<and>
    min (password_delay_for_failures (of_nat (i + 1))) (max_delay policy) \<le> d \<and>
    d \<le> min (password_delay_for_failures (of_nat (i + 1))) (max_delay policy) + jitter_max policy \<and>
    password_delay_for_failures (of_nat (j + 1)) \<le> password_delay_for_failures (of_nat (i + 1))"
proof -
  have "unat (of_nat (j + 1) :: u32) \<le> unat (of_nat (i + 1) :: u32)"
    using assms(3-5) by (simp add: unat_of_nat del: of_nat_add of_nat_Suc)
  then have "password_delay_for_failures (of_nat (j + 1)) \<le> password_delay_for_failures (of_nat (i + 1))"
    by (intro password_delay_mono) (simp add: word_le_nat_alt)
  then show ?thesis
    using failure_burst_nth [of policy default_limiter attempts i] assms(1-4)
    by (simp add: default_limiter_def)
qed

theorem burst_follows_schedule_witness:
  "\<exists>d. failure_burst default_limiter default_throttle_policy [(0, 1), (1, 2), (2, 3), (3, 4)] ! 3 = Some d \<and>
     dur_secs 1 \<le> d"
proof -
  have s: "jitter_safe default_throttle_policy"
    by (simp add: jitter_safe_def default_throttle_policy_def dur_as_millis_def dur_millis_def)
  have w: "within_quiet default_throttle_policy None [(0, 1), (1, 2), (2, 3), (3, 4)]"
    by (simp add: default_throttle_policy_def sat_since_def dur_secs_def)
  have "min (password_delay_for_failures (of_nat (3 + 1))) (max_delay default_throttle_policy) = dur_secs 1"
    by (simp add: password_delay_for_failures_def default_throttle_policy_def dur_secs_def)
  then show ?thesis
    using burst_follows_schedule [OF s w, of 3 3] by (auto simp del: failure_burst.simps)
qed

text \<open>The async and the blocking entry points of the gate are the same function of the operation's
  result: same answer, same limiter afterwards, same delay, same panics; and whatever happens the
  caller is handed the operation's own result.\<close>

lemma gate_run_agrees:
  "auth_gate_run g now r res is_failure reset_on = auth_gate_run_blocking g now r res is_failure reset_on \<and>
   (case auth_gate_run g now r res is_failure reset_on of
      None \<Rightarrow> \<not> jitter_safe (gate_policy g)
    | Some (res', g', d) \<Rightarrow> res' = res \<and> gate_policy g' = gate_policy g \<and>
        (d > 0 \<longrightarrow> (\<exists>e. res = Inl e \<and> is_failure e)))"
proof -
  obtain l d where f: "on_failure_delay (gate_limiter g) (gate_policy g) now r = (l, d)" by fastforce
  have "d \<noteq> None" if "jitter_safe (gate_policy g)"
    using on_failure_delay_bounds [OF that, of "gate_limiter g" now r] f by auto
  then show ?thesis
    by (cases d) (auto simp: auth_gate_run_def auth_gate_run_blocking_def f split: sum.splits)
qed

end
