(* ===== verification/Unlock.thy ===== *)
theory Unlock
  imports Duress Rate_Limit
begin

text \<open>
  \<open>core/unlock.rs\<close>: the unlock flows over a parsed container, for legacy and for
  duress vaults, and the two gated entry points that run them under the throttle
  of \<open>Rate_Limit\<close>, with the lemmas that join them to creation and migration.
\<close>

section \<open>The flows\<close>

datatype unlock_error =
  Parse vault_parse_error | Kdf kdf_error | UnlAuthFailed | PayloadDecode | Internal

definition map_aead_error :: "aead_error \<Rightarrow> unlock_error" where
  "map_aead_error err = UnlAuthFailed"

definition unlock_vault_to_plaintext_json_with_outcome ::
    "json_lib \<Rightarrow> crypto_lib \<Rightarrow> parsed_vault_file \<Rightarrow> master_password
      \<Rightarrow> unlock_error + unlock_outcome \<times> secret_bytes" where
  "unlock_vault_to_plaintext_json_with_outcome J C parsed password =
    guard (pv_mode parsed \<noteq> Encrypted) UnlAuthFailed
    (case vh_duress (pv_header parsed) of
       Some duress_header \<Rightarrow>
         rbind (ok_or PayloadDecode (json_to_envelope J (pv_payload parsed))) (\<lambda>envelope.
         rbind (map_err (\<lambda>_. UnlAuthFailed)
                  (unlock_duress_envelope_to_plaintext_json J C (pv_header_bytes parsed)
                     duress_header envelope password)) (\<lambda>(outcome, plaintext_json).
           Inr (outcome, plaintext_json)))
     | None \<Rightarrow>
        (case ch_kdf (vh_crypto (pv_header parsed)) of Argon2id mem_kib time_cost lanes \<Rightarrow>
         rbind (map_err Kdf (derive_master_key_from_password C password
                  (ch_salt (vh_crypto (pv_header parsed))) mem_kib time_cost lanes)) (\<lambda>master_key.
         rbind (map_err map_aead_error (decrypt_xchacha20poly1305 C master_key
                  (ch_nonce (vh_crypto (pv_header parsed))) (pv_payload parsed)
                  (pv_header_bytes parsed))) (\<lambda>plaintext_json.
           Inr (Primary, plaintext_json)))))"

definition unlock_vault_to_plaintext_json ::
    "json_lib \<Rightarrow> crypto_lib \<Rightarrow> parsed_vault_file \<Rightarrow> master_password \<Rightarrow> unlock_error + secret_bytes" where
  "unlock_vault_to_plaintext_json J C parsed password =
    rbind (unlock_vault_to_plaintext_json_with_outcome J C parsed password)
      (\<lambda>(outcome, plaintext_json). Inr plaintext_json)"

definition unlock_vault ::
    "json_lib \<Rightarrow> crypto_lib \<Rightarrow> parsed_vault_file \<Rightarrow> master_password \<Rightarrow> unlock_error + vault_payload" where
  "unlock_vault J C parsed password =
    rbind (unlock_vault_to_plaintext_json J C parsed password) (\<lambda>plaintext.
      ok_or PayloadDecode (payload_from_slice J plaintext))"

definition unlock_vault_with_outcome ::
    "json_lib \<Rightarrow> crypto_lib \<Rightarrow> parsed_vault_file \<Rightarrow> master_password
      \<Rightarrow> unlock_error + unlock_outcome \<times> vault_payload" where
  "unlock_vault_with_outcome J C parsed password =
    guard (pv_mode parsed \<noteq> Encrypted) UnlAuthFailed
    (case vh_duress (pv_header parsed) of
       Some duress_header \<Rightarrow>
         rbind (ok_or PayloadDecode (json_to_envelope J (pv_payload parsed))) (\<lambda>envelope.
         rbind (map_err (\<lambda>_. UnlAuthFailed)
                  (unlock_duress_envelope J C (pv_header_bytes parsed) duress_header envelope password))
           (\<lambda>(outcome, payload). Inr (outcome, payload)))
     | None \<Rightarrow>
         rbind (unlock_vault J C parsed password) (\<lambda>payload. Inr (Primary, payload)))"

section \<open>The gated entry points\<close>

text \<open>
  Run at the time \<open>now\<close> with the random word \<open>r\<close> for the jitter: the result, the gate
  afterwards and the time slept; \<open>None\<close> is the panic of the jitter draw.
\<close>

definition unlock_plaintext_json_gated ::
    "json_lib \<Rightarrow> crypto_lib \<Rightarrow> auth_gate \<Rightarrow> instant \<Rightarrow> u64 \<Rightarrow> parsed_vault_file \<Rightarrow> master_password
      \<Rightarrow> ((unlock_error + unlock_outcome \<times> secret_bytes) \<times> auth_gate \<times> duration) option" where
  "unlock_plaintext_json_gated J C gate now r parsed password =
    (case auth_gate_run gate now r
            (unlock_vault_to_plaintext_json_with_outcome J C parsed password)
            (\<lambda>e. e = UnlAuthFailed) (\<lambda>_. False) of
       None \<Rightarrow> None
     | Some (Inl e, gate', slept) \<Rightarrow> Some (Inl e, gate', slept)
     | Some (Inr (outcome, plaintext_json), gate', slept) \<Rightarrow>
         Some (Inr (outcome, plaintext_json),
               if outcome = Primary then auth_gate_reset gate' else gate', slept))"

definition unlock_session_gated ::
    "json_lib \<Rightarrow> crypto_lib \<Rightarrow> auth_gate \<Rightarrow> instant \<Rightarrow> u64 \<Rightarrow> parsed_vault_file \<Rightarrow> master_password
      \<Rightarrow> ((unlock_error + vault_payload unlocked_vault_session) \<times> auth_gate \<times> duration) option" where
  "unlock_session_gated J C gate now r parsed password =
    map_option (\<lambda>(res, gate', slept).
        (rbind res (\<lambda>(outcome, plaintext_json).
           rbind (ok_or PayloadDecode (payload_from_slice J plaintext_json)) (\<lambda>payload.
             Inr (session_new outcome payload))), gate', slept))
      (unlock_plaintext_json_gated J C gate now r parsed password)"

section \<open>Lemmas\<close>

lemma unlock_payload_via_json:
  "unlock_vault_with_outcome J C parsed password =
    rbind (unlock_vault_to_plaintext_json_with_outcome J C parsed password) (\<lambda>(outcome, pt).
      rbind (ok_or PayloadDecode (payload_from_slice J pt)) (\<lambda>payload. Inr (outcome, payload)))"
proof (cases "pv_mode parsed = Encrypted")
  case enc: True
  show ?thesis
  proof (cases "vh_duress (pv_header parsed)")
    case None
    with enc show ?thesis
      by (cases "unlock_vault_to_plaintext_json_with_outcome J C parsed password")
         (auto simp: unlock_vault_with_outcome_def unlock_vault_def unlock_vault_to_plaintext_json_def
            unlock_vault_to_plaintext_json_with_outcome_def rbind_Inl_iff split: kdf_params.splits)
  next
    case (Some dh)
    show ?thesis
    proof (cases "json_to_envelope J (pv_payload parsed)")
      case env: (Some env)
      let ?u = "unlock_duress_envelope_to_plaintext_json J C (pv_header_bytes parsed) dh env password"
      have "\<exists>p. payload_from_slice J pt = Some p" if "?u = Inr (o', pt)" for o' pt
        using that by (auto simp: unlock_duress_envelope_to_plaintext_json_def split: sum.splits)
      then show ?thesis
        using enc Some env
        by (cases ?u) (auto simp: unlock_vault_with_outcome_def unlock_duress_envelope_def
            unlock_vault_to_plaintext_json_with_outcome_def)
    qed (simp add: enc Some unlock_vault_with_outcome_def
        unlock_vault_to_plaintext_json_with_outcome_def)
  qed
qed (simp add: unlock_vault_with_outcome_def unlock_vault_to_plaintext_json_with_outcome_def)

text \<open>The legacy branch, as one equation per outcome of the two primitives.\<close>

lemma legacy_unlock_decrypt:
  assumes "pv_mode parsed = Encrypted" and "vh_duress (pv_header parsed) = None"
    and "decrypt_with_crypto_header C (pv_header_bytes parsed) (vh_crypto (pv_header parsed))
           (pv_payload parsed) pw = Inr pt"
  shows "unlock_vault_to_plaintext_json_with_outcome J C parsed pw = Inr (Primary, pt)"
  using assms by (auto simp: unlock_vault_to_plaintext_json_with_outcome_def
      decrypt_with_crypto_header_def split: kdf_params.splits)

lemma duress_unlock_envelope:
  assumes "pv_mode parsed = Encrypted" and "vh_duress (pv_header parsed) = Some dh"
    and "json_to_envelope J (pv_payload parsed) = Some env"
  shows "unlock_vault_to_plaintext_json_with_outcome J C parsed pw =
    map_err (\<lambda>_. UnlAuthFailed)
      (unlock_duress_envelope_to_plaintext_json J C (pv_header_bytes parsed) dh env pw)"
  using assms by (cases "unlock_duress_envelope_to_plaintext_json J C (pv_header_bytes parsed) dh env pw")
    (auto simp: unlock_vault_to_plaintext_json_with_outcome_def)

lemma create_encrypted_ok:
  assumes "create_encrypted_vault J C rnd i pw p v kdf = Inr vf"
  obtains hb pt ct where "vh_duress (vf_header vf) = None" "vf_storage vf = SEncrypted ct"
    "json_of_header J (vf_header vf) = Some hb" "payload_to_vec J p = Some pt"
    "encrypt_with_crypto_header C hb (vh_crypto (vf_header vf)) pt pw = Inr ct"
  using assms that by (auto simp: create_encrypted_vault_def Let_def encrypt_with_crypto_header_def
      as_kdf_params_def)

lemma create_duress_ok:
  assumes "create_duress_vault J C rnd i pw1 pw2 p1 p2 v kdf = Inr vf"
  obtains hb dh pt1 pt2 env ct where "vh_duress (vf_header vf) = Some dh"
    "vf_storage vf = SEncrypted ct" "json_of_header J (vf_header vf) = Some hb"
    "payload_to_vec J p1 = Some pt1" "payload_to_vec J p2 = Some pt2"
    "encrypt_duress_envelope_from_plaintext_json J C hb dh pw1 pw2 pt1 pt2 = Inr env"
    "json_of_envelope J env = Some ct"
  using assms that by (auto simp: create_duress_vault_def Let_def encrypt_duress_envelope_def)

lemma enable_duress_ok:
  assumes "enable_duress_on_vault J C rnd vault pw1 pw2 p2 kdf = Inr vf"
  obtains ct0 hb0 hb dh pt1 pt2 env ct where
    "vf_storage vault = SEncrypted ct0" "vh_duress (vf_header vault) = None"
    "json_of_header J (vf_header vault) = Some hb0"
    "decrypt_with_crypto_header C hb0 (vh_crypto (vf_header vault)) ct0 pw1 = Inr pt1"
    "vh_schema_version (vf_header vf) = vh_schema_version (vf_header vault)"
    "vh_vault_id (vf_header vf) = vh_vault_id (vf_header vault)"
    "vh_duress (vf_header vf) = Some dh" "vf_storage vf = SEncrypted ct"
    "json_of_header J (vf_header vf) = Some hb" "payload_to_vec J p2 = Some pt2"
    "encrypt_duress_envelope_from_plaintext_json J C hb dh pw1 pw2 pt1 pt2 = Inr env"
    "json_of_envelope J env = Some ct"
  using assms that by (auto simp: enable_duress_on_vault_def Let_def decrypt_with_crypto_header_def
      split: vault_storage.splits kdf_params.splits if_splits)

text \<open>A duress file as both of its passwords see it, whoever wrote it.\<close>

lemma duress_file_unlocks:
  assumes "aead_correct C" and "envelope_json_correct J"
    and "vh_duress (pv_header parsed) = Some dh" and "pv_mode parsed = Encrypted"
    and env: "encrypt_duress_envelope_from_plaintext_json J C (pv_header_bytes parsed) dh pw1 pw2 pt1 pt2
      = Inr env"
    and "json_of_envelope J env = Some (pv_payload parsed)"
  shows "unlock_vault_to_plaintext_json_with_outcome J C parsed pw1 = Inr (Primary, pt1)"
    and "shut_out C (pv_header_bytes parsed) (dh_primary dh) (env_primary_ct env) pw2 \<Longrightarrow>
      unlock_vault_to_plaintext_json_with_outcome J C parsed pw2 = Inr (Decoy, pt2)"
proof -
  have "json_to_envelope J (pv_payload parsed) = Some env"
    using assms(2,6) by (simp add: envelope_json_correct_def)
  then show "unlock_vault_to_plaintext_json_with_outcome J C parsed pw1 = Inr (Primary, pt1)"
    and "shut_out C (pv_header_bytes parsed) (dh_primary dh) (env_primary_ct env) pw2 \<Longrightarrow>
      unlock_vault_to_plaintext_json_with_outcome J C parsed pw2 = Inr (Decoy, pt2)"
    using envelope_opens [OF assms(1) env] assms(3,4) by (simp_all add: duress_unlock_envelope)
qed

section \<open>Lemmas: attempts under the gate\<close>

text \<open>A sequence of attempts through one gate: the results, and the gate at the end.\<close>

fun gated_attempts ::
    "json_lib \<Rightarrow> crypto_lib \<Rightarrow> auth_gate \<Rightarrow> (instant \<times> u64 \<times> parsed_vault_file \<times> master_password) list
      \<Rightarrow> (duration list \<times> auth_gate) option" where
  "gated_attempts J C g [] = Some ([], g)"
| "gated_attempts J C g ((now, r, parsed, pw) # as) =
    (case unlock_plaintext_json_gated J C g now r parsed pw of
       None \<Rightarrow> None
     | Some (_, g', slept) \<Rightarrow>
         map_option (\<lambda>(ds, g''). (slept # ds, g'')) (gated_attempts J C g' as))"

definition opens_decoy :: "json_lib \<Rightarrow> crypto_lib \<Rightarrow> instant \<times> u64 \<times> parsed_vault_file \<times> master_password \<Rightarrow> bool" where
  "opens_decoy J C a = (case a of (_, _, parsed, pw) \<Rightarrow>
     (case unlock_vault_to_plaintext_json_with_outcome J C parsed pw of
        Inr (outcome, _) \<Rightarrow> outcome = Decoy | Inl _ \<Rightarrow> False))"

lemma gated_decoy:
  "opens_decoy J C (now, r, parsed, pw) \<Longrightarrow>
    \<exists>pt. unlock_plaintext_json_gated J C g now r parsed pw = Some (Inr (Decoy, pt), g, 0)"
  by (auto simp: opens_decoy_def unlock_plaintext_json_gated_def auth_gate_run_def split: sum.splits)

lemma default_jitter_safe [simp]: "jitter_safe default_throttle_policy"
  by (simp add: jitter_safe_def default_throttle_policy_def dur_as_millis_def dur_millis_def)

lemma gated_auth_failure:
  assumes "unlock_vault_to_plaintext_json_with_outcome J C parsed pw = Inl UnlAuthFailed"
    and "on_failure_delay (gate_limiter g) (gate_policy g) now r = (l, Some d)"
  shows "unlock_plaintext_json_gated J C g now r parsed pw =
    Some (Inl UnlAuthFailed, g\<lparr>gate_limiter := l\<rparr>, d)"
  using assms by (simp add: unlock_plaintext_json_gated_def auth_gate_run_def)

lemma gated_total:
  assumes "jitter_safe (gate_policy g)"
  shows "\<exists>res g' d. unlock_plaintext_json_gated J C g now r parsed pw = Some (res, g', d)"
proof -
  obtain l d where "on_failure_delay (gate_limiter g) (gate_policy g) now r = (l, Some d)"
    using on_failure_delay_bounds [OF assms, of "gate_limiter g" now r] by (metis prod.collapse)
  then show ?thesis
    by (auto simp: unlock_plaintext_json_gated_def auth_gate_run_def split: sum.splits)
qed

end
