(* ===== verification/Samples.thy ===== *)
theory Samples
  imports Unlock
begin

text \<open>
  Concrete inputs on which the theorems are applied: a small vault, with and without
  a duress envelope, sealed by the transparent cipher of \<open>Crypto\<close> and written through
  the JSON library of \<open>Vault_Codec\<close>.
\<close>

definition demo_kdf :: vault_kdf_policy where
  "demo_kdf = \<lparr>kp_mem_kib = 65536, kp_time_cost = 3, kp_lanes = 1\<rparr>"

text \<open>Request \<open>i\<close> is answered with bytes \<open>i\<close>, so that the two branches get different salts.\<close>
definition demo_rng :: rng where "demo_rng i n = Some (replicate n (of_nat i))"

definition demo_crypto :: "nat \<Rightarrow> crypto_header" where
  "demo_crypto i = \<lparr>ch_kdf = as_kdf_params demo_kdf, ch_aead = XChaCha20Poly1305,
     ch_salt = replicate SALT_LEN (of_nat i), ch_nonce = replicate XCHACHA20_NONCE_LEN (of_nat (i + 1))\<rparr>"

definition demo_header :: vault_header where
  "demo_header = \<lparr>vh_schema_version = 1, vh_vault_id = 7, vh_crypto = demo_crypto 0, vh_duress = None\<rparr>"

definition demo_duress_header :: vault_header where
  "demo_duress_header = \<lparr>vh_schema_version = 1, vh_vault_id = 7, vh_crypto = demo_crypto 0,
     vh_duress = Some \<lparr>dh_primary = demo_crypto 0, dh_decoy = demo_crypto 2\<rparr>\<rparr>"

definition demo_entry :: vault_entry where
  "demo_entry = \<lparr>ve_meta = \<lparr>em_id = 5, em_entry_type = SecureNote\<rparr>,
     ve_secret = \<lparr>es_title = lit ''t'', es_note = Some (lit ''n''), es_username = None,
       es_secret = lit ''n'', es_extra = None, es_totp = None\<rparr>\<rparr>"

definition demo_payload :: vault_payload where "demo_payload = \<lparr>vp_entries = [demo_entry]\<rparr>"
definition empty_payload :: vault_payload where "empty_payload = \<lparr>vp_entries = []\<rparr>"
definition demo_json :: "vault_header \<Rightarrow> json_lib" where
  "demo_json h = toy_json h (map entry_to_dto (vp_entries demo_payload))"

lemma demo_kdf_sel [simp]:
  "as_kdf_params demo_kdf = Argon2id 65536 3 1"
  "kp_mem_kib demo_kdf = 65536" "kp_time_cost demo_kdf = 3" "kp_lanes demo_kdf = 1"
  by (simp_all add: demo_kdf_def as_kdf_params_def)

lemma demo_rng_sel [simp]: "demo_rng i n = Some (replicate n (of_nat i))"
  by (simp add: demo_rng_def)

lemma demo_payload_ok [simp]: "payload_ok demo_payload" "payload_ok empty_payload"
  by (simp_all add: payload_ok_def demo_payload_def empty_payload_def demo_entry_def entry_ok_iff)

lemma demo_json_sel [simp]:
  "json_of_header (demo_json h) h = Some [7]"
  "header_json_ok (demo_json h) h"
  "payload_json_ok (demo_json h) (map entry_to_dto (vp_entries demo_payload))"
  "payload_json_ok (demo_json h) (map entry_to_dto (vp_entries empty_payload))"
  "payload_to_vec (demo_json h) demo_payload = Some [1]"
  "payload_to_vec (demo_json h) empty_payload = Some [0]"
  "envelope_json_correct (demo_json h)"
  "json_of_envelope (demo_json h) v = Some (toy_bytes (env_primary_ct v) @ toy_bytes (env_decoy_ct v))"
  by (simp_all add: demo_json_def toy_json_envelope)
    (simp_all add: toy_json_def header_json_ok_def payload_json_ok_def payload_to_vec_def
      demo_payload_def empty_payload_def)

lemma demo_payload_from [simp]:
  "payload_from_slice (demo_json h) [1] = Some demo_payload"
  "payload_from_slice (demo_json h) [0] = Some empty_payload"
  using payload_from_to_vec [of "demo_json h" demo_payload "[1]"]
    payload_from_to_vec [of "demo_json h" empty_payload "[0]"] by simp_all

definition toy_seal :: "bytes \<Rightarrow> bytes \<Rightarrow> bytes \<Rightarrow> bytes \<Rightarrow> bytes" where
  "toy_seal k n a p =
     to_le 8 (length k) @ to_le 8 (length n) @ to_le 8 (length a) @ k @ n @ a @ p"

lemma toy_cipher_sel [simp]:
  "xchacha_encrypt toy_cipher k n p a = Some (toy_seal k n a p)"
  "xchacha_decrypt toy_cipher k n (toy_seal k n a p) a = Some p"
  "argon2_params_new toy_cipher m t l"
  "argon2id_hash toy_cipher x y m t l = Some (x @ y)"
  by (simp_all add: toy_cipher_def toy_seal_def)

lemma demo_key [simp]:
  "derive_master_key_from_password toy_cipher pw salt 65536 3 1 = Inr (as_bytes pw @ salt)"
  by (simp add: derive_master_key_ok argon2id_params_ok_def)

lemma demo_seal [simp]:
  "encrypt_with_crypto_header toy_cipher hb (demo_crypto i) pt pw =
     Inr (toy_seal (as_bytes pw @ ch_salt (demo_crypto i)) (ch_nonce (demo_crypto i)) hb pt)"
  by (simp add: encrypt_with_crypto_header_def demo_crypto_def encrypt_xchacha20poly1305_def)

definition demo_vault :: vault_file where
  "demo_vault = \<lparr>vf_header = demo_header,
     vf_storage = SEncrypted (toy_seal (as_bytes (lit ''pw'') @ ch_salt (demo_crypto 0))
       (ch_nonce (demo_crypto 0)) [7] [1])\<rparr>"

definition demo_envelope :: dual_ciphertext_envelope where
  "demo_envelope =
     \<lparr>env_primary_ct = toy_seal (as_bytes (lit ''pw'') @ ch_salt (demo_crypto 0))
        (ch_nonce (demo_crypto 0)) [7] [1],
      env_decoy_ct = toy_seal (as_bytes (lit ''no'') @ ch_salt (demo_crypto 2))
        (ch_nonce (demo_crypto 2)) [7] [0]\<rparr>"

definition demo_duress_vault :: vault_file where
  "demo_duress_vault = \<lparr>vf_header = demo_duress_header,
     vf_storage = SEncrypted (toy_bytes (env_primary_ct demo_envelope) @
       toy_bytes (env_decoy_ct demo_envelope))\<rparr>"

lemma demo_create:
  "create_encrypted_vault (demo_json demo_header) toy_cipher demo_rng 7 (lit ''pw'') demo_payload 1
     demo_kdf = Inr demo_vault"
proof -
  have "\<lparr>vh_schema_version = 1, vh_vault_id = 7,
      vh_crypto = \<lparr>ch_kdf = Argon2id 65536 3 1, ch_aead = XChaCha20Poly1305,
        ch_salt = replicate SALT_LEN 0, ch_nonce = replicate XCHACHA20_NONCE_LEN 1\<rparr>,
      vh_duress = None\<rparr> = demo_header"
    by (simp add: demo_header_def demo_crypto_def)
  then show ?thesis
    by (simp add: create_encrypted_vault_def fill_def Let_def encrypt_xchacha20poly1305_def
        demo_vault_def demo_crypto_def)
qed

lemma demo_duress_header_eq:
  "duress_vault_header 1 7 demo_kdf (replicate SALT_LEN 0) (replicate XCHACHA20_NONCE_LEN 1)
     (replicate SALT_LEN 2) (replicate XCHACHA20_NONCE_LEN 3) = demo_duress_header"
  by (simp add: duress_vault_header_def demo_duress_header_def demo_crypto_def Let_def)

lemma demo_create_duress:
  "create_duress_vault (demo_json demo_duress_header) toy_cipher demo_rng 7 (lit ''pw'') (lit ''no'')
     demo_payload empty_payload 1 demo_kdf = Inr demo_duress_vault"
proof -
  have "\<exists>dh. vh_duress demo_duress_header = Some dh \<and> dh_primary dh = demo_crypto 0 \<and>
      dh_decoy dh = demo_crypto 2"
    by (simp add: demo_duress_header_def)
  then show ?thesis
    by (auto simp: create_duress_vault_def fill_def Let_def demo_duress_header_eq
        encrypt_duress_envelope_def encrypt_duress_envelope_from_plaintext_json_def
        demo_duress_vault_def demo_envelope_def validate_payload_json_def)
qed

lemma demo_vault_sel [simp]:
  "vf_header demo_vault = demo_header"
  "vf_storage demo_vault = SEncrypted (toy_seal (as_bytes (lit ''pw'') @ ch_salt (demo_crypto 0))
       (ch_nonce (demo_crypto 0)) [7] [1])"
  by (simp_all add: demo_vault_def)

text \<open>Writing an encrypted vault with a short header.\<close>

definition short_file :: "bytes \<Rightarrow> bytes" where
  "short_file ct = MAGIC @ to_le 2 1 @ [storage_mode_u8 Encrypted] @ to_le 4 1 @ [7] @
      to_le 8 (unat (u64_of_len (length ct))) @ ct"

lemma short_file_length [simp]: "length (short_file ct) = 20 + length ct"
  by (simp add: short_file_def length_MAGIC)

lemma encode_short_header:
  "json_of_header J h = Some [7] \<Longrightarrow>
     encode_vault_storage J probe h (SEncrypted ct) 1 = Inr (short_file ct)"
  by (simp add: encode_vault_storage_def serialize_header_json_def MAX_HEADER_LEN_def short_file_def)

lemma demo_encode:
  "encode_vault_storage (demo_json h) probe h (SEncrypted ct) 1 = Inr (short_file ct)"
  by (simp add: encode_short_header)

lemma demo_password_length [simp]:
  "length (as_bytes (lit ''pw'')) = 2" "length (as_bytes (lit ''no'')) = 2"
  "length (as_bytes (lit ''xx'')) = 2"
  by (simp_all add: length_as_bytes lit_def char_len_def)

lemma demo_crypto_length [simp]:
  "length (ch_salt (demo_crypto i)) = 32" "length (ch_nonce (demo_crypto i)) = 24"
  by (simp_all add: demo_crypto_def SALT_LEN_def XCHACHA20_NONCE_LEN_def)

lemma toy_seal_length [simp]:
  "length (toy_seal k n a p) = 24 + length k + length n + length a + length p"
  by (simp add: toy_seal_def)

lemma toy_bytes_length [simp]: "length (toy_bytes bs) = 2 * length bs + 1"
  by (induction bs) auto

text \<open>A library that names both the old and the new header, for the migration.\<close>

definition migration_json :: json_lib where
  "migration_json = (demo_json demo_header)\<lparr>json_of_header := \<lambda>h.
     if h = demo_header \<or> h = demo_duress_header then Some [7] else None\<rparr>"

lemma migration_json_sel [simp]:
  "json_of_header migration_json demo_header = Some [7]"
  "json_of_header migration_json demo_duress_header = Some [7]"
  "payload_to_vec migration_json empty_payload = Some [0]"
  "payload_from_slice migration_json [1] = Some demo_payload"
  "payload_from_slice migration_json [0] = Some empty_payload"
  "envelope_json_correct migration_json"
  "json_of_envelope migration_json v = Some (toy_bytes (env_primary_ct v) @ toy_bytes (env_decoy_ct v))"
  "json_to_envelope migration_json b = json_to_envelope (demo_json demo_header) b"
  using demo_json_sel(7,8) [of demo_header] demo_payload_from [of demo_header]
    demo_json_sel(6) [of demo_header]
  by (simp_all add: migration_json_def envelope_json_correct_def payload_to_vec_def payload_from_slice_def)

definition demo_envelope_bytes :: bytes where
  "demo_envelope_bytes =
     toy_bytes (env_primary_ct demo_envelope) @ toy_bytes (env_decoy_ct demo_envelope)"

definition demo_plain_file :: parsed_vault_file where
  "demo_plain_file = \<lparr>pv_format_version = 1, pv_header = demo_header, pv_header_bytes = [7],
     pv_mode = PlaintextJson, pv_payload = []\<rparr>"

definition weak_crypto :: crypto_header where
  "weak_crypto = \<lparr>ch_kdf = Argon2id 8 1 1, ch_aead = XChaCha20Poly1305, ch_salt = [], ch_nonce = []\<rparr>"

definition weak_duress_file :: parsed_vault_file where
  "weak_duress_file = \<lparr>pv_format_version = 1, pv_header = \<lparr>vh_schema_version = 1, vh_vault_id = 7,
      vh_crypto = weak_crypto, vh_duress = Some \<lparr>dh_primary = weak_crypto, dh_decoy = weak_crypto\<rparr>\<rparr>,
    pv_header_bytes = [7], pv_mode = Encrypted, pv_payload = demo_envelope_bytes\<rparr>"

lemma demo_duress_vault_sel [simp]:
  "vf_header demo_duress_vault = demo_duress_header"
  "vf_storage demo_duress_vault = SEncrypted demo_envelope_bytes"
  by (simp_all add: demo_duress_vault_def demo_envelope_bytes_def)

lemma demo_duress_sel:
  "vh_duress demo_duress_header = Some \<lparr>dh_primary = demo_crypto 0, dh_decoy = demo_crypto 2\<rparr>"
  by (simp add: demo_duress_header_def)

lemma demo_envelope_read: "json_to_envelope (demo_json h) demo_envelope_bytes = Some demo_envelope"
  using demo_json_sel(7) [of h] demo_json_sel(8) [of h demo_envelope]
  by (simp add: envelope_json_correct_def demo_envelope_bytes_def)

definition toy_tag :: "bytes \<Rightarrow> bytes \<Rightarrow> bytes \<Rightarrow> bytes" where
  "toy_tag k n a = to_le 8 (length k) @ to_le 8 (length n) @ to_le 8 (length a) @ k @ n @ a"

lemma toy_decrypt_tag:
  "xchacha_decrypt toy_cipher k n c a =
     (if take (length (toy_tag k n a)) c = toy_tag k n a then Some (drop (length (toy_tag k n a)) c)
      else None)"
  by (simp only: toy_cipher_def crypto_lib.simps Let_def toy_tag_def)

lemma toy_seal_tag:
  assumes "length k = length k'" "length n = length n'" "length a = length a'"
    and "(k, n, a) \<noteq> (k', n', a')"
  shows "xchacha_decrypt toy_cipher k n (toy_seal k' n' a' p) a = None"
proof -
  have s: "toy_seal k' n' a' p = toy_tag k' n' a' @ p" by (simp add: toy_seal_def toy_tag_def)
  have "length (toy_tag k n a) = length (toy_tag k' n' a')" using assms by (simp add: toy_tag_def)
  moreover have "toy_tag k' n' a' \<noteq> toy_tag k n a"
    using assms by (auto simp: toy_tag_def append_eq_append_conv)
  ultimately show ?thesis by (simp add: toy_decrypt_tag s)
qed

lemma demo_opens:
  "decrypt_with_crypto_header toy_cipher hb (demo_crypto i) ct pw =
     ok_or AuthFailed (xchacha_decrypt toy_cipher (as_bytes pw @ ch_salt (demo_crypto i))
       (ch_nonce (demo_crypto i)) ct hb)"
  by (cases "xchacha_decrypt toy_cipher (as_bytes pw @ ch_salt (demo_crypto i))
       (ch_nonce (demo_crypto i)) ct hb")
     (simp_all add: decrypt_with_crypto_header_def demo_crypto_def decrypt_xchacha20poly1305_def)

lemma demo_passwords_differ:
  "as_bytes (lit ''no'') \<noteq> as_bytes (lit ''pw'')" "as_bytes (lit ''xx'') \<noteq> as_bytes (lit ''pw'')"
  "as_bytes (lit ''xx'') \<noteq> as_bytes (lit ''no'')"
  by (simp_all add: as_bytes_def utf8_char_def lit_def byte_def)

lemma demo_duress_shut_out:
  "shut_out toy_cipher [7] (demo_crypto 0) (env_primary_ct demo_envelope) (lit ''no'')"
  "shut_out toy_cipher [7] (demo_crypto 0) (env_primary_ct demo_envelope) (lit ''xx'')"
  "shut_out toy_cipher [7] (demo_crypto 2) (env_decoy_ct demo_envelope) (lit ''xx'')"
  using demo_passwords_differ
  by (simp_all add: shut_out_def demo_opens demo_envelope_def toy_seal_tag)

lemma demo_migrate:
  "enable_duress_on_vault migration_json toy_cipher demo_rng demo_vault (lit ''pw'') (lit ''no'')
     empty_payload demo_kdf = Inr demo_duress_vault"
proof -
  have h: "vh_duress demo_header = None" "vh_crypto demo_header = demo_crypto 0"
    "vh_schema_version demo_header = 1" "vh_vault_id demo_header = 7"
    by (simp_all add: demo_header_def)
  have k: "ch_kdf (demo_crypto 0) = Argon2id 65536 3 1" by (simp add: demo_crypto_def)
  show ?thesis
    by (simp add: enable_duress_on_vault_def h k fill_def Let_def demo_duress_header_eq demo_duress_sel
        decrypt_xchacha20poly1305_def encrypt_duress_envelope_from_plaintext_json_def
        validate_payload_json_def)
      (simp add: demo_duress_vault_def demo_envelope_def)
qed

end
