(* ===== verification/Vault_Life.thy ===== *)
theory Vault_Life
  imports Samples
begin

text \<open>
  The life of a vault file from end to end: create, encode, decode, unlock, convert
  into a duress vault, unlock again.
\<close>

lemma created_vault_opens:
  assumes "create_encrypted_vault J C rnd new_id pw p schema kdf = Inr vf"
    and "encode_vault_storage J probe (vf_header vf) (vf_storage vf) fv = Inr file"
    and "length file \<le> 16 * 1024 * 1024"
    and "aead_correct C" and "header_json_ok J (vf_header vf)"
    and "payload_json_ok J (map entry_to_dto (vp_entries p))"
  shows "\<exists>parsed. decode_vault_file J probe' file (Some fv) MAX_VAULT_CONTAINER_PAYLOAD_LEN False
      = Inr parsed \<and>
    unlock_vault_with_outcome J C parsed pw =
      (if payload_ok p then Inr (Primary, p) else Inl PayloadDecode)"
proof -
  obtain hb pt ct where c: "vh_duress (vf_header vf) = None" "vf_storage vf = SEncrypted ct"
    "json_of_header J (vf_header vf) = Some hb" "payload_to_vec J p = Some pt"
    and e: "encrypt_with_crypto_header C hb (vh_crypto (vf_header vf)) pt pw = Inr ct"
    by (rule create_encrypted_ok [OF assms(1)])
  let ?parsed = "\<lparr>pv_format_version = fv, pv_header = vf_header vf, pv_header_bytes = hb,
    pv_mode = Encrypted, pv_payload = ct\<rparr>"
  have "decode_vault_file J probe' file (Some fv) MAX_VAULT_CONTAINER_PAYLOAD_LEN False = Inr ?parsed"
    by (rule decode_created [OF _ assms(3,5) c(3)]) (use assms(2) c(2) in simp)
  moreover have "unlock_vault_to_plaintext_json_with_outcome J C ?parsed pw = Inr (Primary, pt)"
    using c decrypt_encrypt_branch [OF assms(4) e] by (intro legacy_unlock_decrypt) simp_all
  ultimately show ?thesis
    using payload_from_to_vec [OF assms(6) c(4)] by (auto simp: unlock_payload_via_json)
qed

text \<open>What a file made by \<open>create_duress_vault\<close> decodes to, and what its two passwords open.\<close>

lemma created_duress_file:
  assumes "create_duress_vault J C rnd new_id pw1 pw2 p1 p2 schema kdf = Inr vf"
    and "encode_vault_storage J probe (vf_header vf) (vf_storage vf) fv = Inr file"
    and "length file \<le> 16 * 1024 * 1024"
    and "aead_correct C" and "header_json_ok J (vf_header vf)" and "envelope_json_correct J"
  obtains parsed dh pt1 pt2 env where
    "decode_vault_file J probe' file (Some fv) MAX_VAULT_CONTAINER_PAYLOAD_LEN False = Inr parsed"
    "vh_duress (pv_header parsed) = Some dh" "pv_mode parsed = Encrypted"
    "json_to_envelope J (pv_payload parsed) = Some env"
    "payload_to_vec J p1 = Some pt1" "payload_to_vec J p2 = Some pt2"
    "encrypt_duress_envelope_from_plaintext_json J C (pv_header_bytes parsed) dh pw1 pw2 pt1 pt2 = Inr env"
    "unlock_vault_to_plaintext_json_with_outcome J C parsed pw1 = Inr (Primary, pt1)"
    "shut_out C (pv_header_bytes parsed) (dh_primary dh) (env_primary_ct env) pw2 \<Longrightarrow>
      unlock_vault_to_plaintext_json_with_outcome J C parsed pw2 = Inr (Decoy, pt2)"
proof -
  obtain hb dh pt1 pt2 env ct where c: "vh_duress (vf_header vf) = Some dh"
    "vf_storage vf = SEncrypted ct" "json_of_header J (vf_header vf) = Some hb"
    "payload_to_vec J p1 = Some pt1" "payload_to_vec J p2 = Some pt2"
    and e: "encrypt_duress_envelope_from_plaintext_json J C hb dh pw1 pw2 pt1 pt2 = Inr env"
    and ct: "json_of_envelope J env = Some ct"
    by (rule create_duress_ok [OF assms(1)])
  let ?parsed = "\<lparr>pv_format_version = fv, pv_header = vf_header vf, pv_header_bytes = hb,
    pv_mode = Encrypted, pv_payload = ct\<rparr>"
  have "decode_vault_file J probe' file (Some fv) MAX_VAULT_CONTAINER_PAYLOAD_LEN False = Inr ?parsed"
    by (rule decode_created [OF _ assms(3,5) c(3)]) (use assms(2) c(2) in simp)
  moreover have "unlock_vault_to_plaintext_json_with_outcome J C ?parsed pw1 = Inr (Primary, pt1)"
    "shut_out C hb (dh_primary dh) (env_primary_ct env) pw2 \<Longrightarrow>
      unlock_vault_to_plaintext_json_with_outcome J C ?parsed pw2 = Inr (Decoy, pt2)"
    using duress_file_unlocks [OF assms(4,6), of ?parsed dh pw1 pw2 pt1 pt2 env] c e ct by simp_all
  moreover have "json_to_envelope J ct = Some env"
    using assms(6) ct by (simp add: envelope_json_correct_def)
  ultimately show thesis
    using that [of ?parsed dh env pt1 pt2] c e by simp
qed

section \<open>Properties\<close>

text \<open>C9. Both passwords of a vault made by \<open>create_duress_vault\<close> open its file, when that is within the 16 MiB
  the decoder reads: the primary
  password the primary payload, and the decoy password the decoy payload, provided its derived
  key does not authenticate the primary ciphertext (so with one password for both branches the
  decoy payload is out of reach). A password that opens neither branch is refused.\<close>

theorem created_duress_vault_unlocks:
  assumes "create_duress_vault J C rnd new_id pw1 pw2 p1 p2 schema kdf = Inr vf"
    and "encode_vault_storage J probe (vf_header vf) (vf_storage vf) fv = Inr file"
    and "length file \<le> 16 * 1024 * 1024"
    and "aead_correct C" and "header_json_ok J (vf_header vf)" and "envelope_json_correct J"
    and "payload_json_ok J (map entry_to_dto (vp_entries p1))"
    and "payload_json_ok J (map entry_to_dto (vp_entries p2))"
  shows "\<exists>parsed dh env.
    decode_vault_file J probe' file (Some fv) MAX_VAULT_CONTAINER_PAYLOAD_LEN False = Inr parsed \<and>
    vh_duress (pv_header parsed) = Some dh \<and> json_to_envelope J (pv_payload parsed) = Some env \<and>
    unlock_vault_with_outcome J C parsed pw1 = Inr (Primary, p1) \<and>
    (shut_out C (pv_header_bytes parsed) (dh_primary dh) (env_primary_ct env) pw2 \<longrightarrow>
       unlock_vault_with_outcome J C parsed pw2 = Inr (Decoy, p2)) \<and>
    (\<forall>pw. shut_out C (pv_header_bytes parsed) (dh_primary dh) (env_primary_ct env) pw \<and>
       shut_out C (pv_header_bytes parsed) (dh_decoy dh) (env_decoy_ct env) pw \<longrightarrow>
       unlock_vault_with_outcome J C parsed pw = Inl UnlAuthFailed)"
proof -
  obtain parsed dh pt1 pt2 env where
    d: "decode_vault_file J probe' file (Some fv) MAX_VAULT_CONTAINER_PAYLOAD_LEN False = Inr parsed"
    and c: "vh_duress (pv_header parsed) = Some dh" "pv_mode parsed = Encrypted"
      "json_to_envelope J (pv_payload parsed) = Some env" "payload_to_vec J p1 = Some pt1" "payload_to_vec J p2 = Some pt2"
    and e: "encrypt_duress_envelope_from_plaintext_json J C (pv_header_bytes parsed) dh pw1 pw2 pt1 pt2 = Inr env"
    and u: "unlock_vault_to_plaintext_json_with_outcome J C parsed pw1 = Inr (Primary, pt1)"
      "shut_out C (pv_header_bytes parsed) (dh_primary dh) (env_primary_ct env) pw2 \<Longrightarrow>
        unlock_vault_to_plaintext_json_with_outcome J C parsed pw2 = Inr (Decoy, pt2)"
    by (rule created_duress_file [OF assms(1-6), of probe']) blast
  have p: "payload_from_slice J pt1 = Some p1" "payload_from_slice J pt2 = Some p2"
    using encrypt_envelope_ok [OF e] payload_from_to_vec [OF assms(7) c(4)]
      payload_from_to_vec [OF assms(8) c(5)] by (auto split: if_splits)
  have "unlock_vault_with_outcome J C parsed pw = Inl UnlAuthFailed"
    if "shut_out C (pv_header_bytes parsed) (dh_primary dh) (env_primary_ct env) pw"
      "shut_out C (pv_header_bytes parsed) (dh_decoy dh) (env_decoy_ct env) pw" for pw
    using duress_unlock_envelope [OF c(2,1,3)] unlock_envelope_neither [OF that]
    by (simp add: unlock_payload_via_json)
  with u p d c(1,3) show ?thesis
    by (intro exI [of _ parsed] exI [of _ dh] exI [of _ env]) (simp add: unlock_payload_via_json)
qed

theorem created_duress_vault_unlocks_witness:
  "\<exists>vf file parsed.
    create_duress_vault (demo_json demo_duress_header) toy_cipher demo_rng 7 (lit ''pw'') (lit ''no'')
      demo_payload empty_payload 1 demo_kdf = Inr vf \<and>
    encode_vault_storage (demo_json demo_duress_header) NotDebugged (vf_header vf) (vf_storage vf) 1
      = Inr file \<and>
    decode_vault_file (demo_json demo_duress_header) NotDebugged file (Some 1)
      MAX_VAULT_CONTAINER_PAYLOAD_LEN False = Inr parsed \<and>
    unlock_vault_with_outcome (demo_json demo_duress_header) toy_cipher parsed (lit ''pw'') =
      Inr (Primary, demo_payload) \<and>
    unlock_vault_with_outcome (demo_json demo_duress_header) toy_cipher parsed (lit ''no'') =
      Inr (Decoy, empty_payload) \<and>
    unlock_vault_with_outcome (demo_json demo_duress_header) toy_cipher parsed (lit ''xx'') =
      Inl UnlAuthFailed"
proof -
  let ?J = "demo_json demo_duress_header" and ?ct = "demo_envelope_bytes"
  let ?p = "\<lparr>pv_format_version = 1, pv_header = demo_duress_header, pv_header_bytes = [7],
    pv_mode = Encrypted, pv_payload = ?ct\<rparr>"
  have enc: "encode_vault_storage ?J NotDebugged (vf_header demo_duress_vault)
      (vf_storage demo_duress_vault) 1 = Inr (short_file ?ct)" and
    len: "length (short_file ?ct) \<le> 16 * 1024 * 1024"
    by (simp_all add: demo_encode demo_duress_vault_sel demo_envelope_bytes_def demo_envelope_def)
  have dec: "decode_vault_file ?J NotDebugged (short_file ?ct) (Some 1)
      MAX_VAULT_CONTAINER_PAYLOAD_LEN False = Inr ?p"
    by (rule decode_created [OF _ len, where probe = NotDebugged]) (simp_all add: demo_encode)
  have hyp: "header_json_ok ?J (vf_header demo_duress_vault)" by simp
  show ?thesis
    using created_duress_vault_unlocks [OF demo_create_duress enc len toy_cipher_correct hyp
        demo_json_sel(7) demo_json_sel(3,4), of NotDebugged] dec enc demo_create_duress
      demo_duress_shut_out
    by (auto simp: demo_duress_sel demo_envelope_read)
qed

text \<open>C35. Enabling duress mode keeps the vault's identifier and schema version, and the new file
  opens: under the primary password with the very plaintext the old ciphertext held, and under
  the decoy password with the decoy payload when that password is shut out of the primary
  branch.\<close>

theorem enable_duress_preserves_vault:
  assumes "enable_duress_on_vault J C rnd vault pw1 pw2 p2 kdf = Inr vf"
    and "aead_correct C" and "envelope_json_correct J"
    and "json_of_header J (vf_header vault) = Some hb0" and "vf_storage vault = SEncrypted ct0"
    and "json_of_header J (vf_header vf) = Some hb" and "vf_storage vf = SEncrypted ct"
    and "vh_duress (vf_header vf) = Some dh" and "json_to_envelope J ct = Some env"
    and "old = \<lparr>pv_format_version = fv, pv_header = vf_header vault, pv_header_bytes = hb0,
               pv_mode = Encrypted, pv_payload = ct0\<rparr>"
    and "new = \<lparr>pv_format_version = fv, pv_header = vf_header vf, pv_header_bytes = hb,
               pv_mode = Encrypted, pv_payload = ct\<rparr>"
  shows "vh_vault_id (vf_header vf) = vh_vault_id (vf_header vault) \<and>
    vh_schema_version (vf_header vf) = vh_schema_version (vf_header vault) \<and>
    is_ok (unlock_vault_to_plaintext_json_with_outcome J C new pw1) \<and>
    unlock_vault_to_plaintext_json_with_outcome J C new pw1 =
      unlock_vault_to_plaintext_json_with_outcome J C old pw1 \<and>
    (shut_out C hb (dh_primary dh) (env_primary_ct env) pw2 \<longrightarrow>
       (\<exists>pt2. payload_to_vec J p2 = Some pt2 \<and>
          unlock_vault_to_plaintext_json_with_outcome J C new pw2 = Inr (Decoy, pt2)))"
proof (rule enable_duress_ok [OF assms(1)])
  fix ct0' hb0' hb' dh' pt1 pt2 env' ct'
  assume a: "vf_storage vault = SEncrypted ct0'" "vh_duress (vf_header vault) = None"
    "json_of_header J (vf_header vault) = Some hb0'"
    "decrypt_with_crypto_header C hb0' (vh_crypto (vf_header vault)) ct0' pw1 = Inr pt1"
    "vh_schema_version (vf_header vf) = vh_schema_version (vf_header vault)"
    "vh_vault_id (vf_header vf) = vh_vault_id (vf_header vault)"
    "vh_duress (vf_header vf) = Some dh'" "vf_storage vf = SEncrypted ct'"
    "json_of_header J (vf_header vf) = Some hb'" "payload_to_vec J p2 = Some pt2"
    "encrypt_duress_envelope_from_plaintext_json J C hb' dh' pw1 pw2 pt1 pt2 = Inr env'"
    "json_of_envelope J env' = Some ct'"
  have eq: "ct0' = ct0" "hb0' = hb0" "hb' = hb" "dh' = dh" "ct' = ct"
    using a(1,3,7,8,9) assms(4-8) by simp_all
  have "env' = env"
    using a(12) assms(3,9) eq by (simp add: envelope_json_correct_def)
  with duress_file_unlocks [OF assms(2,3), of new dh pw1 pw2 pt1 pt2 env] a eq
  have "unlock_vault_to_plaintext_json_with_outcome J C new pw1 = Inr (Primary, pt1)"
    "shut_out C hb (dh_primary dh) (env_primary_ct env) pw2 \<Longrightarrow>
      unlock_vault_to_plaintext_json_with_outcome J C new pw2 = Inr (Decoy, pt2)"
    by (simp_all add: assms(11))
  moreover have "unlock_vault_to_plaintext_json_with_outcome J C old pw1 = Inr (Primary, pt1)"
    using a(2,4) eq by (intro legacy_unlock_decrypt) (simp_all add: assms(10))
  ultimately show ?thesis using a(5,6,10) by simp
qed

theorem enable_duress_preserves_vault_witness:
  "enable_duress_on_vault migration_json toy_cipher demo_rng demo_vault (lit ''pw'') (lit ''no'')
      empty_payload demo_kdf = Inr demo_duress_vault \<and>
   vh_vault_id (vf_header demo_duress_vault) = vh_vault_id (vf_header demo_vault) \<and>
   unlock_vault_to_plaintext_json_with_outcome migration_json toy_cipher
     \<lparr>pv_format_version = 1, pv_header = demo_duress_header, pv_header_bytes = [7],
      pv_mode = Encrypted, pv_payload = demo_envelope_bytes\<rparr> (lit ''no'') = Inr (Decoy, [0])"
proof -
  have e: "json_to_envelope migration_json demo_envelope_bytes = Some demo_envelope"
    by (simp add: demo_envelope_read)
  have h: "vf_header demo_vault = demo_header" "vf_header demo_duress_vault = demo_duress_header"
    by simp_all
  show ?thesis
    using enable_duress_preserves_vault [OF demo_migrate toy_cipher_correct migration_json_sel(6)
        _ demo_vault_sel(2) _ demo_duress_vault_sel(2) _ e refl refl, unfolded h,
        OF migration_json_sel(1,2) demo_duress_sel, of 1] demo_migrate demo_duress_shut_out(1)
    by (simp only: h migration_json_sel(3) dual_vault_header.simps) simp
qed

text \<open>Finding. \<open>enable_duress_on_vault\<close> authenticates the old ciphertext against a
  re-serialised header. A file whose stored header bytes are not byte for byte what the current
  serialiser writes for that header opens normally, but cannot be converted: the conversion
  reports a wrong password.\<close>

lemma enable_duress_needs_reserialised_header:
  assumes "vh_duress (pv_header parsed) = None"
    and "unlock_vault_to_plaintext_json_with_outcome J C parsed pw1 = Inr (Primary, pt)"
    and "json_of_header J (pv_header parsed) = Some hb"
    and "shut_out C hb (vh_crypto (pv_header parsed)) (pv_payload parsed) pw1"
  shows "hb \<noteq> pv_header_bytes parsed \<and>
    enable_duress_on_vault J C rnd
      \<lparr>vf_header = pv_header parsed, vf_storage = SEncrypted (pv_payload parsed)\<rparr>
      pw1 pw2 p2 kdf = Inl AuthFailed"
  using assms
  by (auto simp: unlock_vault_to_plaintext_json_with_outcome_def enable_duress_on_vault_def
      decrypt_with_crypto_header_def shut_out_def is_ok_iff rbind_Inl_iff map_err_Inl_iff
      decrypt_xchacha20poly1305_def split: kdf_params.splits if_splits)

text \<open>The entry points agree: \<open>unlock_vault_with_outcome\<close> and \<open>unlock_vault\<close> return exactly the
  decoded form of what the canonical \<open>unlock_vault_to_plaintext_json_with_outcome\<close> returns, on
  every branch and with the same error, for legacy and duress vaults alike; and every payload
  they hand out satisfies the type invariants of all its entries.\<close>

lemma unlock_entry_points_agree:
  "unlock_vault_with_outcome J C parsed pw =
     (case unlock_vault_to_plaintext_json_with_outcome J C parsed pw of
        Inl e \<Rightarrow> Inl e
      | Inr (outcome, pt) \<Rightarrow>
          (case payload_from_slice J pt of None \<Rightarrow> Inl PayloadDecode | Some p \<Rightarrow> Inr (outcome, p))) \<and>
   unlock_vault J C parsed pw = rbind (unlock_vault_with_outcome J C parsed pw) (\<lambda>(_, p). Inr p) \<and>
   (case unlock_vault_with_outcome J C parsed pw of Inl _ \<Rightarrow> True | Inr (_, p) \<Rightarrow> payload_ok p)"
proof (cases "unlock_vault_to_plaintext_json_with_outcome J C parsed pw")
  case (Inr v)
  then show ?thesis
    by (cases v; cases "payload_from_slice J (snd v)")
       (simp_all add: unlock_payload_via_json unlock_vault_def unlock_vault_to_plaintext_json_def
         payload_from_slice_ok)
qed (simp add: unlock_payload_via_json unlock_vault_def unlock_vault_to_plaintext_json_def)

text \<open>C36. What one gated attempt does to the throttle, under a policy whose jitter draw cannot panic (the
  bound is not one millisecond short of a multiple of 2 to the 64). A primary unlock resets it, a decoy
  unlock leaves it as it is. An authentication failure counts: the counter, halved first when the last
  failure is at least a quiet period ago, goes up by one unless it is at its largest value; and it sleeps
  between the delay scheduled for the new count and that delay plus the jitter bound. Any other error
  neither counts nor sleeps.\<close>

theorem gated_unlock_throttle:
  assumes "jitter_safe (gate_policy g)"
    and "res = unlock_vault_to_plaintext_json_with_outcome J C parsed pw"
  shows "\<exists>g' slept. unlock_plaintext_json_gated J C g now r parsed pw = Some (res, g', slept) \<and>
    (case res of
       Inr (Primary, _) \<Rightarrow> g' = auth_gate_reset g \<and> slept = 0
     | Inr (Decoy, _) \<Rightarrow> g' = g \<and> slept = 0
     | Inl UnlAuthFailed \<Rightarrow>
         gate_policy g' = gate_policy g \<and> last_failure (gate_limiter g') = Some now \<and>
         unat (failures (gate_limiter g')) =
           min (2 ^ 32 - 1) ((case last_failure (gate_limiter g) of
               None \<Rightarrow> unat (failures (gate_limiter g))
             | Some t \<Rightarrow> if quiet_period (gate_policy g) \<le> sat_since now t then unat (failures (gate_limiter g)) div 2
                         else unat (failures (gate_limiter g))) + 1) \<and>
         min (password_delay_for_failures (failures (gate_limiter g'))) (max_delay (gate_policy g)) \<le> slept \<and>
         slept \<le> min (password_delay_for_failures (failures (gate_limiter g')))
                     (max_delay (gate_policy g)) + jitter_max (gate_policy g)
     | Inl _ \<Rightarrow> g' = g \<and> slept = 0)"
proof (cases res)
  case (Inl e)
  let ?f = "on_failure_delay (gate_limiter g) (gate_policy g) now r"
  obtain d where d: "?f = (fst ?f, Some d)"
    "min (password_delay_for_failures (failures (fst ?f))) (max_delay (gate_policy g)) \<le> d"
    "d \<le> min (password_delay_for_failures (failures (fst ?f))) (max_delay (gate_policy g))
       + jitter_max (gate_policy g)"
    using on_failure_delay_bounds [OF assms(1), of "gate_limiter g" now r] by (metis prod.collapse)
  show ?thesis
  proof (cases "e = UnlAuthFailed")
    case True
    have "unlock_plaintext_json_gated J C g now r parsed pw = Some (res, g\<lparr>gate_limiter := fst ?f\<rparr>, d)"
      using gated_auth_failure [OF _ d(1)] Inl True assms(2) by simp
    with Inl True d(2,3) show ?thesis
      using on_failure_delay_failures [of "gate_limiter g" "gate_policy g" now r] by simp
  next
    case False
    with Inl assms(2) show ?thesis
      by (cases e) (simp_all add: unlock_plaintext_json_gated_def auth_gate_run_def)
  qed
next
  case (Inr v)
  then show ?thesis using assms(2)
    by (cases v; cases "fst v") (auto simp: unlock_plaintext_json_gated_def auth_gate_run_def)
qed

theorem gated_unlock_throttle_witness:
  "\<exists>g' slept. unlock_plaintext_json_gated (demo_json demo_header) toy_cipher
      (auth_gate_new default_throttle_policy) 0 5 demo_plain_file (lit ''pw'') =
        Some (Inl UnlAuthFailed, g', slept) \<and> slept \<le> dur_secs 61 \<and> unat (failures (gate_limiter g')) = 1"
proof -
  have r: "unlock_vault_to_plaintext_json_with_outcome (demo_json demo_header) toy_cipher demo_plain_file
      (lit ''pw'') = Inl UnlAuthFailed"
    by (simp add: unlock_vault_to_plaintext_json_with_outcome_def demo_plain_file_def)
  have "jitter_safe (gate_policy (auth_gate_new default_throttle_policy))"
    by (simp add: auth_gate_new_def)
  from gated_unlock_throttle [OF this r [symmetric], of 0 5]
  show ?thesis
    by (auto simp: auth_gate_new_def default_limiter_def default_throttle_policy_def dur_secs_def dur_millis_def)
qed

text \<open>Decoy unlocks are invisible to the throttle: in any sequence of gated attempts, deleting
  the attempts that opened the decoy payload leaves the gate in the same final state (and panics
  in the same cases), so a coerced user's unlocks neither clear nor add to a guessing penalty.\<close>

lemma decoy_unlocks_leave_throttle:
  "map_option snd (gated_attempts J C g as) =
     map_option snd (gated_attempts J C g (filter (\<lambda>a. \<not> opens_decoy J C a) as))"
proof (induction as arbitrary: g)
  case (Cons a as)
  obtain now r parsed pw where a: "a = (now, r, parsed, pw)" by (cases a) auto
  have s: "map_option (snd \<circ> (\<lambda>(ds, y). (d # ds, y))) x = map_option snd x" for d and
      x :: "(duration list \<times> auth_gate) option"
    by (cases x) auto
  show ?case
    using gated_decoy [of J C now r parsed pw g] Cons.IH
    by (cases "opens_decoy J C a") (auto simp: a option.map_comp s split: option.splits prod.splits)
qed simp

text \<open>Finding. KDF errors are documented as not delayed, to avoid a denial of service through
  malformed files, and for a legacy header that is so. The same out-of-range parameters in a
  duress header are reported as an authentication failure, which the gate counts and delays.\<close>

lemma duress_kdf_error_is_throttled:
  assumes "pv_mode parsed = Encrypted" and "vh_duress (pv_header parsed) = Some dh"
    and "json_to_envelope J (pv_payload parsed) = Some env"
    and "ch_kdf (dh_primary dh) = Argon2id m1 t1 l1" and "\<not> argon2id_params_ok m1 t1 l1"
    and "ch_kdf (dh_decoy dh) = Argon2id m2 t2 l2" and "\<not> argon2id_params_ok m2 t2 l2"
    and "ch_kdf (vh_crypto (pv_header parsed)) = Argon2id m1 t1 l1"
    and "unat (failures (gate_limiter g)) + 1 < 2 ^ 32" and "last_failure (gate_limiter g) = None"
    and "unlock_plaintext_json_gated J C g now r parsed pw = Some (res, g', slept)"
  shows "res = Inl UnlAuthFailed \<and> failures (gate_limiter g') = failures (gate_limiter g) + 1 \<and>
    unlock_vault_to_plaintext_json_with_outcome J C
      (parsed\<lparr>pv_header := (pv_header parsed)\<lparr>vh_duress := None\<rparr>\<rparr>) pw = Inl (Kdf KdfInvalidParams)"
proof -
  have bad: "derive_master_key_from_password C pw s m t l = Inl KdfInvalidParams"
    if "\<not> argon2id_params_ok m t l" for s m t l
    using that validate_argon2id_params_ok [of m t l]
    by (simp add: derive_master_key_from_password_def validate_argon2id_params_def split: if_splits)
  then have "shut_out C (pv_header_bytes parsed) (dh_primary dh) (env_primary_ct env) pw"
    "shut_out C (pv_header_bytes parsed) (dh_decoy dh) (env_decoy_ct env) pw"
    using assms(4-7) by (simp_all add: shut_out_def decrypt_with_crypto_header_def)
  then have "unlock_vault_to_plaintext_json_with_outcome J C parsed pw = Inl UnlAuthFailed"
    using unlock_envelope_neither assms(1-3) by (simp add: duress_unlock_envelope)
  then have "res = Inl UnlAuthFailed" and
    "gate_limiter g' = fst (on_failure_delay (gate_limiter g) (gate_policy g) now r)"
    using assms(11) by (auto simp: unlock_plaintext_json_gated_def auth_gate_run_def
        split: prod.splits option.splits)
  then show ?thesis
    using on_failure_delay_counts [of "gate_limiter g" now "gate_policy g" r] assms(1,5,8,9,10) bad
    by (simp add: sat_add_word_def unlock_vault_to_plaintext_json_with_outcome_def)
qed

end
