(* ===== verification/Storage.thy ===== *)
theory Storage
  imports Rust_String
begin

text \<open>
  \<open>vault/storage.rs\<close>: a vault file is written to a temporary file, synced and renamed over
  its target. The file system is modelled with what a crash can do to it: directories and
  entries that are not synced yet, data that is not on disk yet; and with the two kinds of
  target the code is compiled for, those where a directory can be synced and the others. A
  locale states what the generic writer needs of a backend, the real backend is its
  interpretation.
\<close>

section \<open>Paths (std::path)\<close>

datatype path_part = RootDir | CurDir | ParentDir | Normal rstring

type_synonym path = "path_part list"

definition parent :: "path \<Rightarrow> path option" where
  "parent p = (if p = [] \<or> last p = RootDir then None else Some (butlast p))"

definition file_name :: "path \<Rightarrow> rstring option" where
  "file_name p = (if p = [] then None else case last p of Normal n \<Rightarrow> Some n | _ \<Rightarrow> None)"

definition path_join :: "path \<Rightarrow> rstring \<Rightarrow> path" where "path_join dir name = dir @ [Normal name]"

section \<open>Errors, lock and temporary paths\<close>

datatype vault_storage_error = InvalidPath | Io nat | Lock nat

definition lock_path_for :: "path \<Rightarrow> vault_storage_error + path" where
  "lock_path_for vault_path =
    rbind (ok_or InvalidPath (parent vault_path)) (\<lambda>dir.
    rbind (ok_or InvalidPath (file_name vault_path)) (\<lambda>base_name.
      Inr (path_join dir (base_name @ lit ''.lock''))))"

text \<open>\<open>suffix\<close> is the text of the fresh identifier.\<close>
definition temp_path_for :: "rstring \<Rightarrow> path \<Rightarrow> rstring \<Rightarrow> path" where
  "temp_path_for suffix dir base_name = path_join dir (lit ''.'' @ base_name @ lit ''.tmp.'' @ suffix)"

section \<open>The writer\<close>

text \<open>\<open>?\<close> on a call that may change the state.\<close>
fun and_then :: "'s \<times> ('e + 'a) \<Rightarrow> ('a \<Rightarrow> 's \<Rightarrow> 's \<times> ('e + 'b)) \<Rightarrow> 's \<times> ('e + 'b)" where
  "and_then (s, Inl e) k = (s, Inl e)"
| "and_then (s, Inr v) k = k v s"

record ('s, 't) storage_backend =
  sb_temp_path_for :: "path \<Rightarrow> rstring \<Rightarrow> path"
  sb_create_temp_file :: "path \<Rightarrow> 's \<Rightarrow> 's \<times> (vault_storage_error + 't)"
  sb_write_all :: "'t \<Rightarrow> bytes \<Rightarrow> 's \<Rightarrow> 's \<times> (vault_storage_error + unit)"
  sb_sync_temp_file :: "'t \<Rightarrow> 's \<Rightarrow> 's \<times> (vault_storage_error + unit)"
  sb_rename :: "path \<Rightarrow> path \<Rightarrow> 's \<Rightarrow> 's \<times> (vault_storage_error + unit)"
  sb_remove_file :: "path \<Rightarrow> 's \<Rightarrow> 's \<times> (vault_storage_error + unit)"
  sb_sync_parent_dir :: "path \<Rightarrow> 's \<Rightarrow> 's \<times> (vault_storage_error + unit)"

text \<open>The closure whose result decides about the clean-up.\<close>
definition write_and_commit ::
    "('s, 't) storage_backend \<Rightarrow> path \<Rightarrow> path \<Rightarrow> path \<Rightarrow> bytes \<Rightarrow> 's \<Rightarrow> 's \<times> (vault_storage_error + unit)" where
  "write_and_commit B dir tmp_path path bytes s =
    and_then (sb_create_temp_file B tmp_path s) (\<lambda>tmp s.
    and_then (sb_write_all B tmp bytes s) (\<lambda>_ s.
    and_then (sb_sync_temp_file B tmp s) (\<lambda>_ s.
    and_then (sb_rename B tmp_path path s) (\<lambda>_ s.
    sb_sync_parent_dir B dir s))))"

definition write_vault_atomic_with_backend ::
    "('s, 't) storage_backend \<Rightarrow> path \<Rightarrow> bytes \<Rightarrow> 's \<Rightarrow> 's \<times> (vault_storage_error + unit)" where
  "write_vault_atomic_with_backend B path bytes s =
    and_then (s, ok_or InvalidPath (parent path)) (\<lambda>dir s.
    and_then (s, ok_or InvalidPath (file_name path)) (\<lambda>base_name s.
      let tmp_path = sb_temp_path_for B dir base_name;
          (s', result) = write_and_commit B dir tmp_path path bytes s
      in if is_ok result then (s', result)
         else (fst (sb_remove_file B tmp_path s'), result)))"

section \<open>The disk\<close>

text \<open>
  A directory entry names a file by number. \<open>dk_maybe\<close> are the values an entry can have on
  the medium: every value it had since its directory was last synced. The data of a
  file is on the medium once the file has been synced. \<open>dk_dir\<close> are the directories that
  exist, \<open>dk_kept\<close> those whose own entry is on the medium; the root, \<open>.\<close> and \<open>..\<close> always exist.
\<close>

record disk =
  dk_dir :: "path \<Rightarrow> bool"
  dk_kept :: "path \<Rightarrow> bool"
  dk_entry :: "path \<Rightarrow> nat option"
  dk_maybe :: "path \<Rightarrow> nat option set"
  dk_data :: "nat \<Rightarrow> bytes"
  dk_synced :: "nat \<Rightarrow> bool"
  dk_fresh :: nat

definition set_entry :: "path \<Rightarrow> nat option \<Rightarrow> disk \<Rightarrow> disk" where
  "set_entry p e d = d\<lparr>dk_entry := (dk_entry d)(p := e), dk_maybe := (dk_maybe d)(p := insert e (dk_maybe d p))\<rparr>"

definition file_at :: "disk \<Rightarrow> path \<Rightarrow> bytes option" where
  "file_at d p = map_option (dk_data d) (dk_entry d p)"

definition named :: "path \<Rightarrow> bool" where "named p \<longleftrightarrow> file_name p \<noteq> None"

text \<open>A path and the directories above it, the outermost first.\<close>
definition ancestors :: "path \<Rightarrow> path list" where
  "ancestors p = map (\<lambda>n. take n p) [0..<Suc (length p)]"

text \<open>The directories that must be created before \<open>dir\<close> is one.\<close>
definition missing :: "disk \<Rightarrow> path \<Rightarrow> path list" where
  "missing d dir = filter (\<lambda>q. named q \<and> \<not> dk_dir d q) (ancestors dir)"

text \<open>No crash can lose the directory: its entry and those of all directories above it are on the medium.\<close>
definition lasting :: "disk \<Rightarrow> path \<Rightarrow> bool" where
  "lasting d dir \<longleftrightarrow> list_all (\<lambda>q. named q \<longrightarrow> dk_kept d q) (ancestors dir)"

text \<open>
  What can be found after a crash: directories may be lost that are not lasting, and with a
  directory everything below it.
\<close>
definition crashes_to :: "disk \<Rightarrow> disk \<Rightarrow> bool" where
  "crashes_to d d' \<longleftrightarrow>
     (\<forall>q. dk_dir d' q \<longrightarrow> dk_dir d q \<and> missing d' q = []) \<and> (\<forall>q. dk_dir d q \<and> lasting d q \<longrightarrow> dk_dir d' q) \<and>
     (\<forall>p. dk_entry d' p \<in> (if missing d' (butlast p) = [] then dk_maybe d p else {None})) \<and>
     (\<forall>i. dk_synced d i \<longrightarrow> dk_data d' i = dk_data d i) \<and>
     dk_maybe d' = (\<lambda>p. {dk_entry d' p}) \<and> dk_kept d' = dk_dir d' \<and> dk_fresh d' = dk_fresh d"

definition ENOENT :: nat where "ENOENT = 2"
definition EEXIST :: nat where "EEXIST = 17"
definition ENOTDIR :: nat where "ENOTDIR = 20"
definition EISDIR :: nat where "EISDIR = 21"

text \<open>
  \<open>fs::create_dir_all\<close> creates what is missing from the outermost directory on, the first \<open>n\<close> of
  them here. It syncs nothing: the new directories are not among \<open>dk_kept\<close>.
\<close>
definition make_dirs :: "nat \<Rightarrow> path \<Rightarrow> disk \<Rightarrow> nat + disk \<times> unit" where
  "make_dirs n dir d =
    (case missing d dir of
       [] \<Rightarrow> Inr (d, ())
     | q # qs \<Rightarrow>
         if dk_entry d q \<noteq> None then Inl (if qs = [] then EEXIST else ENOTDIR)
         else Inr (d\<lparr>dk_dir := (\<lambda>r. dk_dir d r \<or> r \<in> set (take n (q # qs)))\<rparr>, ()))"

definition new_file :: "path \<Rightarrow> disk \<Rightarrow> disk \<times> nat" where
  "new_file p d = (let i = dk_fresh d in
     (set_entry p (Some i) (d\<lparr>dk_data := (dk_data d)(i := []), dk_synced := (dk_synced d)(i := False),
        dk_fresh := i + 1\<rparr>), i))"

definition open_create_new :: "path \<Rightarrow> disk \<Rightarrow> nat + disk \<times> nat" where
  "open_create_new p d =
    (if dk_entry d p \<noteq> None \<or> dk_dir d p then Inl EEXIST
     else if missing d (butlast p) \<noteq> [] then Inl ENOENT else Inr (new_file p d))"

definition open_create :: "path \<Rightarrow> disk \<Rightarrow> nat + disk \<times> nat" where
  "open_create p d =
    (case dk_entry d p of
       Some i \<Rightarrow> Inr (d, i)
     | None \<Rightarrow>
         if dk_dir d p then Inl EISDIR
         else if missing d (butlast p) \<noteq> [] then Inl ENOENT else Inr (new_file p d))"

text \<open>Opening for reading: a directory opens, and the first read of it fails.\<close>
definition open_read :: "path \<Rightarrow> disk \<Rightarrow> nat + disk \<times> nat" where
  "open_read p d =
    (case dk_entry d p of Some i \<Rightarrow> Inr (d, i) | None \<Rightarrow> Inl (if dk_dir d p then EISDIR else ENOENT))"

definition append_data :: "nat \<Rightarrow> bytes \<Rightarrow> disk \<Rightarrow> disk" where
  "append_data i bs d = d\<lparr>dk_data := (dk_data d)(i := dk_data d i @ bs), dk_synced := (dk_synced d)(i := False)\<rparr>"

definition sync_data :: "nat \<Rightarrow> disk \<Rightarrow> disk" where
  "sync_data i d = d\<lparr>dk_synced := (dk_synced d)(i := True)\<rparr>"

definition rename_entry :: "path \<Rightarrow> path \<Rightarrow> disk \<Rightarrow> nat + disk \<times> unit" where
  "rename_entry p q d = (case dk_entry d p of
     None \<Rightarrow> Inl ENOENT
   | Some i \<Rightarrow>
       if dk_dir d q then Inl EISDIR
       else if missing d (butlast q) \<noteq> [] then Inl ENOENT
       else Inr (set_entry q (Some i) (set_entry p None d), ()))"

definition unlink_entry :: "path \<Rightarrow> disk \<Rightarrow> nat + disk \<times> unit" where
  "unlink_entry p d = (if dk_entry d p = None then Inl ENOENT else Inr (set_entry p None d, ()))"

text \<open>The entries of a directory reach the medium, its own entry in the directory above does not.\<close>
definition sync_entries :: "path \<Rightarrow> disk \<Rightarrow> disk" where
  "sync_entries dir d = d\<lparr>dk_maybe := (\<lambda>p. if parent p = Some dir then {dk_entry d p} else dk_maybe d p),
     dk_kept := (\<lambda>q. dk_kept d q \<or> parent q = Some dir \<and> dk_dir d q)\<rparr>"

section \<open>Calls that may fail\<close>

text \<open>
  \<open>wd_fault n\<close> says whether the \<open>n\<close>-th call fails: with which code and, for a write, after how
  many bytes, for \<open>create_dir_all\<close>, after how many directories. A process that is killed is one all
  of whose later calls fail. \<open>wd_unix\<close> is \<open>cfg(unix)\<close> of the target.
\<close>

record world =
  wd_unix :: bool
  wd_disk :: disk
  wd_calls :: nat
  wd_fault :: "nat \<Rightarrow> (nat \<times> nat) option"

definition syscall :: "(disk \<Rightarrow> nat + disk \<times> 'a) \<Rightarrow> world \<Rightarrow> world \<times> (nat + 'a)" where
  "syscall f w =
    (let w1 = w\<lparr>wd_calls := wd_calls w + 1\<rparr> in
     case wd_fault w (wd_calls w) of
       Some (e, _) \<Rightarrow> (w1, Inl e)
     | None \<Rightarrow>
         (case f (wd_disk w) of
            Inl e \<Rightarrow> (w1, Inl e)
          | Inr (d, v) \<Rightarrow> (w1\<lparr>wd_disk := d\<rparr>, Inr v)))"

fun as_io :: "'s \<times> (nat + 'a) \<Rightarrow> 's \<times> (vault_storage_error + 'a)" where
  "as_io (s, r) = (s, map_err Io r)"

fun as_lock :: "'s \<times> (nat + 'a) \<Rightarrow> 's \<times> (vault_storage_error + 'a)" where
  "as_lock (s, r) = (s, map_err Lock r)"

definition create_dir_all :: "path \<Rightarrow> world \<Rightarrow> world \<times> (vault_storage_error + unit)" where
  "create_dir_all dir w =
    (case wd_fault w (wd_calls w) of
       Some (e, n) \<Rightarrow>
         (let d = (case make_dirs n dir (wd_disk w) of Inl _ \<Rightarrow> wd_disk w | Inr (d, _) \<Rightarrow> d)
          in (w\<lparr>wd_calls := wd_calls w + 1, wd_disk := d\<rparr>, Inl (Io e)))
     | None \<Rightarrow> as_io (syscall (make_dirs (length (ancestors dir)) dir) w))"

section \<open>The real backend\<close>

definition real_create_temp_file :: "path \<Rightarrow> world \<Rightarrow> world \<times> (vault_storage_error + nat)" where
  "real_create_temp_file p w = as_io (syscall (open_create_new p) w)"

definition real_write_all :: "nat \<Rightarrow> bytes \<Rightarrow> world \<Rightarrow> world \<times> (vault_storage_error + unit)" where
  "real_write_all i bs w =
    (let w1 = w\<lparr>wd_calls := wd_calls w + 1\<rparr> in
     case wd_fault w (wd_calls w) of
       Some (e, n) \<Rightarrow> (w1\<lparr>wd_disk := append_data i (take n bs) (wd_disk w)\<rparr>, Inl (Io e))
     | None \<Rightarrow> (w1\<lparr>wd_disk := append_data i bs (wd_disk w)\<rparr>, Inr ()))"

definition real_sync_temp_file :: "nat \<Rightarrow> world \<Rightarrow> world \<times> (vault_storage_error + unit)" where
  "real_sync_temp_file i w = as_io (syscall (\<lambda>d. Inr (sync_data i d, ())) w)"

definition real_rename :: "path \<Rightarrow> path \<Rightarrow> world \<Rightarrow> world \<times> (vault_storage_error + unit)" where
  "real_rename p q w = as_io (syscall (rename_entry p q) w)"

definition real_remove_file :: "path \<Rightarrow> world \<Rightarrow> world \<times> (vault_storage_error + unit)" where
  "real_remove_file p w = as_io (syscall (unlink_entry p) w)"

text \<open>Opening a directory by the empty path fails. Off Unix the function does nothing.\<close>
definition sync_parent_dir :: "path \<Rightarrow> world \<Rightarrow> world \<times> (vault_storage_error + unit)" where
  "sync_parent_dir dir w =
    (if wd_unix w then
       and_then (as_io (syscall (\<lambda>d. if dir = [] \<or> missing d dir \<noteq> [] then Inl ENOENT else Inr (d, ())) w)) (\<lambda>_ w.
         as_io (syscall (\<lambda>d. Inr (sync_entries dir d, ())) w))
     else (w, Inr ()))"

definition real_storage_backend :: "rstring \<Rightarrow> (world, nat) storage_backend" where
  "real_storage_backend suffix = \<lparr>sb_temp_path_for = temp_path_for suffix,
     sb_create_temp_file = real_create_temp_file, sb_write_all = real_write_all,
     sb_sync_temp_file = real_sync_temp_file, sb_rename = real_rename,
     sb_remove_file = real_remove_file, sb_sync_parent_dir = sync_parent_dir\<rparr>"

section \<open>Locking, reading and writing a vault\<close>

definition open_lock_file :: "path \<Rightarrow> world \<Rightarrow> world \<times> (vault_storage_error + nat)" where
  "open_lock_file p w = as_io (syscall (open_create p) w)"

text \<open>
  \<open>lock_shared\<close> and \<open>lock_exclusive\<close>: the call returns once the lock is granted, or fails; the
  guard is the open lock file.
\<close>
definition vault_file_lock :: "path \<Rightarrow> world \<Rightarrow> world \<times> (vault_storage_error + nat)" where
  "vault_file_lock vault_path w =
    and_then (w, lock_path_for vault_path) (\<lambda>lock_path w.
    and_then (open_lock_file lock_path w) (\<lambda>f w.
      as_lock (syscall (\<lambda>d. Inr (d, f)) w)))"

definition read_vault_bytes :: "path \<Rightarrow> world \<Rightarrow> world \<times> (vault_storage_error + bytes)" where
  "read_vault_bytes p w =
    and_then (as_io (syscall (open_read p) w)) (\<lambda>f w.
    and_then (as_io (syscall (\<lambda>d. Inr (d, ())) w)) (\<lambda>_ w.
      as_io (syscall (\<lambda>d. Inr (d, dk_data d f)) w)))"

definition read_vault_locked :: "path \<Rightarrow> world \<Rightarrow> world \<times> (vault_storage_error + bytes)" where
  "read_vault_locked p w = and_then (vault_file_lock p w) (\<lambda>_ w. read_vault_bytes p w)"

definition write_vault_atomic :: "rstring \<Rightarrow> path \<Rightarrow> bytes \<Rightarrow> world \<Rightarrow> world \<times> (vault_storage_error + unit)" where
  "write_vault_atomic suffix p bytes w =
    and_then (w, ok_or InvalidPath (parent p)) (\<lambda>dir w.
    and_then (create_dir_all dir w) (\<lambda>_ w.
    and_then (vault_file_lock p w) (\<lambda>_ w.
      write_vault_atomic_with_backend (real_storage_backend suffix) p bytes w)))"

section \<open>What the writer needs of a backend\<close>

lemma and_then_Inr_iff:
  "and_then p k = (s', Inr v) \<longleftrightarrow> (\<exists>s a. p = (s, Inr a) \<and> k a s = (s', Inr v))"
  by (cases p; cases "snd p") auto

lemma and_then_Inl_iff:
  "and_then p k = (s', Inl e) \<longleftrightarrow> p = (s', Inl e) \<or> (\<exists>s a. p = (s, Inr a) \<and> k a s = (s', Inl e))"
  by (cases p; cases "snd p") auto

lemma and_thenE:
  assumes "and_then p k = (s', r)"
  obtains (err) e where "p = (s', Inl e)" "r = Inl e" | (ok) s v where "p = (s, Inr v)" "k v s = (s', r)"
  using assms by (cases p; cases "snd p") auto

text \<open>
  \<open>live\<close> is what a read of a path gives, \<open>crash\<close> what it may give after a crash. Outside the paths
  \<open>ps\<close>, a state agrees with an earlier one when reads are the same and crashes no worse.
\<close>
definition agree_off :: "('s \<Rightarrow> path \<Rightarrow> bytes option) \<Rightarrow> ('s \<Rightarrow> path \<Rightarrow> bytes option set) \<Rightarrow> path set \<Rightarrow> 's \<Rightarrow> 's \<Rightarrow> bool" where
  "agree_off live crash ps s s' \<longleftrightarrow> (\<forall>q. q \<notin> ps \<longrightarrow> live s' q = live s q \<and> crash s' q \<subseteq> crash s q)"

lemma agree_offD: "agree_off live crash ps s s' \<Longrightarrow> q \<notin> ps \<Longrightarrow> live s' q = live s q \<and> crash s' q \<subseteq> crash s q"
  by (simp add: agree_off_def)

lemma agree_off_trans:
  "agree_off live crash ps s s' \<Longrightarrow> agree_off live crash qs s' s'' \<Longrightarrow> ps \<union> qs \<subseteq> rs \<Longrightarrow> agree_off live crash rs s s''"
  unfolding agree_off_def by (metis Un_iff subset_eq)

text \<open>
  \<open>held s t p c\<close>: the open file \<open>t\<close> is at \<open>p\<close> and nowhere else and contains \<open>c\<close>; \<open>on_disk s t\<close>: its
  data has reached the disk; \<open>settled s p c\<close>: the file at \<open>p\<close> has, with contents \<open>c\<close>; \<open>remains s p\<close>:
  what a crash may leave at \<open>p\<close> beside a settled file once its directory has been synced.
\<close>
locale storage_contract =
  fixes B :: "('s, 't) storage_backend"
    and valid :: "'s \<Rightarrow> bool"
    and live :: "'s \<Rightarrow> path \<Rightarrow> bytes option"
    and crash :: "'s \<Rightarrow> path \<Rightarrow> bytes option set"
    and held :: "'s \<Rightarrow> 't \<Rightarrow> path \<Rightarrow> bytes \<Rightarrow> bool"
    and on_disk :: "'s \<Rightarrow> 't \<Rightarrow> bool"
    and settled :: "'s \<Rightarrow> path \<Rightarrow> bytes \<Rightarrow> bool"
    and remains :: "'s \<Rightarrow> path \<Rightarrow> bytes option set"
  assumes created: "valid s \<Longrightarrow> sb_create_temp_file B p s = (s', x) \<Longrightarrow>
      valid s' \<and> remains s' = remains s \<and> agree_off live crash {p} s s' \<and> (\<forall>t. x = Inr t \<longrightarrow> held s' t p [])"
    and written: "valid s \<Longrightarrow> held s t p c \<Longrightarrow> sb_write_all B t bs s = (s', r) \<Longrightarrow>
      valid s' \<and> remains s' = remains s \<and> agree_off live crash {p} s s' \<and> (r = Inr () \<longrightarrow> held s' t p (c @ bs))"
    and synced: "valid s \<Longrightarrow> held s t p c \<Longrightarrow> sb_sync_temp_file B t s = (s', r) \<Longrightarrow>
      valid s' \<and> remains s' = remains s \<and> agree_off live crash {p} s s' \<and>
      (r = Inr () \<longrightarrow> held s' t p c \<and> on_disk s' t)"
    and renamed: "valid s \<Longrightarrow> held s t p c \<Longrightarrow> on_disk s t \<Longrightarrow> p \<noteq> q \<Longrightarrow> sb_rename B p q s = (s', r) \<Longrightarrow>
      valid s' \<and> remains s' = remains s \<and> agree_off live crash {p, q} s s' \<and>
      (r = Inr () \<longrightarrow> settled s' q c \<and> live s' p = None \<and> crash s' q \<subseteq> insert (Some c) (crash s q)) \<and>
      (r \<noteq> Inr () \<longrightarrow> agree_off live crash {} s s')"
    and dir_synced: "valid s \<Longrightarrow> sb_sync_parent_dir B dir s = (s', r) \<Longrightarrow>
      valid s' \<and> live s' = live s \<and> agree_off live crash {} s s' \<and>
      (\<forall>q. parent q = Some dir \<longrightarrow> remains s' q = remains s q) \<and>
      (\<forall>q c. r = Inr () \<longrightarrow> settled s q c \<longrightarrow> parent q = Some dir \<longrightarrow> crash s' q \<subseteq> insert (Some c) (remains s q))"
    and removed: "valid s \<Longrightarrow> sb_remove_file B p s = (s', r) \<Longrightarrow>
      valid s' \<and> remains s' = remains s \<and> agree_off live crash {p} s s'"
    and settled_live: "settled s q c \<Longrightarrow> live s q = Some c"
begin

text \<open>Up to the rename only the temporary file changes.\<close>

lemma commit_cases:
  assumes "valid s" and "tmp \<noteq> path" and "write_and_commit B dir tmp path bytes s = (s', r)"
  obtains (before) "valid s'" "agree_off live crash {tmp} s s'" "r \<noteq> Inr ()" "remains s' = remains s"
  | (after) s1 where "valid s'" "agree_off live crash {tmp, path} s s1" "settled s1 path bytes"
      "crash s1 path \<subseteq> insert (Some bytes) (crash s path)" "live s1 tmp = None" "valid s1" "remains s1 = remains s"
      "sb_sync_parent_dir B dir s1 = (s', r)"
  using assms(3) unfolding write_and_commit_def
proof (cases rule: and_thenE)
  case (err e)
  with created [OF assms(1) err(1)] show thesis by (intro before) auto
next
  case (ok s1 t)
  from created [OF assms(1) ok(1)] have v1: "valid s1" "remains s1 = remains s" and h1: "held s1 t tmp []"
    and o1: "agree_off live crash {tmp} s s1" by auto
  from ok(2) show thesis
  proof (cases rule: and_thenE)
    case (err e)
    from written [OF v1(1) h1 err(1)] agree_off_trans [OF o1, of "{tmp}" s' "{tmp}"] err(2) v1(2) show thesis
      by (intro before) auto
  next
    case (ok s2 u)
    from written [OF v1(1) h1 ok(1)] v1(2) have v2: "valid s2" "remains s2 = remains s" and h2: "held s2 t tmp bytes"
      and o2: "agree_off live crash {tmp} s s2"
      using agree_off_trans [OF o1, of "{tmp}" s2 "{tmp}"] by auto
    from ok(2) show thesis
    proof (cases rule: and_thenE)
      case (err e)
      from synced [OF v2(1) h2 err(1)] agree_off_trans [OF o2, of "{tmp}" s' "{tmp}"] err(2) v2(2) show thesis
        by (intro before) auto
    next
      case (ok s3 u)
      from synced [OF v2(1) h2 ok(1)] v2(2) have k3: "remains s3 = remains s" and v3: "valid s3" "held s3 t tmp bytes" "on_disk s3 t"
        and o3: "agree_off live crash {tmp} s s3"
        using agree_off_trans [OF o2, of "{tmp}" s3 "{tmp}"] by auto
      note r = renamed [OF v3 assms(2)]
      from ok(2) show thesis
      proof (cases rule: and_thenE)
        case (err e)
        from r [OF err(1)] agree_off_trans [OF o3, of "{}" s' "{tmp}"] err(2) k3 show thesis
          by (intro before) auto
      next
        case (ok s4 u)
        with k3 r [OF ok(1)] dir_synced [OF _ ok(2)] agree_off_trans [OF o3, of "{tmp, path}" s4 "{tmp, path}"]
          agree_offD [OF o3, of path] assms(2)
        show thesis by (intro after [of s4]) auto
      qed
    qed
  qed
qed

lemma commit_effect:
  assumes "valid s" and "tmp \<noteq> path" and "parent path = Some dir"
    and "write_and_commit B dir tmp path bytes s = (s', r)"
  shows "valid s' \<and> remains s' path = remains s path \<and> agree_off live crash {tmp, path} s s' \<and>
    crash s' path \<subseteq> insert (Some bytes) (crash s path) \<and> (live s' path = live s path \<or> live s' path = Some bytes) \<and>
    (r = Inr () \<longrightarrow> live s' path = Some bytes \<and> live s' tmp = None \<and> crash s' path \<subseteq> insert (Some bytes) (remains s path))"
proof (cases rule: commit_cases [OF assms(1,2,4), case_names before after])
  case before
  then show ?thesis
    using agree_offD [OF before(2), of path] assms(2) by (auto simp: agree_off_def)
next
  case (after s1)
  from dir_synced [OF after(6,8)] assms(3) have d: "live s' = live s1" "agree_off live crash {} s1 s'"
    "remains s' path = remains s1 path"
    "r = Inr () \<Longrightarrow> crash s' path \<subseteq> insert (Some bytes) (remains s1 path)"
    using after(3) assms(3) by auto
  show ?thesis
    using d after agree_off_trans [OF after(2) d(2), of "{tmp, path}"] settled_live [OF after(3)]
      agree_offD [OF d(2), of path] by auto
qed

text \<open>The contract of the writer: all or nothing, on the running system and after a crash.\<close>

lemma write_all_or_nothing:
  assumes "valid s" and "parent path = Some dir" and "file_name path = Some base"
    and "tmp = sb_temp_path_for B dir base" and "tmp \<noteq> path"
    and "write_vault_atomic_with_backend B path bytes s = (s', r)"
  shows "valid s' \<and> remains s' path = remains s path \<and> agree_off live crash {tmp, path} s s' \<and>
    crash s' path \<subseteq> insert (Some bytes) (crash s path) \<and> (live s' path = live s path \<or> live s' path = Some bytes) \<and>
    (r = Inr () \<longrightarrow> live s' path = Some bytes \<and> live s' tmp = None \<and> crash s' path \<subseteq> insert (Some bytes) (remains s path))"
proof -
  obtain s1 where w: "write_and_commit B dir tmp path bytes s = (s1, r)"
    and s': "s' = (if is_ok r then s1 else fst (sb_remove_file B tmp s1))"
    using assms(2-4,6) by (auto simp: write_vault_atomic_with_backend_def Let_def split: prod.splits if_splits)
  note c = commit_effect [OF assms(1,5,2) w]
  show ?thesis
  proof (cases "is_ok r")
    case True
    with c s' show ?thesis by simp
  next
    case False
    then have "sb_remove_file B tmp s1 = (s', snd (sb_remove_file B tmp s1))" using s' by simp
    from removed [OF _ this] c have r: "valid s'" "agree_off live crash {tmp} s1 s'"
      "remains s' path = remains s path" by auto
    then have "live s' path = live s1 path" "crash s' path \<subseteq> crash s1 path"
      using agree_offD [OF r(2), of path] assms(5) by auto
    moreover have "agree_off live crash {tmp, path} s s'"
      using agree_off_trans [OF _ r(2), of "{tmp, path}" s "{tmp, path}"] c by auto
    ultimately show ?thesis using r(1,3) c False by (auto simp: is_ok_iff)
  qed
qed

end

section \<open>The real backend keeps the contract\<close>

definition crash_at :: "disk \<Rightarrow> path \<Rightarrow> bytes option set" where
  "crash_at d p = {c. \<exists>d'. crashes_to d d' \<and> file_at d' p = c}"

text \<open>
  Every entry is one of the values that can be on the medium, and names an old file in a
  directory that exists; what is kept exists.
\<close>
definition disk_ok :: "disk \<Rightarrow> bool" where
  "disk_ok d \<longleftrightarrow> (\<forall>q. dk_kept d q \<longrightarrow> dk_dir d q) \<and> (\<forall>p. dk_entry d p \<in> dk_maybe d p \<and>
     (\<forall>i. Some i \<in> dk_maybe d p \<longrightarrow> i < dk_fresh d \<and> missing d (butlast p) = []))"

definition held_at :: "disk \<Rightarrow> nat \<Rightarrow> path \<Rightarrow> bytes \<Rightarrow> bool" where
  "held_at d t p c \<longleftrightarrow> dk_entry d p = Some t \<and> dk_data d t = c \<and> (\<forall>q. q \<noteq> p \<longrightarrow> Some t \<notin> dk_maybe d q)"

definition settled_at :: "disk \<Rightarrow> path \<Rightarrow> bytes \<Rightarrow> bool" where
  "settled_at d p c \<longleftrightarrow> (\<exists>i. dk_entry d p = Some i \<and> dk_synced d i \<and> dk_data d i = c)"

lemma disk_okD: "disk_ok d \<Longrightarrow> dk_entry d p \<in> dk_maybe d p"
  "disk_ok d \<Longrightarrow> Some i \<in> dk_maybe d p \<Longrightarrow> i < dk_fresh d"
  "disk_ok d \<Longrightarrow> Some i \<in> dk_maybe d p \<Longrightarrow> missing d (butlast p) = []"
  "disk_ok d \<Longrightarrow> dk_kept d q \<Longrightarrow> dk_dir d q"
  by (auto simp: disk_ok_def)

lemma in_ancestors: "q \<in> set (ancestors p) \<longleftrightarrow> (\<exists>n. q = take n p)"
proof
  assume "\<exists>n. q = take n p"
  then obtain n where "q = take n p" ..
  then have "q = take (min n (length p)) p" by (cases "n \<le> length p") simp_all
  then show "q \<in> set (ancestors p)" unfolding ancestors_def by force
qed (auto simp: ancestors_def simp del: upt_Suc)

lemma missing_empty: "missing d p = [] \<longleftrightarrow> (\<forall>n. named (take n p) \<longrightarrow> dk_dir d (take n p))"
  unfolding missing_def filter_empty_conv using in_ancestors [of _ p] by metis

lemma lasting_iff: "lasting d p \<longleftrightarrow> (\<forall>n. named (take n p) \<longrightarrow> dk_kept d (take n p))"
  unfolding lasting_def list_all_iff using in_ancestors [of _ p] by metis

lemma missing_mono: "missing d p = [] \<Longrightarrow> (\<And>q. dk_dir d q \<Longrightarrow> dk_dir d' q) \<Longrightarrow> missing d' p = []"
  by (auto simp: missing_empty)

lemma lasting_mono: "lasting d p \<Longrightarrow> (\<And>q. dk_kept d q \<Longrightarrow> dk_kept d' q) \<Longrightarrow> lasting d' p"
  by (auto simp: lasting_iff)

lemma missing_cong: "dk_dir d' = dk_dir d \<Longrightarrow> missing d' p = missing d p"
  by (simp add: missing_def)

lemma missing_update [simp]:
  "missing (d\<lparr>dk_entry := e\<rparr>) p = missing d p" "missing (d\<lparr>dk_maybe := m\<rparr>) p = missing d p"
  "missing (d\<lparr>dk_data := x\<rparr>) p = missing d p" "missing (d\<lparr>dk_synced := y\<rparr>) p = missing d p"
  "missing (d\<lparr>dk_fresh := n\<rparr>) p = missing d p" "missing (d\<lparr>dk_kept := k\<rparr>) p = missing d p"
  by (simp_all add: missing_def)

lemma lasting_cong: "dk_kept d' = dk_kept d \<Longrightarrow> lasting d' p = lasting d p"
  by (simp add: lasting_def)

lemma lasting_take: "lasting d p \<Longrightarrow> lasting d (take n p)"
  by (auto simp: lasting_iff)

lemma lasting_exists: "disk_ok d \<Longrightarrow> lasting d p \<Longrightarrow> missing d p = []"
  by (auto simp: missing_empty lasting_iff disk_okD(4))

text \<open>A crash that loses every directory it can, and one that loses none.\<close>

lemma missing_lost:
  assumes "disk_ok d"
  shows "missing (d\<lparr>dk_dir := (\<lambda>q. dk_dir d q \<and> lasting d q)\<rparr>) p = [] \<longleftrightarrow>
    (\<forall>n. named (take n p) \<longrightarrow> lasting d (take n p))" (is "missing ?d p = [] \<longleftrightarrow> ?r")
proof -
  have "named q \<Longrightarrow> lasting d q \<Longrightarrow> dk_dir d q" for q
    using lasting_exists [OF assms, of q] missing_empty [of d q] by (metis order_refl take_all)
  then show ?thesis by (auto simp: missing_empty)
qed

lemma missing_reachable:
  "missing (d\<lparr>dk_dir := (\<lambda>q. dk_dir d q \<and> missing d q = [])\<rparr>) p = [] \<longleftrightarrow> missing d p = []"
  by (auto simp: missing_empty)

lemma entry_reachable: "disk_ok d \<Longrightarrow> missing d (butlast p) \<noteq> [] \<Longrightarrow> dk_entry d p = None"
  using disk_okD(1,3) [of d] by (metis not_None_eq)

lemma crash_kept:
  assumes "disk_ok d" and "\<exists>m \<in> dk_maybe d p. case m of None \<Rightarrow> c = None
      | Some i \<Rightarrow> \<exists>bs. c = Some bs \<and> (dk_synced d i \<longrightarrow> bs = dk_data d i)"
  shows "c \<in> crash_at d p"
proof -
  from assms(2) obtain m where m: "m \<in> dk_maybe d p" and c: "case m of None \<Rightarrow> c = None
      | Some i \<Rightarrow> \<exists>bs. c = Some bs \<and> (dk_synced d i \<longrightarrow> bs = dk_data d i)" by blast
  let ?d = "d\<lparr>dk_dir := (\<lambda>q. dk_dir d q \<and> missing d q = [])\<rparr>"
  let ?e = "(dk_entry d)(p := m)"
  let ?c = "?d\<lparr>dk_entry := ?e, dk_maybe := (\<lambda>q. {?e q}), dk_kept := dk_dir ?d,
    dk_data := (case m of None \<Rightarrow> dk_data d | Some i \<Rightarrow> (dk_data d)(i := the c))\<rparr>"
  have d: "missing ?c q = [] \<longleftrightarrow> missing d q = []" for q
    using missing_cong [of ?c ?d q] missing_reachable [of d q] by simp
  have e: "?e q \<in> (if missing ?c (butlast q) = [] then dk_maybe d q else {None})" for q
  proof (cases "?e q")
    case None
    with m disk_okD(1) [OF assms(1), of q] show ?thesis by (auto split: if_splits)
  next
    case (Some i)
    with m disk_okD(1) [OF assms(1), of q] have "Some i \<in> dk_maybe d q" by (auto split: if_splits)
    with Some disk_okD(3) [OF assms(1)] d show ?thesis by auto
  qed
  have "crashes_to d ?c"
    using m c d e lasting_exists [OF assms(1)] by (auto simp: crashes_to_def fun_eq_iff split: option.splits)
  moreover have "file_at ?c p = c" using c by (auto simp: file_at_def split: option.splits)
  ultimately show ?thesis unfolding crash_at_def by blast
qed

lemma crash_at_iff:
  assumes "disk_ok d"
  shows "c \<in> crash_at d p \<longleftrightarrow> c = None \<and> \<not> lasting d (butlast p) \<or> (\<exists>m \<in> dk_maybe d p. case m of None \<Rightarrow> c = None
    | Some i \<Rightarrow> \<exists>bs. c = Some bs \<and> (dk_synced d i \<longrightarrow> bs = dk_data d i))" (is "_ \<longleftrightarrow> ?lost \<or> ?kept")
proof
  assume "c \<in> crash_at d p"
  then obtain d' where d': "crashes_to d d'" "file_at d' p = c" by (auto simp: crash_at_def)
  show "?lost \<or> ?kept"
  proof (cases "missing d' (butlast p) = []")
    case True
    with d' have "dk_entry d' p \<in> dk_maybe d p" by (simp add: crashes_to_def) metis
    with d' have ?kept
      by (intro bexI [of _ "dk_entry d' p"]) (auto simp: crashes_to_def file_at_def split: option.splits)
    then show ?thesis ..
  next
    case False
    then obtain n where n: "named (take n (butlast p))" "\<not> dk_dir d' (take n (butlast p))"
      by (auto simp: missing_empty)
    have "\<not> lasting d (butlast p)"
    proof
      assume "lasting d (butlast p)"
      then have "dk_dir d (take n (butlast p))" "lasting d (take n (butlast p))"
        using lasting_take disk_okD(4) [OF assms] n(1) by (auto simp: lasting_iff)
      with d'(1) n(2) show False by (auto simp: crashes_to_def)
    qed
    moreover have "c = None" using d' False by (simp add: crashes_to_def file_at_def) (metis option.map(1) singletonD)
    ultimately show ?thesis by simp
  qed
next
  assume "?lost \<or> ?kept"
  then show "c \<in> crash_at d p"
  proof
    assume l: ?lost
    let ?d = "d\<lparr>dk_dir := (\<lambda>q. dk_dir d q \<and> lasting d q)\<rparr>"
    let ?e = "\<lambda>q. if missing ?d (butlast q) = [] then dk_entry d q else None"
    let ?c = "?d\<lparr>dk_entry := ?e, dk_maybe := (\<lambda>q. {?e q}), dk_kept := dk_dir ?d\<rparr>"
    have m: "missing ?c q = missing ?d q" for q by (rule missing_cong) simp
    have "missing ?d (butlast p) \<noteq> []"
    proof
      assume "missing ?d (butlast p) = []"
      then have a: "\<forall>n. named (take n (butlast p)) \<longrightarrow> lasting d (take n (butlast p))"
        by (simp only: missing_lost [OF assms])
      have "dk_kept d (take n (butlast p))" if "named (take n (butlast p))" for n
      proof -
        from a that have "lasting d (take n (butlast p))" by blast
        from this [unfolded lasting_iff, rule_format, of n] that show ?thesis by simp
      qed
      then show False using l by (auto simp: lasting_iff)
    qed
    moreover have "crashes_to d ?c"
      unfolding crashes_to_def m using missing_lost [OF assms] lasting_take disk_okD(1) [OF assms] by auto
    ultimately show ?thesis using l by (auto simp: crash_at_def file_at_def intro!: exI [of _ ?c])
  next
    assume ?kept
    then show ?thesis by (rule crash_kept [OF assms])
  qed
qed

lemma agree_disk:
  assumes "disk_ok d" and "disk_ok d'"
    and "\<And>q. q \<notin> ps \<Longrightarrow> dk_entry d' q = dk_entry d q \<and> dk_maybe d' q \<subseteq> dk_maybe d q"
    and "\<And>q i. q \<notin> ps \<Longrightarrow> Some i \<in> dk_maybe d q \<Longrightarrow> dk_data d' i = dk_data d i \<and> (dk_synced d i \<longrightarrow> dk_synced d' i)"
    and "\<And>q. dk_kept d q \<Longrightarrow> dk_kept d' q"
  shows "agree_off file_at crash_at ps d d'"
  unfolding agree_off_def
proof (intro allI impI conjI subsetI)
  fix q assume q: "q \<notin> ps"
  then show "file_at d' q = file_at d q"
    using assms(3,4) [OF q] disk_okD(1) [OF assms(1), of q] by (cases "dk_entry d q") (auto simp: file_at_def)
  fix c assume "c \<in> crash_at d' q"
  then consider "c = None" "\<not> lasting d' (butlast q)" | m where "m \<in> dk_maybe d' q" "case m of None \<Rightarrow> c = None
    | Some i \<Rightarrow> \<exists>bs. c = Some bs \<and> (dk_synced d' i \<longrightarrow> bs = dk_data d' i)"
    by (auto simp: crash_at_iff [OF assms(2)])
  then show "c \<in> crash_at d q"
  proof cases
    case 1
    with lasting_mono [of d "butlast q" d', OF _ assms(5)] show ?thesis by (auto simp: crash_at_iff [OF assms(1)])
  next
    case (2 m)
    moreover have "m \<in> dk_maybe d q" using assms(3) [OF q] 2(1) by blast
    ultimately show ?thesis
      using assms(4) [OF q] by (auto simp: crash_at_iff [OF assms(1)] split: option.splits intro!: bexI [of _ m])
  qed
qed

lemma disk_ok_set_entry:
  "disk_ok d \<Longrightarrow> (\<And>i. e = Some i \<Longrightarrow> i < dk_fresh d \<and> missing d (butlast p) = []) \<Longrightarrow> disk_ok (set_entry p e d)"
  by (auto simp: disk_ok_def set_entry_def missing_def)

lemma distinct_ancestors: "distinct (ancestors p)"
proof -
  have "inj_on (\<lambda>n. take n p) {0..<Suc (length p)}"
    by (rule inj_on_inverseI [of _ length]) simp
  then show ?thesis unfolding ancestors_def distinct_map by (simp del: upt_Suc)
qed

lemma filter_not_taken: "distinct xs \<Longrightarrow> filter (\<lambda>x. x \<notin> set (take n xs)) xs = drop n xs"
proof -
  assume "distinct xs"
  then have "set (take n xs) \<inter> set (drop n xs) = {}" by (simp add: set_take_disj_set_drop_if_distinct)
  then have "filter (\<lambda>x. x \<notin> set (take n xs)) (take n xs) = []" "filter (\<lambda>x. x \<notin> set (take n xs)) (drop n xs) = drop n xs"
    by (auto simp: filter_empty_conv intro!: filter_True)
  then show ?thesis by (metis append_Nil append_take_drop_id filter_append)
qed

text \<open>What a crash leaves does not depend on the directories that are not on the medium yet.\<close>
lemma make_dirs_ok:
  assumes "disk_ok d" and "make_dirs n dir d = Inr (d', u)"
  shows "disk_ok d'" "agree_off file_at crash_at {} d d'" "dk_kept d' = dk_kept d"
    "dk_entry d' = dk_entry d" "dk_maybe d' = dk_maybe d" "dk_data d' = dk_data d" "dk_synced d' = dk_synced d"
    "dk_dir d' q \<longleftrightarrow> dk_dir d q \<or> q \<in> set (take n (missing d dir))"
    "missing d' dir = drop n (missing d dir)"
proof -
  consider "missing d dir = []" "d' = d"
    | "d' = d\<lparr>dk_dir := (\<lambda>r. dk_dir d r \<or> r \<in> set (take n (missing d dir)))\<rparr>"
    using assms(2) by (auto simp: make_dirs_def split: list.splits if_splits)
  then have d': "d' = d\<lparr>dk_dir := (\<lambda>r. dk_dir d r \<or> r \<in> set (take n (missing d dir)))\<rparr>"
    by cases auto
  show e: "dk_kept d' = dk_kept d" "dk_entry d' = dk_entry d" "dk_maybe d' = dk_maybe d" "dk_data d' = dk_data d"
    "dk_synced d' = dk_synced d" by (simp_all add: d')
  show "dk_dir d' q \<longleftrightarrow> dk_dir d q \<or> q \<in> set (take n (missing d dir))" by (simp add: d')
  have m: "missing d p = [] \<Longrightarrow> missing d' p = []" for p by (rule missing_mono) (auto simp: d')
  show ok: "disk_ok d'" using assms(1) m unfolding disk_ok_def e by (auto simp: d')
  show "agree_off file_at crash_at {} d d'" by (rule agree_disk [OF assms(1) ok]) (auto simp: d')
  have dist: "distinct (missing d dir)" unfolding missing_def by (rule distinct_filter [OF distinct_ancestors])
  have "missing d' dir = filter (\<lambda>r. r \<notin> set (take n (missing d dir))) (missing d dir)"
    by (simp add: missing_def [of d' dir] d') (simp add: missing_def conj_commute conj_left_commute)
  also have "\<dots> = drop n (missing d dir)" using dist by (rule filter_not_taken)
  finally show "missing d' dir = drop n (missing d dir)" .
qed

lemma new_file_ok:
  assumes "disk_ok d" and "new_file p d = (d', t)" and "missing d (butlast p) = []"
  shows "disk_ok d'" "dk_kept d' = dk_kept d" "agree_off file_at crash_at {p} d d'" "held_at d' t p []"
proof -
  have t: "t = dk_fresh d" and d': "d' = set_entry p (Some t) (d\<lparr>dk_data := (dk_data d)(t := []),
      dk_synced := (dk_synced d)(t := False), dk_fresh := t + 1\<rparr>)"
    using assms(2) by (auto simp: new_file_def Let_def)
  have f: "Some t \<notin> dk_maybe d q" for q using disk_okD(2) [OF assms(1), of t q] t by auto
  show ok: "disk_ok d'"
    unfolding d' by (intro disk_ok_set_entry) (use assms(1,3) t in \<open>auto simp: disk_ok_def missing_def intro: less_SucI\<close>)
  show "dk_kept d' = dk_kept d" by (simp add: d' set_entry_def)
  show "held_at d' t p []" using f by (auto simp: held_at_def d' set_entry_def)
  show "agree_off file_at crash_at {p} d d'"
    by (rule agree_disk [OF assms(1) ok]) (use f in \<open>auto simp: d' set_entry_def\<close>)
qed

lemma append_data_ok:
  assumes "disk_ok d" and "held_at d t p c"
  shows "disk_ok (append_data t bs d)" "agree_off file_at crash_at {p} d (append_data t bs d)"
    "held_at (append_data t bs d) t p (c @ bs)"
proof -
  show ok: "disk_ok (append_data t bs d)" using assms(1) by (simp add: disk_ok_def append_data_def missing_def)
  show "held_at (append_data t bs d) t p (c @ bs)" using assms(2) by (simp add: held_at_def append_data_def)
  show "agree_off file_at crash_at {p} d (append_data t bs d)"
    by (rule agree_disk [OF assms(1) ok]) (use assms(2) in \<open>auto simp: append_data_def held_at_def\<close>)
qed

lemma sync_data_ok:
  assumes "disk_ok d" and "held_at d t p c"
  shows "disk_ok (sync_data t d)" "agree_off file_at crash_at {p} d (sync_data t d)"
    "held_at (sync_data t d) t p c" "dk_synced (sync_data t d) t"
proof -
  show ok: "disk_ok (sync_data t d)" using assms(1) by (simp add: disk_ok_def sync_data_def missing_def)
  show "held_at (sync_data t d) t p c" "dk_synced (sync_data t d) t"
    using assms(2) by (simp_all add: held_at_def sync_data_def)
  show "agree_off file_at crash_at {p} d (sync_data t d)"
    by (rule agree_disk [OF assms(1) ok]) (auto simp: sync_data_def)
qed

lemma rename_entry_ok:
  assumes "disk_ok d" and "held_at d t p c" and "dk_synced d t" and "p \<noteq> q" and "rename_entry p q d = Inr (d', u)"
  shows "disk_ok d'" "agree_off file_at crash_at {p, q} d d'" "settled_at d' q c" "file_at d' p = None"
    "crash_at d' q \<subseteq> insert (Some c) (crash_at d q)" "dk_kept d' = dk_kept d"
proof -
  have d': "d' = set_entry q (Some t) (set_entry p None d)" and t: "t < dk_fresh d" "missing d (butlast q) = []"
    using assms(2,5) disk_okD(1) [OF assms(1), of p] disk_okD(2) [OF assms(1), of t p]
    by (auto simp: rename_entry_def held_at_def split: if_splits)
  show ok: "disk_ok d'"
    unfolding d' by (intro disk_ok_set_entry assms(1)) (use t in \<open>auto simp: set_entry_def missing_def\<close>)
  show "dk_kept d' = dk_kept d" by (simp add: d' set_entry_def)
  show "agree_off file_at crash_at {p, q} d d'"
    by (rule agree_disk [OF assms(1) ok]) (auto simp: d' set_entry_def)
  show "settled_at d' q c" "file_at d' p = None"
    using assms(2-4) by (auto simp: settled_at_def file_at_def held_at_def d' set_entry_def)
  show "crash_at d' q \<subseteq> insert (Some c) (crash_at d q)"
  proof
    have e: "dk_maybe d' q = insert (Some t) (dk_maybe d q)" "dk_data d' = dk_data d" "dk_synced d' = dk_synced d"
      "lasting d' (butlast q) = lasting d (butlast q)"
      using assms(4) by (simp_all add: d' set_entry_def lasting_def)
    fix x assume "x \<in> crash_at d' q"
    then consider "x = None" "\<not> lasting d (butlast q)" | m where "m \<in> insert (Some t) (dk_maybe d q)" "case m of None \<Rightarrow> x = None
      | Some i \<Rightarrow> \<exists>bs. x = Some bs \<and> (dk_synced d i \<longrightarrow> bs = dk_data d i)"
      unfolding crash_at_iff [OF ok] e by blast
    then show "x \<in> insert (Some c) (crash_at d q)"
    proof cases
      case 1
      then show ?thesis by (simp add: crash_at_iff [OF assms(1)])
    next
      case (2 m)
      show ?thesis
      proof (cases "m = Some t")
        case True
        with 2(2) assms(2,3) show ?thesis by (auto simp: held_at_def)
      next
        case False
        with 2 have "x \<in> crash_at d q" unfolding crash_at_iff [OF assms(1)] by blast
        then show ?thesis by simp
      qed
    qed
  qed
qed

text \<open>A synced directory does not move the entries on the way to it.\<close>
lemma lasting_sync_entries: "lasting (sync_entries dir d) dir = lasting d dir"
proof -
  have "parent (take n dir) \<noteq> Some dir" for n
    by (cases dir rule: rev_cases)
      (auto simp: parent_def butlast_take dest: arg_cong [where f = length])
  then show ?thesis by (simp add: lasting_iff sync_entries_def)
qed

lemma live_may_remain: "disk_ok d \<Longrightarrow> file_at d p \<in> crash_at d p"
  using disk_okD(1) [of d p] by (auto simp: crash_at_iff file_at_def split: option.splits intro!: bexI [of _ "dk_entry d p"])

lemma sync_entries_ok:
  assumes "disk_ok d"
  shows "disk_ok (sync_entries dir d)" "agree_off file_at crash_at {} d (sync_entries dir d)"
    "file_at (sync_entries dir d) = file_at d"
    "settled_at d q c \<Longrightarrow> parent q = Some dir \<Longrightarrow>
       crash_at (sync_entries dir d) q = insert (Some c) (if lasting d dir then {} else {None})"
proof -
  show ok: "disk_ok (sync_entries dir d)"
    using disk_okD [OF assms] by (auto simp: disk_ok_def sync_entries_def missing_def) metis+
  show "agree_off file_at crash_at {} d (sync_entries dir d)"
    by (rule agree_disk [OF assms ok]) (use disk_okD(1) [OF assms] in \<open>auto simp: sync_entries_def\<close>)
  show "file_at (sync_entries dir d) = file_at d" by (simp add: file_at_def sync_entries_def fun_eq_iff)
  assume q: "settled_at d q c" "parent q = Some dir"
  then obtain i where "dk_maybe (sync_entries dir d) q = {Some i}" "dk_synced (sync_entries dir d) i"
    "dk_data (sync_entries dir d) i = c" by (auto simp: settled_at_def sync_entries_def)
  moreover have "butlast q = dir" using q(2) by (auto simp: parent_def split: if_splits)
  ultimately show "crash_at (sync_entries dir d) q = insert (Some c) (if lasting d dir then {} else {None})"
    unfolding set_eq_iff crash_at_iff [OF ok] by (auto simp: lasting_sync_entries)
qed

lemma unlink_entry_ok:
  assumes "disk_ok d" and "unlink_entry p d = Inr (d', u)"
  shows "disk_ok d' \<and> agree_off file_at crash_at {p} d d' \<and> dk_kept d' = dk_kept d"
proof -
  have d': "d' = set_entry p None d" using assms(2) by (auto simp: unlink_entry_def split: if_splits)
  have ok: "disk_ok d'" unfolding d' by (intro disk_ok_set_entry assms(1)) simp
  moreover have "agree_off file_at crash_at {p} d d'"
    by (rule agree_disk [OF assms(1) ok]) (auto simp: d' set_entry_def)
  ultimately show ?thesis by (simp add: d' set_entry_def)
qed

text \<open>A call fails without an effect or has the effect of its function.\<close>
lemma syscall_cases:
  assumes "as_io (syscall f w) = (w', r)"
  obtains (err) e where "r = Inl (Io e)" "wd_disk w' = wd_disk w" "wd_unix w' = wd_unix w"
  | (ok) d v where "f (wd_disk w) = Inr (d, v)" "wd_disk w' = d" "r = Inr v" "wd_unix w' = wd_unix w"
  using assms by (auto simp: syscall_def Let_def split: option.splits sum.splits prod.splits)

abbreviation live_on :: "world \<Rightarrow> path \<Rightarrow> bytes option" where "live_on w \<equiv> file_at (wd_disk w)"
abbreviation crash_on :: "world \<Rightarrow> path \<Rightarrow> bytes option set" where "crash_on w \<equiv> crash_at (wd_disk w)"

text \<open>
  What may still take the place of a file whose directory has been synced: nothing when the directory is
  lasting, its absence when the directory may be lost itself, and anything where syncing does nothing.
\<close>
definition remains_on :: "world \<Rightarrow> path \<Rightarrow> bytes option set" where
  "remains_on w p = (if \<not> wd_unix w then UNIV else if lasting (wd_disk w) (butlast p) then {} else {None})"

lemma remains_cong: "wd_unix w' = wd_unix w \<Longrightarrow> dk_kept (wd_disk w') = dk_kept (wd_disk w) \<Longrightarrow> remains_on w' = remains_on w"
  by (simp add: remains_on_def lasting_def fun_eq_iff)

lemma agree_on: "agree_off live_on crash_on ps w w' \<longleftrightarrow> agree_off file_at crash_at ps (wd_disk w) (wd_disk w')"
  by (simp add: agree_off_def)

lemma agree_refl [simp]: "agree_off live crash ps s s"
  by (simp add: agree_off_def)

text \<open>The laws, one lemma each.\<close>

lemma real_created:
  assumes "disk_ok (wd_disk w)" and "real_create_temp_file p w = (w', x)"
  shows "disk_ok (wd_disk w') \<and> remains_on w' = remains_on w \<and> agree_off live_on crash_on {p} w w' \<and>
    (\<forall>t. x = Inr t \<longrightarrow> held_at (wd_disk w') t p [])"
  using assms(2) unfolding real_create_temp_file_def agree_on
proof (cases rule: syscall_cases)
  case (ok d v)
  then have n: "new_file p (wd_disk w) = (d, v)" "missing (wd_disk w) (butlast p) = []"
    by (auto simp: open_create_new_def split: if_splits)
  from new_file_ok [OF assms(1) n] ok show "disk_ok (wd_disk w') \<and> remains_on w' = remains_on w \<and>
      agree_off file_at crash_at {p} (wd_disk w) (wd_disk w') \<and> (\<forall>t. x = Inr t \<longrightarrow> held_at (wd_disk w') t p [])"
    using remains_cong [of w' w] by auto
qed (use assms(1) remains_cong [of w' w] in auto)

lemma real_written:
  assumes "disk_ok (wd_disk w)" and "held_at (wd_disk w) t p c" and "real_write_all t bs w = (w', r)"
  shows "disk_ok (wd_disk w') \<and> remains_on w' = remains_on w \<and> agree_off live_on crash_on {p} w w' \<and>
    (r = Inr () \<longrightarrow> held_at (wd_disk w') t p (c @ bs))"
proof -
  have "remains_on w' = remains_on w"
    by (rule remains_cong) (use assms(3) in \<open>auto simp: real_write_all_def append_data_def Let_def split: option.splits\<close>)
  then show ?thesis
    using assms(3) append_data_ok [OF assms(1,2)] unfolding real_write_all_def agree_on
    by (auto simp: Let_def split: option.splits)
qed

lemma real_synced:
  assumes "disk_ok (wd_disk w)" and "held_at (wd_disk w) t p c" and "real_sync_temp_file t w = (w', r)"
  shows "disk_ok (wd_disk w') \<and> remains_on w' = remains_on w \<and> agree_off live_on crash_on {p} w w' \<and>
    (r = Inr () \<longrightarrow> held_at (wd_disk w') t p c \<and> dk_synced (wd_disk w') t)"
  using assms(3) unfolding real_sync_temp_file_def agree_on
  by (cases rule: syscall_cases)
    (use assms(1) sync_data_ok [OF assms(1,2)] remains_cong [of w' w] in \<open>auto simp: sync_data_def\<close>)

lemma real_renamed:
  assumes "disk_ok (wd_disk w)" and "held_at (wd_disk w) t p c" and "dk_synced (wd_disk w) t" and "p \<noteq> q"
    and "real_rename p q w = (w', r)"
  shows "disk_ok (wd_disk w') \<and> remains_on w' = remains_on w \<and> agree_off live_on crash_on {p, q} w w' \<and>
    (r = Inr () \<longrightarrow> settled_at (wd_disk w') q c \<and> live_on w' p = None \<and>
       crash_on w' q \<subseteq> insert (Some c) (crash_on w q)) \<and>
    (r \<noteq> Inr () \<longrightarrow> agree_off live_on crash_on {} w w')"
  using assms(5) unfolding real_rename_def agree_on
  by (cases rule: syscall_cases)
    (use assms(1) rename_entry_ok [OF assms(1-4)] remains_cong [of w' w] in auto)

lemma real_dir_synced:
  assumes "disk_ok (wd_disk w)" and "sync_parent_dir dir w = (w', r)"
  shows "disk_ok (wd_disk w') \<and> live_on w' = live_on w \<and> agree_off live_on crash_on {} w w' \<and>
    (\<forall>q. parent q = Some dir \<longrightarrow> remains_on w' q = remains_on w q) \<and>
    (\<forall>q c. r = Inr () \<longrightarrow> settled_at (wd_disk w) q c \<longrightarrow> parent q = Some dir \<longrightarrow>
       crash_on w' q \<subseteq> insert (Some c) (remains_on w q))"
proof (cases "wd_unix w")
  case True
  have b: "butlast q = dir" if "parent q = Some dir" for q using that by (auto simp: parent_def split: if_splits)
  from assms(2) True have "and_then (as_io (syscall (\<lambda>d. if dir = [] \<or> missing d dir \<noteq> [] then Inl ENOENT else Inr (d, ())) w))
      (\<lambda>_ w. as_io (syscall (\<lambda>d. Inr (sync_entries dir d, ())) w)) = (w', r)" by (simp add: sync_parent_dir_def)
  then show ?thesis unfolding agree_on remains_on_def
    by (elim and_thenE syscall_cases)
      (use assms(1) True sync_entries_ok(1-3) [OF assms(1)] sync_entries_ok(4) [OF assms(1), where dir = dir] b lasting_sync_entries in
        \<open>simp_all split: if_splits\<close>)
qed (use assms in \<open>auto simp: sync_parent_dir_def remains_on_def\<close>)

lemma real_removed:
  assumes "disk_ok (wd_disk w)" and "real_remove_file p w = (w', r)"
  shows "disk_ok (wd_disk w') \<and> remains_on w' = remains_on w \<and> agree_off live_on crash_on {p} w w'"
  using assms(2) unfolding real_remove_file_def agree_on
  by (cases rule: syscall_cases) (use assms(1) unlink_entry_ok [OF assms(1)] remains_cong [of w' w] in auto)

lemma real_ops:
  "sb_create_temp_file (real_storage_backend x) = real_create_temp_file"
  "sb_write_all (real_storage_backend x) = real_write_all"
  "sb_sync_temp_file (real_storage_backend x) = real_sync_temp_file"
  "sb_rename (real_storage_backend x) = real_rename"
  "sb_remove_file (real_storage_backend x) = real_remove_file"
  "sb_sync_parent_dir (real_storage_backend x) = sync_parent_dir"
  by (simp_all add: real_storage_backend_def)

lemmas real_laws = real_created real_written real_synced real_renamed real_dir_synced real_removed

interpretation real: storage_contract "real_storage_backend suffix" "\<lambda>w. disk_ok (wd_disk w)" live_on crash_on
    "\<lambda>w. held_at (wd_disk w)" "\<lambda>w. dk_synced (wd_disk w)" "\<lambda>w. settled_at (wd_disk w)" remains_on
  for suffix
proof (unfold_locales, goal_cases)
  case 1 then show ?case unfolding real_ops by (rule real_created)
next
  case 2 then show ?case unfolding real_ops by (rule real_written)
next
  case 3 then show ?case unfolding real_ops by (rule real_synced)
next
  case 4 then show ?case unfolding real_ops by (rule real_renamed)
next
  case 5 then show ?case unfolding real_ops by (rule real_dir_synced)
next
  case 6 then show ?case unfolding real_ops by (rule real_removed)
next
  case 7 then show ?case by (auto simp: settled_at_def file_at_def)
qed

section \<open>Lemmas: locking and writing\<close>

lemma lock_path_other: "lock_path_for p = Inr lp \<Longrightarrow> lp \<noteq> p"
proof
  assume l: "lock_path_for p = Inr lp" and e: "lp = p"
  then obtain n where n: "file_name p = Some n" "p \<noteq> []" "last lp = Normal (n @ lit ''.lock'')"
    by (auto simp: lock_path_for_def path_join_def file_name_def split: if_splits)
  then have "Normal n = Normal (n @ lit ''.lock'')"
    using e by (auto simp: file_name_def split: path_part.splits)
  then show False by (simp add: lit_def)
qed

lemma temp_path_other:
  assumes "parent p = Some dir" and "file_name p = Some base"
  shows "p = dir @ [Normal base]" "temp_path_for suffix dir base \<noteq> p"
proof -
  have "p \<noteq> []" "last p = Normal base"
    using assms(2) by (auto simp: file_name_def split: if_splits path_part.splits)
  then show p: "p = dir @ [Normal base]"
    using assms(1) append_butlast_last_id [of p] by (auto simp: parent_def split: if_splits)
  have "length (lit ''.'' @ base @ lit ''.tmp.'' @ suffix) \<noteq> length base" by (simp add: lit_def)
  then have "lit ''.'' @ base @ lit ''.tmp.'' @ suffix \<noteq> base" by metis
  then show "temp_path_for suffix dir base \<noteq> p"
    unfolding p temp_path_for_def path_join_def by (simp only: same_append_eq list.inject path_part.inject) blast
qed

lemma vault_file_lock_ok:
  assumes "disk_ok (wd_disk w)" and "vault_file_lock p w = (w', r)"
  shows "disk_ok (wd_disk w') \<and> live_on w' p = live_on w p \<and> crash_on w' p \<subseteq> crash_on w p"
proof (cases "lock_path_for p")
  case (Inl e)
  with assms show ?thesis by (auto simp: vault_file_lock_def)
next
  case (Inr lp)
  have lp: "lp \<noteq> p" by (rule lock_path_other [OF Inr])
  have "and_then (open_lock_file lp w) (\<lambda>f w. as_lock (syscall (\<lambda>d. Inr (d, f)) w)) = (w', r)"
    using assms(2) Inr by (simp add: vault_file_lock_def)
  then obtain w1 r1 where o: "open_lock_file lp w = (w1, r1)" and w1: "wd_disk w' = wd_disk w1"
    by (cases rule: and_thenE) (auto simp: syscall_def Let_def split: option.splits)
  from o have "disk_ok (wd_disk w1) \<and> agree_off live_on crash_on {lp} w w1"
    unfolding open_lock_file_def agree_on
    by (cases rule: syscall_cases)
      (use assms(1) new_file_ok [OF assms(1)] in \<open>auto simp: open_create_def split: option.splits if_splits\<close>)
  then show ?thesis using agree_offD [of live_on crash_on "{lp}" w w1 p] lp w1 by simp
qed

lemma vault_file_lock_remains: "vault_file_lock p w = (w', r) \<Longrightarrow> remains_on w' = remains_on w"
  by (rule remains_cong)
    (auto simp: vault_file_lock_def open_lock_file_def syscall_def open_create_def new_file_def set_entry_def Let_def
      elim!: and_thenE split: option.splits sum.splits prod.splits if_splits)

lemma create_dir_all_ok:
  assumes "disk_ok (wd_disk w)" and "create_dir_all dir w = (w', r)"
  shows "disk_ok (wd_disk w') \<and> agree_off live_on crash_on {} w w' \<and> remains_on w' = remains_on w"
proof -
  have d: "disk_ok d \<and> agree_off file_at crash_at {} (wd_disk w) d \<and> dk_kept d = dk_kept (wd_disk w)"
    if "make_dirs n dir (wd_disk w) = Inr (d, u)" for n d u
    using make_dirs_ok(1-3) [OF assms(1) that] by simp
  show ?thesis
  proof (cases "wd_fault w (wd_calls w)")
    case None
    with assms(2) have "as_io (syscall (make_dirs (length (ancestors dir)) dir) w) = (w', r)"
      by (simp add: create_dir_all_def)
    then show ?thesis unfolding agree_on
      by (cases rule: syscall_cases) (use assms(1) d remains_cong [of w' w] in auto)
  next
    case (Some f)
    with assms show ?thesis unfolding agree_on
      using d remains_cong [of w' w] by (auto simp: create_dir_all_def Let_def split: prod.splits sum.splits)
  qed
qed

text \<open>The whole operation, with the effects of its clean-up and of the lock file.\<close>
lemma write_vault_effect:
  assumes "disk_ok (wd_disk w)" and "write_vault_atomic suffix p bytes w = (w', r)"
  shows "disk_ok (wd_disk w') \<and> remains_on w' p = remains_on w p \<and> crash_on w' p \<subseteq> insert (Some bytes) (crash_on w p) \<and>
    (live_on w' p = live_on w p \<or> live_on w' p = Some bytes) \<and>
    (r = Inr () \<longrightarrow> live_on w' p = Some bytes \<and> crash_on w' p \<subseteq> insert (Some bytes) (remains_on w p))"
proof (cases "parent p")
  case None
  with assms show ?thesis by (auto simp: write_vault_atomic_def)
next
  case (Some dir)
  with assms(2) have "and_then (create_dir_all dir w) (\<lambda>_ w. and_then (vault_file_lock p w)
      (\<lambda>_ w. write_vault_atomic_with_backend (real_storage_backend suffix) p bytes w)) = (w', r)"
    by (simp add: write_vault_atomic_def)
  then show ?thesis
  proof (cases rule: and_thenE)
    case (err e)
    from create_dir_all_ok [OF assms(1) err(1)] err(2) show ?thesis
      using agree_offD [of live_on crash_on "{}" w w' p] by auto
  next
    case (ok w1 u)
    from create_dir_all_ok [OF assms(1) ok(1)]
    have w1: "disk_ok (wd_disk w1)" "live_on w1 p = live_on w p" "crash_on w1 p \<subseteq> crash_on w p"
      "remains_on w1 = remains_on w"
      using agree_offD [of live_on crash_on "{}" w w1 p] by auto
    from ok(2) show ?thesis
    proof (cases rule: and_thenE)
      case (err e)
      with vault_file_lock_ok [OF w1(1) err(1)] vault_file_lock_remains [OF err(1)] w1 show ?thesis by auto
    next
      case (ok w2 f)
      from vault_file_lock_ok [OF w1(1) ok(1)] vault_file_lock_remains [OF ok(1)] w1
      have w2: "disk_ok (wd_disk w2)" "live_on w2 p = live_on w p" "crash_on w2 p \<subseteq> crash_on w p"
        "remains_on w2 = remains_on w" by auto
      show ?thesis
      proof (cases "file_name p")
        case None
        with ok(2) Some w2 show ?thesis by (auto simp: write_vault_atomic_with_backend_def)
      next
        case (Some base)
        from real.write_all_or_nothing [OF w2(1) \<open>parent p = Some dir\<close> Some refl _ ok(2)] w2(2-4)
          temp_path_other(2) [OF \<open>parent p = Some dir\<close> Some]
        show ?thesis by (auto simp: real_storage_backend_def)
      qed
    qed
  qed
qed

text \<open>Only \<open>create_dir_all\<close> makes directories.\<close>

lemma syscall_dirs:
  "as_io (syscall f w) = (w', r) \<Longrightarrow> (\<And>d v. f (wd_disk w) = Inr (d, v) \<Longrightarrow> dk_dir d = dk_dir (wd_disk w)) \<Longrightarrow>
    dk_dir (wd_disk w') = dk_dir (wd_disk w)"
  by (erule syscall_cases) auto

lemma ops_dirs:
  "real_create_temp_file p w = (w', x) \<Longrightarrow> dk_dir (wd_disk w') = dk_dir (wd_disk w)"
  "real_write_all t bs w = (w', r) \<Longrightarrow> dk_dir (wd_disk w') = dk_dir (wd_disk w)"
  "real_sync_temp_file t w = (w', r) \<Longrightarrow> dk_dir (wd_disk w') = dk_dir (wd_disk w)"
  "real_rename p q w = (w', r) \<Longrightarrow> dk_dir (wd_disk w') = dk_dir (wd_disk w)"
  "sync_parent_dir dir w = (w', r) \<Longrightarrow> dk_dir (wd_disk w') = dk_dir (wd_disk w)"
  "real_remove_file p w = (w', r) \<Longrightarrow> dk_dir (wd_disk w') = dk_dir (wd_disk w)"
  "vault_file_lock p w = (w', x) \<Longrightarrow> dk_dir (wd_disk w') = dk_dir (wd_disk w)"
  by (auto simp: real_create_temp_file_def real_write_all_def real_sync_temp_file_def real_rename_def sync_parent_dir_def
      real_remove_file_def vault_file_lock_def open_lock_file_def syscall_def open_create_new_def open_create_def
      new_file_def set_entry_def append_data_def sync_data_def rename_entry_def sync_entries_def unlink_entry_def Let_def
      elim!: and_thenE split: option.splits sum.splits prod.splits if_splits)

lemma write_dirs:
  assumes "write_vault_atomic suffix p bytes w = (w', r)" and "dk_dir (wd_disk w') q"
  shows "dk_dir (wd_disk w) q \<or> q \<in> set (ancestors (butlast p))"
proof -
  have c: "dk_dir (wd_disk w2) = dk_dir (wd_disk w1)"
    if "write_vault_atomic_with_backend (real_storage_backend suffix) p bytes w1 = (w2, x)" for w1 w2 x
  proof -
    have "dk_dir (wd_disk w2) = dk_dir (wd_disk w1)"
      if "write_and_commit (real_storage_backend suffix) dir tmp p bytes w1 = (w2, x)" for w2 dir tmp x
      using that unfolding write_and_commit_def real_ops by (elim and_thenE) (simp_all add: ops_dirs)
    moreover have "dk_dir (wd_disk (fst (real_remove_file tmp w2))) = dk_dir (wd_disk w2)" for tmp w2
      using ops_dirs(6) by (metis prod.collapse)
    ultimately show ?thesis
      using that by (auto simp: write_vault_atomic_with_backend_def real_ops Let_def elim!: and_thenE split: prod.splits if_splits)
  qed
  have m: "dk_dir (wd_disk w2) q \<Longrightarrow> dk_dir (wd_disk w1) q \<or> q \<in> set (ancestors dir)"
    if "create_dir_all dir w1 = (w2, x)" for w1 w2 x dir
  proof -
    have "dk_dir d q \<Longrightarrow> dk_dir (wd_disk w1) q \<or> q \<in> set (ancestors dir)"
      if "make_dirs n dir (wd_disk w1) = Inr (d, u)" for n d u
      using that in_set_takeD [of q n "missing (wd_disk w1) dir"]
      by (auto simp: make_dirs_def missing_def split: list.splits if_splits)
    with that show "dk_dir (wd_disk w2) q \<Longrightarrow> ?thesis"
      by (auto simp: create_dir_all_def syscall_def Let_def split: option.splits sum.splits prod.splits)
  qed
  have "butlast p = dir" if "parent p = Some dir" for dir using that by (auto simp: parent_def split: if_splits)
  then show ?thesis
    using assms by (auto simp: write_vault_atomic_def elim!: and_thenE dest!: c ops_dirs(7) dest: m)
qed

section \<open>Runs without failures\<close>

definition no_faults :: "world \<Rightarrow> bool" where "no_faults w \<longleftrightarrow> (\<forall>i. wd_fault w i = None)"

lemma syscall_no_faults:
  "no_faults w \<Longrightarrow> syscall f w =
    (case f (wd_disk w) of Inl e \<Rightarrow> (w\<lparr>wd_calls := wd_calls w + 1\<rparr>, Inl e)
     | Inr (d, v) \<Rightarrow> (w\<lparr>wd_calls := wd_calls w + 1, wd_disk := d\<rparr>, Inr v))"
  by (simp add: syscall_def no_faults_def Let_def split: sum.splits prod.splits)

lemma real_write_all_no_faults:
  "no_faults w \<Longrightarrow> real_write_all i bs w =
    (w\<lparr>wd_calls := wd_calls w + 1, wd_disk := append_data i bs (wd_disk w)\<rparr>, Inr ())"
  by (simp add: real_write_all_def no_faults_def Let_def)

lemma no_faults_update [simp]:
  "no_faults (w\<lparr>wd_calls := n\<rparr>) = no_faults w" "no_faults (w\<lparr>wd_disk := d\<rparr>) = no_faults w"
  by (simp_all add: no_faults_def)

lemmas disk_ops = new_file_def set_entry_def append_data_def sync_data_def rename_entry_def open_create_new_def

text \<open>The calls of the writer, in a directory that can be opened or not.\<close>
lemma commit_no_faults:
  assumes "no_faults w" and "dk_entry (wd_disk w) tmp = None" and "\<not> dk_dir (wd_disk w) tmp" and "tmp \<noteq> p"
    and "\<not> dk_dir (wd_disk w) p" and "butlast tmp = dir" and "butlast p = dir" and "missing (wd_disk w) dir = []"
  shows "\<exists>w'. write_and_commit (real_storage_backend suffix) dir tmp p bytes w =
      (w', if wd_unix w \<and> dir = [] then Inl (Io ENOENT) else Inr ()) \<and> no_faults w' \<and>
    live_on w' p = Some bytes \<and> live_on w' tmp = None \<and>
    (\<not> wd_unix w \<longrightarrow> dk_entry (wd_disk w) p \<in> dk_maybe (wd_disk w) p \<longrightarrow> dk_entry (wd_disk w) p \<in> dk_maybe (wd_disk w') p)"
  using assms
  by (simp add: write_and_commit_def real_storage_backend_def real_create_temp_file_def real_sync_temp_file_def
      real_rename_def sync_parent_dir_def sync_entries_def syscall_no_faults real_write_all_no_faults disk_ops
      Let_def file_at_def)

lemma lock_no_faults:
  assumes "no_faults w" and "parent p = Some dir" and "file_name p = Some base" and "missing (wd_disk w) dir = []"
    and "\<not> dk_dir (wd_disk w) (path_join dir (base @ lit ''.lock''))"
  shows "\<exists>w' f. vault_file_lock p w = (w', Inr f) \<and> no_faults w' \<and> wd_unix w' = wd_unix w \<and>
    dk_dir (wd_disk w') = dk_dir (wd_disk w) \<and>
    (\<forall>q. q \<noteq> path_join dir (base @ lit ''.lock'') \<longrightarrow> dk_entry (wd_disk w') q = dk_entry (wd_disk w) q)"
  using assms
  by (simp add: vault_file_lock_def lock_path_for_def open_lock_file_def syscall_no_faults open_create_def
      path_join_def disk_ops Let_def split: option.splits)

lemma temp_not_lock: "temp_path_for suffix dir base \<noteq> path_join dir (base @ lit ''.lock'')"
proof -
  have "length (lit ''.'' @ base @ lit ''.tmp.'' @ suffix) \<noteq> length (base @ lit ''.lock'')" by (simp add: lit_def)
  then have "lit ''.'' @ base @ lit ''.tmp.'' @ suffix \<noteq> base @ lit ''.lock''" by metis
  then show ?thesis
    unfolding temp_path_for_def path_join_def by (simp only: same_append_eq list.inject path_part.inject) blast
qed

text \<open>Nothing is in the way of a save: no file where a directory is needed, no directory where a file is.\<close>
definition unobstructed :: "rstring \<Rightarrow> path \<Rightarrow> rstring \<Rightarrow> disk \<Rightarrow> bool" where
  "unobstructed suffix dir base d \<longleftrightarrow> list_all (\<lambda>q. dk_entry d q = None) (missing d dir) \<and>
     dk_entry d (temp_path_for suffix dir base) = None \<and>
     list_all (\<lambda>n. \<not> dk_dir d (path_join dir n))
       [base, base @ lit ''.lock'', lit ''.'' @ base @ lit ''.tmp.'' @ suffix]"

lemma make_dirs_unobstructed:
  assumes "unobstructed suffix dir base d" and "disk_ok d"
  obtains d' where "make_dirs (length (ancestors dir)) dir d = Inr (d', ())" "missing d' dir = []"
    "unobstructed suffix dir base d'"
proof -
  let ?n = "length (ancestors dir)"
  have "list_all (\<lambda>q. dk_entry d q = None) (missing d dir)" using assms(1) by (simp add: unobstructed_def)
  then have "\<exists>d'. make_dirs ?n dir d = Inr (d', ())"
    by (cases "missing d dir") (simp_all add: make_dirs_def)
  then obtain d' where d': "make_dirs ?n dir d = Inr (d', ())" ..
  note k = make_dirs_ok [OF assms(2) d']
  have m: "missing d' dir = []" using k(9) by (simp add: missing_def)
  have "path_join dir n \<notin> set (missing d dir)" for n
    by (auto simp: missing_def in_ancestors path_join_def dest: arg_cong [where f = length])
  moreover have "dk_dir d' q \<Longrightarrow> dk_dir d q \<or> q \<in> set (missing d dir)" for q
    using k(8) by (auto dest: in_set_takeD)
  ultimately have "unobstructed suffix dir base d'"
    using assms(1) k(4) m by (auto simp: unobstructed_def)
  with d' m that show thesis by blast
qed

lemma dirs_no_faults:
  assumes "no_faults w" and "unobstructed suffix dir base (wd_disk w)" and "disk_ok (wd_disk w)"
  shows "\<exists>w'. create_dir_all dir w = (w', Inr ()) \<and> no_faults w' \<and> wd_unix w' = wd_unix w \<and>
    missing (wd_disk w') dir = [] \<and> unobstructed suffix dir base (wd_disk w')"
proof -
  obtain d where "make_dirs (length (ancestors dir)) dir (wd_disk w) = Inr (d, ())" "missing d dir = []"
    "unobstructed suffix dir base d" by (rule make_dirs_unobstructed [OF assms(2,3)])
  then show ?thesis using assms(1) by (simp add: create_dir_all_def no_faults_def syscall_def Let_def)
qed

lemma write_no_faults:
  assumes "no_faults w" and "disk_ok (wd_disk w)" and "parent p = Some dir" and "file_name p = Some base"
    and "unobstructed suffix dir base (wd_disk w)"
  shows "\<exists>w'. write_vault_atomic suffix p bytes w = (w', if wd_unix w \<and> dir = [] then Inl (Io ENOENT) else Inr ()) \<and>
    live_on w' p = Some bytes"
proof -
  let ?tmp = "temp_path_for suffix dir base" and ?lock = "path_join dir (base @ lit ''.lock'')"
  have p: "p = path_join dir base" using temp_path_other(1) [OF assms(3,4)] by (simp add: path_join_def)
  obtain w0 where d: "create_dir_all dir w = (w0, Inr ())" "no_faults w0" "wd_unix w0 = wd_unix w"
    "missing (wd_disk w0) dir = []" "unobstructed suffix dir base (wd_disk w0)"
    using dirs_no_faults [OF assms(1,5,2)] by blast
  have n: "\<not> dk_dir (wd_disk w0) p" "\<not> dk_dir (wd_disk w0) ?lock" "\<not> dk_dir (wd_disk w0) ?tmp" "dk_entry (wd_disk w0) ?tmp = None"
    using d(5) p by (simp_all add: unobstructed_def temp_path_for_def)
  obtain w1 f where l: "vault_file_lock p w0 = (w1, Inr f)" "no_faults w1" "wd_unix w1 = wd_unix w"
    "dk_dir (wd_disk w1) = dk_dir (wd_disk w0)" "dk_entry (wd_disk w1) ?tmp = None"
    using lock_no_faults [OF d(2) assms(3,4) d(4) n(2)] n(4) temp_not_lock [of suffix dir base] d(3) by auto
  have m: "missing (wd_disk w1) dir = []" using d(4) missing_cong [OF l(4)] by simp
  obtain w2 where c: "write_and_commit (real_storage_backend suffix) dir ?tmp p bytes w1 =
      (w2, if wd_unix w \<and> dir = [] then Inl (Io ENOENT) else Inr ())" "no_faults w2" "live_on w2 p = Some bytes"
    "live_on w2 ?tmp = None"
    using commit_no_faults [OF l(2,5) _ temp_path_other(2) [OF assms(3,4)] _ _ _ m] n l(3,4) p
    by (auto simp: temp_path_for_def path_join_def)
  have t: "sb_temp_path_for (real_storage_backend suffix) dir base = ?tmp"
    by (simp add: real_storage_backend_def)
  have "live_on (fst (sb_remove_file (real_storage_backend suffix) ?tmp w2)) p = live_on w2 p"
    using c(2,4) by (simp add: real_storage_backend_def real_remove_file_def syscall_no_faults unlink_entry_def file_at_def)
  with d(1) l(1) c(1,3) show ?thesis
    by (simp add: write_vault_atomic_def write_vault_atomic_with_backend_def assms(3,4) t)
qed

lemma crashed_disk_ok: "disk_ok d \<Longrightarrow> crashes_to d d' \<Longrightarrow> disk_ok d'"
  unfolding disk_ok_def crashes_to_def by (auto split: if_splits) (metis singletonD option.distinct(1))+

lemma read_no_faults:
  assumes "no_faults w" and "disk_ok (wd_disk w)" and "parent p = Some dir" and "file_name p = Some base"
    and "live_on w p = Some bs" and "\<not> dk_dir (wd_disk w) (path_join dir (base @ lit ''.lock''))"
  shows "\<exists>w'. read_vault_locked p w = (w', Inr bs)"
proof -
  have b: "butlast p = dir" using assms(3) by (auto simp: parent_def split: if_splits)
  obtain i where "dk_entry (wd_disk w) p = Some i" using assms(5) by (auto simp: file_at_def)
  then have "missing (wd_disk w) dir = []"
    using disk_okD(1) [OF assms(2), of p] disk_okD(3) [OF assms(2), of i p] b by simp
  then obtain w1 f where l: "vault_file_lock p w = (w1, Inr f)" "no_faults w1"
    using lock_no_faults [OF assms(1,3,4) _ assms(6)] by blast
  then have "live_on w1 p = Some bs" using vault_file_lock_ok [OF assms(2) l(1)] assms(5) by simp
  with l show ?thesis
    by (auto simp: read_vault_locked_def read_vault_bytes_def syscall_no_faults open_read_def file_at_def)
qed

text \<open>A disk with nothing but the root.\<close>
definition blank_disk :: disk where
  "blank_disk = \<lparr>dk_dir = (\<lambda>_. False), dk_kept = (\<lambda>_. False), dk_entry = Map.empty, dk_maybe = (\<lambda>_. {None}),
     dk_data = (\<lambda>_. []), dk_synced = (\<lambda>_. True), dk_fresh = 0\<rparr>"

definition blank_world :: world where
  "blank_world = \<lparr>wd_unix = True, wd_disk = blank_disk, wd_calls = 0, wd_fault = (\<lambda>_. None)\<rparr>"

lemma blank_ok: "disk_ok (wd_disk blank_world)" "no_faults blank_world" "dk_entry (wd_disk blank_world) p = None"
  "live_on blank_world p = None" "\<not> dk_dir (wd_disk blank_world) p" "wd_unix blank_world"
  by (simp_all add: blank_world_def blank_disk_def disk_ok_def no_faults_def file_at_def)

lemma blank_unobstructed: "unobstructed suffix dir base (wd_disk blank_world)"
  by (simp add: unobstructed_def list_all_iff blank_ok)

lemma root_ok: "missing d [RootDir] = []" "lasting d [RootDir]"
  by (simp_all add: missing_def lasting_def ancestors_def named_def file_name_def)

section \<open>Properties\<close>

text \<open>C17. Saving is all or nothing, whatever calls of the operating system fail and wherever the process
  is killed (from some call on, every call fails): a read of the target gives the old contents or
  all of the new ones, and after a crash the medium holds something it could already hold before or
  all of the new contents. A save that reports success has put the new contents in place; on a Unix
  target it has also ruled out every older version, and what a crash leaves is exactly the new contents
  when the directory of the vault could not be lost before the save, and otherwise (it was just created,
  by the save itself or before, and nothing has synced its own entry) the new contents or no file at all.
  On the other targets, where syncing the directory does nothing, an older version may still return.\<close>

theorem vault_write_crash_safe:
  assumes "disk_ok (wd_disk w)" and "write_vault_atomic suffix p bytes w = (w', r)"
  shows "live_on w' p \<in> {live_on w p, Some bytes} \<and>
    crash_on w' p \<subseteq> insert (Some bytes) (crash_on w p) \<and>
    (r = Inr () \<longrightarrow> live_on w' p = Some bytes \<and> Some bytes \<in> crash_on w' p \<and>
       (wd_unix w \<longrightarrow> crash_on w' p = insert (Some bytes) (if lasting (wd_disk w) (butlast p) then {} else {None}))) \<and>
    disk_ok (wd_disk w')"
proof -
  note e = write_vault_effect [OF assms]
  have l: "live_on w' p = Some bytes \<Longrightarrow> Some bytes \<in> crash_on w' p"
    using live_may_remain [of "wd_disk w'" p] e by simp
  have "None \<in> crash_on w' p" if "remains_on w p = {None}"
    using e that by (auto simp: crash_at_iff remains_on_def split: if_splits)
  then show ?thesis using e l by (auto simp: remains_on_def split: if_splits)
qed

theorem vault_write_crash_safe_witness:
  "crash_on (fst (write_vault_atomic [49] [RootDir, Normal [97]] [1, 2, 3] blank_world)) [RootDir, Normal [97]] = {Some [1, 2, 3]}"
proof -
  have "parent [RootDir, Normal [97]] = Some [RootDir]" "file_name [RootDir, Normal [97]] = Some [97]"
    by (simp_all add: parent_def file_name_def)
  from write_no_faults [OF blank_ok(2,1) this blank_unobstructed] obtain w' where
    "write_vault_atomic [49] [RootDir, Normal [97]] [1, 2, 3] blank_world = (w', Inr ())" by auto
  with vault_write_crash_safe [OF blank_ok(1) this] show ?thesis by (simp add: root_ok blank_ok)
qed

text \<open>Finding. A vault named by a bare file name cannot be saved with success: its parent is the empty
  path, which the final sync of the directory cannot open. The save always reports an error, and
  when nothing else fails the file has been replaced all the same.\<close>

lemma bare_name_save_always_fails:
  assumes "no_faults w" and "disk_ok (wd_disk w)" and "wd_unix w" and "unobstructed suffix [] name (wd_disk w)"
  shows "lock_path_for [Normal name] = Inr [Normal (name @ lit ''.lock'')] \<and>
    (\<exists>w'. write_vault_atomic suffix [Normal name] bytes w = (w', Inl (Io ENOENT)) \<and>
       live_on w' [Normal name] = Some bytes)"
  using write_no_faults [OF assms(1,2) _ _ assms(4), of "[Normal name]" bytes] assms(3)
  by (simp add: parent_def file_name_def lock_path_for_def path_join_def)

text \<open>Finding. A vault saved into a directory that did not exist can vanish after the save has reported
  success: \<open>create_dir_all\<close> makes the directory, and nothing syncs the directory above, where its entry is.\<close>

lemma saved_in_new_directory_can_vanish:
  assumes "no_faults w" and "disk_ok (wd_disk w)" and "wd_unix w" and "unobstructed suffix (dir @ [Normal d]) base (wd_disk w)"
    and "\<not> dk_dir (wd_disk w) (dir @ [Normal d])"
  shows "\<exists>w'. write_vault_atomic suffix (dir @ [Normal d, Normal base]) bytes w = (w', Inr ()) \<and>
    None \<in> crash_on w' (dir @ [Normal d, Normal base])"
proof -
  let ?p = "dir @ [Normal d, Normal base]"
  have p: "parent ?p = Some (dir @ [Normal d])" "file_name ?p = Some base" "butlast ?p = dir @ [Normal d]"
    by (simp_all add: parent_def file_name_def butlast_append)
  from write_no_faults [OF assms(1,2) p(1,2) assms(4)] obtain w' where
    w: "write_vault_atomic suffix ?p bytes w = (w', Inr ())" by auto
  note e = write_vault_effect [OF assms(2) w]
  have "\<not> dk_kept (wd_disk w) (dir @ [Normal d])" using disk_okD(4) [OF assms(2)] assms(5) by blast
  then have "\<not> lasting (wd_disk w) (butlast ?p)"
    unfolding p(3) lasting_iff by (intro notI) (auto simp: named_def file_name_def dest: spec [of _ "length dir + 1"])
  then have "remains_on w' ?p = {None}" using e assms(3) by (simp add: remains_on_def)
  then have "\<not> lasting (wd_disk w') (butlast ?p)" by (auto simp: remains_on_def split: if_splits)
  then have "None \<in> crash_on w' ?p" using e by (simp add: crash_at_iff)
  then show ?thesis using w by blast
qed

text \<open>Finding. Off Unix the directory is never synced: a save reports success while a crash can still
  undo its rename, even in a directory that has always been there.\<close>

lemma unsynced_save_can_vanish:
  "\<exists>w'. write_vault_atomic [49] [RootDir, Normal [97]] [1] (blank_world\<lparr>wd_unix := False\<rparr>) = (w', Inr ()) \<and>
     None \<in> crash_on w' [RootDir, Normal [97]]"
proof -
  let ?w = "blank_world\<lparr>wd_unix := False\<rparr>" and ?p = "[RootDir, Normal [97]]"
  have "parent ?p = Some [RootDir]" "file_name ?p = Some [97]" by (simp_all add: parent_def file_name_def)
  from write_no_faults [OF _ _ this, of ?w "[49]" "[1]"] obtain w' where
    w: "write_vault_atomic [49] ?p [1] ?w = (w', Inr ())"
    using blank_ok(1,2) blank_unobstructed by (auto simp: no_faults_def)
  have "None \<in> dk_maybe (wd_disk (fst (write_vault_atomic [49] ?p [1] ?w))) ?p" by code_simp
  then have "None \<in> crash_on w' ?p"
    using w write_vault_effect [OF _ w] blank_ok(1) by (intro crash_kept bexI [of _ None]) auto
  with w show ?thesis by blast
qed

end
