(* ===== verification/Persist.thy ===== *)
theory Persist
  imports Vault_Life Storage
begin

text \<open>
  A vault on disk: creation, encoding, the transactional write, a crash, reading back,
  decoding and unlocking composed.
\<close>

section \<open>Lemmas\<close>

text \<open>
  What a save into a lasting directory of a Unix target needs to be readable after any crash: no
  directory has the name of the lock file.
\<close>
definition saves_for_good :: "path \<Rightarrow> world \<Rightarrow> bool" where
  "saves_for_good p w \<longleftrightarrow> wd_unix w \<and> lasting (wd_disk w) (butlast p) \<and>
     (case lock_path_for p of Inl _ \<Rightarrow> True | Inr lp \<Rightarrow> \<not> dk_dir (wd_disk w) lp)"

lemma crash_read:
  assumes "disk_ok (wd_disk w)" and "saves_for_good p w" and "write_vault_atomic suffix p bytes w = (w', Inr ())"
    and "crashes_to (wd_disk w') (wd_disk w2)" and "no_faults w2"
  shows "\<exists>w3. read_vault_locked p w2 = (w3, Inr bytes)"
proof -
  from write_vault_effect [OF assms(1,3)] assms(2) have c: "disk_ok (wd_disk w')" "crash_on w' p \<subseteq> {Some bytes}"
    by (simp_all add: remains_on_def saves_for_good_def)
  from c(2) assms(4) have l: "live_on w2 p = Some bytes" by (auto simp: crash_at_def)
  obtain dir base where p: "parent p = Some dir" "file_name p = Some base"
    using assms(3) by (auto simp: write_vault_atomic_def write_vault_atomic_with_backend_def and_then_Inr_iff)
  let ?l = "path_join dir (base @ lit ''.lock'')"
  have b: "butlast p = dir" using p(1) by (auto simp: parent_def split: if_splits)
  have "\<not> dk_dir (wd_disk w) ?l" using assms(2) p by (simp add: saves_for_good_def lock_path_for_def)
  moreover have "?l \<notin> set (ancestors (butlast p))"
    by (auto simp: in_ancestors b path_join_def dest: arg_cong [where f = length])
  ultimately have "\<not> dk_dir (wd_disk w') ?l" using write_dirs [OF assms(3)] by blast
  then have "\<not> dk_dir (wd_disk w2) ?l" using assms(4) by (auto simp: crashes_to_def)
  then show ?thesis by (rule read_no_faults [OF assms(5) crashed_disk_ok [OF c(1) assms(4)] p l])
qed

section \<open>Properties\<close>

text \<open>A created vault that was saved with success, on a Unix target and into a directory that no crash can
  lose, survives a power failure: whatever state the medium is
  in afterwards, the file reads back, decodes and opens under its password as the payload it was
  made from.\<close>

lemma saved_vault_survives_crash:
  assumes "create_encrypted_vault J C rnd new_id pw p schema kdf = Inr vf"
    and "encode_vault_storage J probe (vf_header vf) (vf_storage vf) fv = Inr file"
    and "length file \<le> 16 * 1024 * 1024"
    and "aead_correct C" and "header_json_ok J (vf_header vf)"
    and "payload_json_ok J (map entry_to_dto (vp_entries p))" and "payload_ok p"
    and "disk_ok (wd_disk w)" and "saves_for_good path w" and "write_vault_atomic suffix path file w = (w', Inr ())"
    and "crashes_to (wd_disk w') (wd_disk w2)" and "no_faults w2"
  shows "\<exists>w3 file' parsed. read_vault_locked path w2 = (w3, Inr file') \<and>
    decode_vault_file J probe' file' (Some fv) MAX_VAULT_CONTAINER_PAYLOAD_LEN False = Inr parsed \<and>
    unlock_vault_with_outcome J C parsed pw = Inr (Primary, p)"
  using crash_read [OF assms(8-12)] created_vault_opens [OF assms(1-6), of probe'] assms(7) by auto

end
