(* ===== verification/Storage_Concurrent.thy ===== *)
theory Storage_Concurrent
  imports Storage
begin

text \<open>
  \<open>vault/storage.rs\<close> between processes: any number of processes read and write one vault, each
  through the advisory lock on the lock file, every call to the operating system being one step.
  The scheduler picks the process, how many bytes a read or a write moves, and may
  let a call fail or kill the process.
\<close>

section \<open>Processes\<close>

text \<open>What a process does: \<open>read_vault_locked\<close>, or \<open>write_vault_atomic\<close> with the suffix its
  temporary name will get.\<close>
datatype vjob = ReadVault | WriteVault rstring bytes

text \<open>
  Where it is. The first argument of the later places is the open lock file; \<open>RdData\<close> keeps the open
  vault file and what has been read, \<open>WrData\<close> the open temporary file and how much has been written.
\<close>
datatype vpc =
  AtMkdir | AtOpenLock | AtLock nat
| RdOpen nat | RdSeek nat nat | RdData nat nat bytes
| WrCreate nat | WrData nat nat nat | WrSync nat nat | WrRename nat | WrDirOpen nat | WrDirSync nat
| WrCleanup nat vault_storage_error
| ReadDone "vault_storage_error + bytes" | WriteDone "vault_storage_error + unit" | Killed

record vsys =
  vs_unix :: bool                       \<comment> \<open>\<open>cfg(unix)\<close>\<close>
  vs_disk :: disk
  vs_shared :: "nat \<Rightarrow> nat set"       \<comment> \<open>the processes that hold a shared lock on a file\<close>
  vs_excl :: "nat \<Rightarrow> nat option"
  vs_pc :: "nat \<Rightarrow> vpc"

definition goto :: "nat \<Rightarrow> vpc \<Rightarrow> vsys \<Rightarrow> vsys" where
  "goto i c s = s\<lparr>vs_pc := (vs_pc s)(i := c)\<rparr>"

text \<open>The descriptors of a process are closed: when the guard is dropped, and when the process ends.\<close>
definition release :: "nat \<Rightarrow> vsys \<Rightarrow> vsys" where
  "release i s = s\<lparr>vs_shared := (\<lambda>l. vs_shared s l - {i}),
     vs_excl := (\<lambda>l. if vs_excl s l = Some i then None else vs_excl s l)\<rparr>"

definition finish :: "nat \<Rightarrow> vpc \<Rightarrow> vsys \<Rightarrow> vsys" where
  "finish i c s = goto i c (release i s)"

text \<open>The directory, lock file and temporary file of a vault path that has both parts.\<close>
definition vdir :: "path \<Rightarrow> path" where "vdir p = the (parent p)"
definition vlock :: "path \<Rightarrow> path" where "vlock p = path_join (vdir p) (the (file_name p) @ lit ''.lock'')"
definition vtemp :: "path \<Rightarrow> rstring \<Rightarrow> path" where "vtemp p suffix = temp_path_for suffix (vdir p) (the (file_name p))"

section \<open>The calls\<close>

text \<open>The result of a process whose job has failed before it took the lock.\<close>
fun failed_with :: "vjob \<Rightarrow> vault_storage_error \<Rightarrow> vpc" where
  "failed_with ReadVault e = ReadDone (Inl e)"
| "failed_with (WriteVault _ _) e = WriteDone (Inl e)"

text \<open>\<open>create_dir_all\<close>, some directories at a time: others may create them in between.\<close>
definition mkdir_step :: "path \<Rightarrow> (nat \<Rightarrow> vjob) \<Rightarrow> nat \<Rightarrow> nat \<Rightarrow> vsys \<Rightarrow> vsys" where
  "mkdir_step p job i n s =
    (case make_dirs (Suc n) (vdir p) (vs_disk s) of
       Inl e \<Rightarrow> finish i (failed_with (job i) (Io e)) s
     | Inr (d, _) \<Rightarrow> goto i (if missing d (vdir p) = [] then AtOpenLock else AtMkdir) (s\<lparr>vs_disk := d\<rparr>))"

definition lock_shared_step :: "nat \<Rightarrow> nat \<Rightarrow> vsys \<Rightarrow> vsys" where
  "lock_shared_step i l s =
    (if vs_excl s l = None
     then goto i (RdOpen l) (s\<lparr>vs_shared := (vs_shared s)(l := insert i (vs_shared s l))\<rparr>) else s)"

definition lock_exclusive_step :: "nat \<Rightarrow> nat \<Rightarrow> vsys \<Rightarrow> vsys" where
  "lock_exclusive_step i l s =
    (if vs_excl s l = None \<and> vs_shared s l = {}
     then goto i (WrCreate l) (s\<lparr>vs_excl := (vs_excl s)(l \<mapsto> i)\<rparr>) else s)"

definition open_lock_step :: "path \<Rightarrow> (nat \<Rightarrow> vjob) \<Rightarrow> nat \<Rightarrow> vsys \<Rightarrow> vsys" where
  "open_lock_step p job i s =
    (case open_create (vlock p) (vs_disk s) of
       Inl e \<Rightarrow> finish i (failed_with (job i) (Io e)) s
     | Inr (d, l) \<Rightarrow> goto i (AtLock l) (s\<lparr>vs_disk := d\<rparr>))"

text \<open>A reader: open the vault, seek, read to the end in pieces of at least one byte.\<close>
definition read_step :: "path \<Rightarrow> nat \<Rightarrow> nat \<Rightarrow> vsys \<Rightarrow> vsys" where
  "read_step p i n s =
    (case vs_pc s i of
       RdOpen l \<Rightarrow>
         (case open_read p (vs_disk s) of
            Inr (_, f) \<Rightarrow> goto i (RdSeek l f) s
          | Inl e \<Rightarrow> finish i (ReadDone (Inl (Io e))) s)
     | RdSeek l f \<Rightarrow> goto i (RdData l f []) s
     | RdData l f buf \<Rightarrow>
         (let rest = drop (length buf) (dk_data (vs_disk s) f) in
          if rest = [] then finish i (ReadDone (Inr buf)) s
          else goto i (RdData l f (buf @ take (Suc n) rest)) s)
     | _ \<Rightarrow> s)"

text \<open>
  A writer, from the creation of the temporary file to the sync of the directory, which is nothing
  off Unix.
\<close>
definition write_step :: "path \<Rightarrow> rstring \<Rightarrow> bytes \<Rightarrow> nat \<Rightarrow> nat \<Rightarrow> vsys \<Rightarrow> vsys" where
  "write_step p suffix bytes i n s =
    (case vs_pc s i of
       WrCreate l \<Rightarrow>
         (case open_create_new (vtemp p suffix) (vs_disk s) of
            Inl e \<Rightarrow> goto i (WrCleanup l (Io e)) s
          | Inr (d, t) \<Rightarrow> goto i (WrData l t 0) (s\<lparr>vs_disk := d\<rparr>))
     | WrData l t k \<Rightarrow>
         (if length bytes \<le> k then goto i (WrSync l t) s
          else let piece = take (Suc n) (drop k bytes) in
            goto i (WrData l t (k + length piece)) (s\<lparr>vs_disk := append_data t piece (vs_disk s)\<rparr>))
     | WrSync l t \<Rightarrow> goto i (WrRename l) (s\<lparr>vs_disk := sync_data t (vs_disk s)\<rparr>)
     | WrRename l \<Rightarrow>
         (case rename_entry (vtemp p suffix) p (vs_disk s) of
            Inl e \<Rightarrow> goto i (WrCleanup l (Io e)) s
          | Inr (d, _) \<Rightarrow>
              if vs_unix s then goto i (WrDirOpen l) (s\<lparr>vs_disk := d\<rparr>)
              else finish i (WriteDone (Inr ())) (s\<lparr>vs_disk := d\<rparr>))
     | WrDirOpen l \<Rightarrow>
         if vdir p = [] \<or> missing (vs_disk s) (vdir p) \<noteq> [] then goto i (WrCleanup l (Io ENOENT)) s else goto i (WrDirSync l) s
     | WrDirSync l \<Rightarrow>
         finish i (WriteDone (Inr ())) (s\<lparr>vs_disk := sync_entries (vdir p) (vs_disk s)\<rparr>)
     | WrCleanup l e \<Rightarrow>
         finish i (WriteDone (Inl e))
           (case unlink_entry (vtemp p suffix) (vs_disk s) of Inl _ \<Rightarrow> s | Inr (d, _) \<Rightarrow> s\<lparr>vs_disk := d\<rparr>)
     | _ \<Rightarrow> s)"

definition go :: "path \<Rightarrow> (nat \<Rightarrow> vjob) \<Rightarrow> nat \<Rightarrow> nat \<Rightarrow> vsys \<Rightarrow> vsys" where
  "go p job i n s =
    (case (vs_pc s i, job i) of
       (AtMkdir, _) \<Rightarrow> mkdir_step p job i n s
     | (AtOpenLock, _) \<Rightarrow> open_lock_step p job i s
     | (AtLock l, ReadVault) \<Rightarrow> lock_shared_step i l s
     | (AtLock l, WriteVault _ _) \<Rightarrow> lock_exclusive_step i l s
     | (_, ReadVault) \<Rightarrow> read_step p i n s
     | (_, WriteVault suffix bytes) \<Rightarrow> write_step p suffix bytes i n s)"

text \<open>The next call fails with code \<open>e\<close>; a failing write may have written \<open>n\<close> bytes.\<close>
definition fault :: "(nat \<Rightarrow> vjob) \<Rightarrow> nat \<Rightarrow> nat \<Rightarrow> nat \<Rightarrow> vsys \<Rightarrow> vsys" where
  "fault job i e n s =
    (case vs_pc s i of
       AtMkdir \<Rightarrow> finish i (failed_with (job i) (Io e)) s
     | AtOpenLock \<Rightarrow> finish i (failed_with (job i) (Io e)) s
     | AtLock l \<Rightarrow> finish i (failed_with (job i) (Lock e)) s
     | RdOpen l \<Rightarrow> finish i (ReadDone (Inl (Io e))) s
     | RdSeek l f \<Rightarrow> finish i (ReadDone (Inl (Io e))) s
     | RdData l f buf \<Rightarrow> finish i (ReadDone (Inl (Io e))) s
     | WrCreate l \<Rightarrow> goto i (WrCleanup l (Io e)) s
     | WrData l t k \<Rightarrow>
         (case job i of
            WriteVault _ bytes \<Rightarrow>
              goto i (WrCleanup l (Io e)) (s\<lparr>vs_disk := append_data t (take n (drop k bytes)) (vs_disk s)\<rparr>)
          | ReadVault \<Rightarrow> s)
     | WrSync l t \<Rightarrow> goto i (WrCleanup l (Io e)) s
     | WrRename l \<Rightarrow> goto i (WrCleanup l (Io e)) s
     | WrDirOpen l \<Rightarrow> goto i (WrCleanup l (Io e)) s
     | WrDirSync l \<Rightarrow> goto i (WrCleanup l (Io e)) s
     | WrCleanup l r \<Rightarrow> finish i (WriteDone (Inl r)) s
     | _ \<Rightarrow> s)"

fun ended :: "vpc \<Rightarrow> bool" where
  "ended (ReadDone r) = True" | "ended (WriteDone r) = True" | "ended Killed = True" | "ended _ = False"

definition kill :: "nat \<Rightarrow> vsys \<Rightarrow> vsys" where
  "kill i s = (if ended (vs_pc s i) then s else finish i Killed s)"

datatype sched = Go nat nat | Fault nat nat nat | Kill nat

fun vexec :: "path \<Rightarrow> (nat \<Rightarrow> vjob) \<Rightarrow> vsys \<Rightarrow> sched \<Rightarrow> vsys" where
  "vexec p job s (Go i n) = go p job i n s"
| "vexec p job s (Fault i e n) = fault job i e n s"
| "vexec p job s (Kill i) = kill i s"

text \<open>Nobody holds a lock, every process is before its first call; a reader creates no directory.\<close>
fun entry_pc :: "vjob \<Rightarrow> vpc" where
  "entry_pc ReadVault = AtOpenLock"
| "entry_pc (WriteVault _ _) = AtMkdir"

definition vstart :: "bool \<Rightarrow> disk \<Rightarrow> (nat \<Rightarrow> vjob) \<Rightarrow> vsys" where
  "vstart unix d job = \<lparr>vs_unix = unix, vs_disk = d, vs_shared = (\<lambda>_. {}), vs_excl = (\<lambda>_. None), vs_pc = entry_pc \<circ> job\<rparr>"

section \<open>Who holds what\<close>

fun lock_fd :: "vpc \<Rightarrow> nat option" where
  "lock_fd (AtLock l) = Some l"
| "lock_fd (RdOpen l) = Some l" | "lock_fd (RdSeek l f) = Some l" | "lock_fd (RdData l f buf) = Some l"
| "lock_fd (WrCreate l) = Some l" | "lock_fd (WrData l t k) = Some l" | "lock_fd (WrSync l t) = Some l"
| "lock_fd (WrRename l) = Some l" | "lock_fd (WrDirOpen l) = Some l" | "lock_fd (WrDirSync l) = Some l"
| "lock_fd (WrCleanup l e) = Some l"
| "lock_fd _ = None"

fun reading :: "vpc \<Rightarrow> bool" where
  "reading (RdOpen l) = True" | "reading (RdSeek l f) = True" | "reading (RdData l f buf) = True"
| "reading _ = False"

fun writing :: "vpc \<Rightarrow> bool" where
  "writing (WrCreate l) = True" | "writing (WrData l t k) = True" | "writing (WrSync l t) = True"
| "writing (WrRename l) = True" | "writing (WrDirOpen l) = True" | "writing (WrDirSync l) = True"
| "writing (WrCleanup l e) = True" | "writing _ = False"

text \<open>All open lock files are the one file at the lock path, and the lock table says who reads and writes.\<close>
definition lock_inv :: "path \<Rightarrow> vsys \<Rightarrow> bool" where
  "lock_inv p s \<longleftrightarrow>
     (\<forall>i l. lock_fd (vs_pc s i) = Some l \<longrightarrow> dk_entry (vs_disk s) (vlock p) = Some l) \<and>
     (\<forall>i l. i \<in> vs_shared s l \<longleftrightarrow> reading (vs_pc s i) \<and> lock_fd (vs_pc s i) = Some l) \<and>
     (\<forall>i l. vs_excl s l = Some i \<longleftrightarrow> writing (vs_pc s i) \<and> lock_fd (vs_pc s i) = Some l) \<and>
     (\<forall>l. vs_excl s l \<noteq> None \<longrightarrow> vs_shared s l = {})"

lemma has_fd: "reading c \<or> writing c \<Longrightarrow> \<exists>l. lock_fd c = Some l"
  by (cases c) auto

lemma one_writer:
  assumes "lock_inv p s" and "writing (vs_pc s i)" and "reading (vs_pc s j) \<or> writing (vs_pc s j)"
  shows "j = i"
proof -
  obtain l m where l: "lock_fd (vs_pc s i) = Some l" "lock_fd (vs_pc s j) = Some m"
    using has_fd assms(2,3) by metis
  with assms(1) have "l = m" unfolding lock_inv_def by (metis option.inject)
  with l assms show ?thesis unfolding lock_inv_def by (metis empty_iff option.distinct(1) option.inject)
qed

text \<open>What a process in its critical section knows of the disk.\<close>
definition pc_ok :: "path \<Rightarrow> vjob \<Rightarrow> disk \<Rightarrow> vpc \<Rightarrow> bool" where
  "pc_ok p job d c \<longleftrightarrow>
    (case job of
       ReadVault \<Rightarrow> \<not> writing c \<and>
         (case c of
            RdSeek l f \<Rightarrow> dk_entry d p = Some f
          | RdData l f buf \<Rightarrow> dk_entry d p = Some f \<and> (\<exists>rest. dk_data d f = buf @ rest)
          | _ \<Rightarrow> True)
     | WriteVault suffix bytes \<Rightarrow> \<not> reading c \<and>
         (case c of
            WrData l t k \<Rightarrow> k \<le> length bytes \<and> held_at d t (vtemp p suffix) (take k bytes)
          | WrSync l t \<Rightarrow> held_at d t (vtemp p suffix) bytes
          | WrRename l \<Rightarrow> \<exists>t. held_at d t (vtemp p suffix) bytes \<and> dk_synced d t
          | WrDirOpen l \<Rightarrow> settled_at d p bytes
          | WrDirSync l \<Rightarrow> settled_at d p bytes
          | _ \<Rightarrow> True))"

lemma pc_ok_idle: "\<not> reading c \<Longrightarrow> \<not> writing c \<Longrightarrow> pc_ok p job d c"
  by (cases c) (auto simp: pc_ok_def split: vjob.splits)

text \<open>
  The vault holds what it held at first or one of the texts that are written, also after a crash; its
  directory is as safe as it was.
\<close>
definition versions :: "disk \<Rightarrow> path \<Rightarrow> (nat \<Rightarrow> vjob) \<Rightarrow> disk \<Rightarrow> bool" where
  "versions d0 p job d \<longleftrightarrow>
     file_at d p \<in> insert (file_at d0 p) {Some bs |bs. \<exists>i x. job i = WriteVault x bs} \<and>
     crash_at d p \<subseteq> crash_at d0 p \<union> {Some bs |bs. \<exists>i x. job i = WriteVault x bs} \<and>
     lasting d (vdir p) = lasting d0 (vdir p)"

definition vinv :: "disk \<Rightarrow> path \<Rightarrow> (nat \<Rightarrow> vjob) \<Rightarrow> vsys \<Rightarrow> bool" where
  "vinv d0 p job s \<longleftrightarrow> disk_ok (vs_disk s) \<and> lock_inv p s \<and>
     (\<forall>i. pc_ok p (job i) (vs_disk s) (vs_pc s i)) \<and> versions d0 p job (vs_disk s)"

lemma vinv_start:
  assumes "disk_ok d0"
  shows "vinv d0 p job (vstart unix d0 job)"
proof -
  have "\<not> reading (entry_pc j)" "\<not> writing (entry_pc j)" "lock_fd (entry_pc j) = None" for j
    by (cases j; simp)+
  then show ?thesis
    using assms by (auto simp: vinv_def vstart_def lock_inv_def versions_def intro: pc_ok_idle)
qed

lemma goto_sel [simp]:
  "vs_disk (goto i c s) = vs_disk s" "vs_shared (goto i c s) = vs_shared s" "vs_excl (goto i c s) = vs_excl s"
  "vs_pc (goto i c s) = (vs_pc s)(i := c)"
  by (simp_all add: goto_def)

lemma finish_sel [simp]:
  "vs_disk (finish i c s) = vs_disk s" "vs_unix (finish i c s) = vs_unix s" "vs_unix (goto i c s) = vs_unix s" "vs_pc (finish i c s) = (vs_pc s)(i := c)"
  by (simp_all add: finish_def release_def goto_def)

text \<open>A step inside the critical section, one that leaves it, and one that takes a lock.\<close>

lemma lock_inv_inside:
  assumes "lock_inv p s" and "lock_fd c = lock_fd (vs_pc s i)" and "reading c = reading (vs_pc s i)"
    and "writing c = writing (vs_pc s i)" and "dk_entry d (vlock p) = dk_entry (vs_disk s) (vlock p)"
  shows "lock_inv p (goto i c (s\<lparr>vs_disk := d\<rparr>))"
  using assms unfolding lock_inv_def by simp

lemma lock_invD:
  assumes "lock_inv p s"
  shows "lock_fd (vs_pc s i) = Some l \<Longrightarrow> dk_entry (vs_disk s) (vlock p) = Some l"
    and "i \<in> vs_shared s l \<longleftrightarrow> reading (vs_pc s i) \<and> lock_fd (vs_pc s i) = Some l"
    and "vs_excl s l = Some i \<longleftrightarrow> writing (vs_pc s i) \<and> lock_fd (vs_pc s i) = Some l"
    and "vs_excl s l \<noteq> None \<Longrightarrow> vs_shared s l = {}"
  using assms by (simp_all add: lock_inv_def)

lemma lock_inv_finish:
  assumes "lock_inv p s" and "lock_fd c = None" and "\<not> reading c" and "\<not> writing c"
    and "dk_entry d (vlock p) = dk_entry (vs_disk s) (vlock p)"
  shows "lock_inv p (finish i c (s\<lparr>vs_disk := d\<rparr>))"
proof -
  have "j = i" if "writing (vs_pc s i)" "writing (vs_pc s j)" for j
    using one_writer [OF assms(1) that(1)] that(2) by blast
  then show ?thesis
    using assms(2-5) lock_invD [OF assms(1)] unfolding lock_inv_def finish_def release_def by auto
qed

lemma lock_inv_shared:
  assumes "lock_inv p s" and "vs_pc s i = AtLock l"
  shows "lock_inv p (lock_shared_step i l s)"
proof (cases "vs_excl s l = None")
  case True
  have "\<not> (writing (vs_pc s j) \<and> lock_fd (vs_pc s j) = Some l)" for j
    using True lock_invD(3) [OF assms(1), of l j] by simp
  moreover have "dk_entry (vs_disk s) (vlock p) = Some l" using lock_invD(1) [OF assms(1), of i] assms(2) by simp
  ultimately show ?thesis
    using True assms(2) lock_invD [OF assms(1)] unfolding lock_inv_def lock_shared_step_def by auto
qed (use assms in \<open>auto simp: lock_shared_step_def\<close>)

lemma lock_inv_exclusive:
  assumes "lock_inv p s" and "vs_pc s i = AtLock l"
  shows "lock_inv p (lock_exclusive_step i l s)"
proof (cases "vs_excl s l = None \<and> vs_shared s l = {}")
  case True
  then have "\<not> (writing (vs_pc s j) \<and> lock_fd (vs_pc s j) = Some l)" for j
    using lock_invD(3) [OF assms(1), of l j] by simp
  moreover have "dk_entry (vs_disk s) (vlock p) = Some l" using lock_invD(1) [OF assms(1), of i] assms(2) by simp
  ultimately show ?thesis
    using True assms(2) lock_invD [OF assms(1)] unfolding lock_inv_def lock_exclusive_step_def by auto
qed (use assms in \<open>auto simp: lock_exclusive_step_def\<close>)

lemma lock_inv_open:
  assumes "lock_inv p s" and "lock_fd (vs_pc s i) = None" and "\<not> reading (vs_pc s i)" and "\<not> writing (vs_pc s i)"
    and "dk_entry d (vlock p) = Some l"
    and "\<And>m. dk_entry (vs_disk s) (vlock p) = Some m \<Longrightarrow> m = l"
  shows "lock_inv p (goto i (AtLock l) (s\<lparr>vs_disk := d\<rparr>))"
  using assms(2-6) lock_invD [OF assms(1)] unfolding lock_inv_def by auto

section \<open>The invariant\<close>

lemma vinvD:
  assumes "vinv d0 p job s"
  shows "disk_ok (vs_disk s)" and "lock_inv p s" and "pc_ok p (job i) (vs_disk s) (vs_pc s i)"
    and "versions d0 p job (vs_disk s)"
  using assms by (simp_all add: vinv_def)

text \<open>A process of its own moves without touching the disk.\<close>

lemma pc_ok_update: "pc_ok p (job i) d c \<Longrightarrow> (\<And>j. j \<noteq> i \<Longrightarrow> pc_ok p (job j) d (f j)) \<Longrightarrow>
    pc_ok p (job j) d ((f(i := c)) j)"
  by simp

lemma vinv_stay:
  assumes "vinv d0 p job s" and "lock_fd c = lock_fd (vs_pc s i)" and "reading c = reading (vs_pc s i)"
    and "writing c = writing (vs_pc s i)" and "pc_ok p (job i) (vs_disk s) c"
  shows "vinv d0 p job (goto i c s)"
  using lock_inv_inside [OF vinvD(2) [OF assms(1)] assms(2-4) refl] assms(1,5)
  by (simp add: vinv_def)

lemma vinv_finish:
  assumes "vinv d0 p job s" and "lock_fd c = None" and "\<not> reading c" and "\<not> writing c"
  shows "vinv d0 p job (finish i c s)"
  using lock_inv_finish [OF vinvD(2) [OF assms(1)] assms(2-4) refl] assms
  by (simp add: vinv_def pc_ok_idle)

text \<open>A writer changes the disk: the others are out of the critical section.\<close>

lemma others_idle:
  assumes "vinv d0 p job s" and "writing (vs_pc s i)" and "j \<noteq> i"
  shows "pc_ok p (job j) d (vs_pc s j)"
  using one_writer [OF vinvD(2) [OF assms(1)] assms(2), of j] assms(3) by (intro pc_ok_idle) auto

lemma vinv_write:
  assumes "vinv d0 p job s" and "writing (vs_pc s i)" and "writing c" and "lock_fd c = lock_fd (vs_pc s i)"
    and "pc_ok p (job i) d c" and "disk_ok d" and "dk_entry d (vlock p) = dk_entry (vs_disk s) (vlock p)"
    and "versions d0 p job d"
  shows "vinv d0 p job (goto i c (s\<lparr>vs_disk := d\<rparr>))"
proof -
  have r: "\<not> reading (vs_pc s i)" "\<not> reading c" using assms(2,3) by (cases "vs_pc s i"; cases c; simp)+
  have "lock_inv p (goto i c (s\<lparr>vs_disk := d\<rparr>))"
    using assms(2-4,7) r by (intro lock_inv_inside vinvD(2) [OF assms(1)]) auto
  then show ?thesis using assms(5,6,8) others_idle [OF assms(1,2)] by (simp add: vinv_def)
qed

lemma vinv_write_finish:
  assumes "vinv d0 p job s" and "writing (vs_pc s i)" and "disk_ok d"
    and "dk_entry d (vlock p) = dk_entry (vs_disk s) (vlock p)" and "versions d0 p job d"
  shows "vinv d0 p job (finish i (WriteDone r) (s\<lparr>vs_disk := d\<rparr>))"
proof -
  have "lock_inv p (finish i (WriteDone r) (s\<lparr>vs_disk := d\<rparr>))"
    using assms(4) by (intro lock_inv_finish vinvD(2) [OF assms(1)]) auto
  then show ?thesis using assms(3,5) others_idle [OF assms(1,2)] by (simp add: vinv_def pc_ok_idle)
qed

section \<open>Paths\<close>

definition vault_path :: "path \<Rightarrow> bool" where
  "vault_path p \<longleftrightarrow> parent p \<noteq> None \<and> file_name p \<noteq> None"

lemma vault_paths_differ:
  assumes "vault_path p"
  shows "vlock p \<noteq> p" "vtemp p x \<noteq> p" "vtemp p x \<noteq> vlock p" "parent p = Some (vdir p)"
    "p \<noteq> vlock p" "p \<noteq> vtemp p x" "vlock p \<noteq> vtemp p x"
proof -
  obtain dir base where p: "parent p = Some dir" "file_name p = Some base"
    using assms by (auto simp: vault_path_def)
  have "lock_path_for p = Inr (vlock p)" using p by (simp add: lock_path_for_def vlock_def vdir_def)
  then have "vlock p \<noteq> p" by (rule lock_path_other)
  moreover have "vtemp p x \<noteq> p" using temp_path_other(2) [OF p, of x] p by (simp add: vtemp_def vdir_def)
  moreover have "vtemp p x \<noteq> vlock p" using temp_not_lock p by (simp add: vtemp_def vlock_def vdir_def)
  ultimately show "vlock p \<noteq> p" "vtemp p x \<noteq> p" "vtemp p x \<noteq> vlock p"
    "p \<noteq> vlock p" "p \<noteq> vtemp p x" "vlock p \<noteq> vtemp p x" by auto
  show "parent p = Some (vdir p)" using p by (simp add: vdir_def)
qed

section \<open>Every step keeps the invariant\<close>

lemma agree_at: "agree_off file_at crash_at ps d d' \<Longrightarrow> p \<notin> ps \<Longrightarrow> versions d0 p job d \<Longrightarrow>
    lasting d' (vdir p) = lasting d (vdir p) \<Longrightarrow> versions d0 p job d'"
  using agree_offD [of file_at crash_at ps d d' p] by (auto simp: versions_def)

text \<open>A new file elsewhere does not disturb the files in use.\<close>

lemma new_file_keeps:
  assumes "disk_ok d" and "new_file q d = (d', l)" and "r \<noteq> q"
  shows "dk_entry d' r = dk_entry d r"
    and "dk_entry d r = Some t \<Longrightarrow> dk_data d' t = dk_data d t"
    and "held_at d t r c \<Longrightarrow> held_at d' t r c"
    and "held_at d t r c \<Longrightarrow> dk_synced d t \<Longrightarrow> dk_synced d' t"
    and "settled_at d r c \<Longrightarrow> settled_at d' r c"
proof -
  have d': "dk_entry d' = (dk_entry d)(q \<mapsto> l)" "dk_data d' = (dk_data d)(l := [])"
    "dk_synced d' = (dk_synced d)(l := False)"
    "dk_maybe d' = (dk_maybe d)(q := insert (Some l) (dk_maybe d q))" and l: "l = dk_fresh d"
    using assms(2) by (auto simp: new_file_def set_entry_def Let_def)
  have f: "dk_entry d r = Some t \<Longrightarrow> t \<noteq> l" for t
    using disk_okD [OF assms(1)] l by (metis less_irrefl)
  show "dk_entry d' r = dk_entry d r" using assms(3) by (simp add: d')
  show "dk_entry d r = Some t \<Longrightarrow> dk_data d' t = dk_data d t" using f by (simp add: d')
  show "held_at d t r c \<Longrightarrow> dk_synced d t \<Longrightarrow> dk_synced d' t" using f by (simp add: d' held_at_def)
  show "settled_at d r c \<Longrightarrow> settled_at d' r c" using f assms(3) by (auto simp: d' settled_at_def)
  show "held_at d' t r c" if h: "held_at d t r c"
  proof -
    have "t \<noteq> l" using f h by (simp add: held_at_def)
    with h assms(3) show ?thesis by (auto simp: d' held_at_def)
  qed
qed

lemma pc_ok_keeps:
  assumes "pc_ok p jb d c"
    and "dk_entry d' p = dk_entry d p" and "\<And>t. dk_entry d p = Some t \<Longrightarrow> dk_data d' t = dk_data d t"
    and "\<And>t x c. held_at d t (vtemp p x) c \<Longrightarrow> held_at d' t (vtemp p x) c"
    and "\<And>t x c. held_at d t (vtemp p x) c \<Longrightarrow> dk_synced d t \<Longrightarrow> dk_synced d' t"
    and "\<And>c. settled_at d p c \<Longrightarrow> settled_at d' p c"
  shows "pc_ok p jb d' c"
proof (cases jb)
  case ReadVault
  with assms(1-3) show ?thesis by (cases c) (auto simp: pc_ok_def)
next
  case (WriteVault x bs)
  with assms(1,4-6) show ?thesis by (cases c) (auto simp: pc_ok_def, blast)
qed

lemma failed_with_ended: "lock_fd (failed_with jb e) = None" "\<not> reading (failed_with jb e)" "\<not> writing (failed_with jb e)"
  "ended (failed_with jb e)" "failed_with jb e \<noteq> ReadDone (Inr c)" "failed_with jb e \<noteq> WriteDone (Inr u)"
  by (cases jb; simp)+

lemma mkdir_inv:
  assumes "vinv d0 p job s" and "vs_pc s i = AtMkdir"
  shows "vinv d0 p job (mkdir_step p job i n s)"
proof (cases "make_dirs (Suc n) (vdir p) (vs_disk s)")
  case (Inl e)
  then show ?thesis by (simp add: mkdir_step_def failed_with_ended vinv_finish [OF assms(1)])
next
  case (Inr r)
  obtain d u where r: "r = (d, u)" by (cases r)
  note ok = make_dirs_ok [OF vinvD(1) [OF assms(1)] Inr [unfolded r]]
  let ?c = "if missing d (vdir p) = [] then AtOpenLock else AtMkdir"
  have "pc_ok p (job j) d (vs_pc s j)" for j
    by (rule pc_ok_keeps [OF vinvD(3) [OF assms(1)]]) (simp_all add: ok(4-7) held_at_def settled_at_def)
  moreover have "lock_inv p (goto i ?c (s\<lparr>vs_disk := d\<rparr>))"
    using assms(2) ok(4) by (intro lock_inv_inside vinvD(2) [OF assms(1)]) auto
  moreover have "versions d0 p job d"
    by (rule agree_at [OF ok(2) _ vinvD(4) [OF assms(1)] lasting_cong [OF ok(3)]]) simp
  ultimately have "vinv d0 p job (goto i ?c (s\<lparr>vs_disk := d\<rparr>))"
    using ok(1) by (simp add: vinv_def pc_ok_idle)
  then show ?thesis using Inr r by (simp add: mkdir_step_def)
qed

lemma open_lock_inv:
  assumes "vinv d0 p job s" and "vs_pc s i = AtOpenLock" and "vault_path p"
  shows "vinv d0 p job (open_lock_step p job i s)"
proof (cases "open_create (vlock p) (vs_disk s)")
  case (Inl e)
  then show ?thesis by (simp add: open_lock_step_def failed_with_ended vinv_finish [OF assms(1)])
next
  case (Inr r)
  obtain d l where r: "r = (d, l)" by (cases r)
  show ?thesis
  proof (cases "dk_entry (vs_disk s) (vlock p)")
    case (Some l)
    have "lock_inv p (goto i (AtLock l) (s\<lparr>vs_disk := vs_disk s\<rparr>))"
      using assms(2) Some by (intro lock_inv_open vinvD(2) [OF assms(1)]) auto
    then show ?thesis
      using Some vinvD [OF assms(1)] by (simp add: open_lock_step_def open_create_def vinv_def pc_ok_idle)
  next
    case None
    then have n: "new_file (vlock p) (vs_disk s) = (d, l)" "missing (vs_disk s) (butlast (vlock p)) = []"
      using Inr r by (auto simp: open_create_def split: if_splits)
    note ok = new_file_ok [OF vinvD(1) [OF assms(1)] n]
    have d: "dk_entry d (vlock p) = Some l" using n by (auto simp: new_file_def set_entry_def Let_def)
    have "pc_ok p (job j) d (vs_pc s j)" for j
      by (rule pc_ok_keeps [OF vinvD(3) [OF assms(1)]])
        (use new_file_keeps [OF vinvD(1) [OF assms(1)] n(1)] vault_paths_differ(1,3) [OF assms(3)] in \<open>metis\<close>)+
    moreover have "lock_inv p (goto i (AtLock l) (s\<lparr>vs_disk := d\<rparr>))"
      using assms(2) None by (intro lock_inv_open vinvD(2) [OF assms(1)]) (auto simp: d)
    moreover have "versions d0 p job d"
      using agree_at [OF ok(3) _ vinvD(4) [OF assms(1)] lasting_cong [OF ok(2)]] vault_paths_differ [OF assms(3)] by auto
    ultimately show ?thesis
      using Inr r ok(1) by (simp add: open_lock_step_def vinv_def pc_ok_idle)
  qed
qed

lemma lock_steps_inv:
  assumes "vinv d0 p job s" and "vs_pc s i = AtLock l"
  shows "job i = ReadVault \<Longrightarrow> vinv d0 p job (lock_shared_step i l s)"
    and "job i = WriteVault x bs \<Longrightarrow> vinv d0 p job (lock_exclusive_step i l s)"
proof -
  have o: "job i = ReadVault \<Longrightarrow> pc_ok p (job i) d (RdOpen l)"
    "job i = WriteVault x bs \<Longrightarrow> pc_ok p (job i) d (WrCreate l)" for d
    by (simp_all add: pc_ok_def)
  show "vinv d0 p job (lock_shared_step i l s)" if "job i = ReadVault"
    using lock_inv_shared [OF vinvD(2) [OF assms(1)] assms(2)] vinvD(1,3,4) [OF assms(1)] o(1) [OF that]
    by (simp add: vinv_def lock_shared_step_def)
  show "vinv d0 p job (lock_exclusive_step i l s)" if "job i = WriteVault x bs"
    using lock_inv_exclusive [OF vinvD(2) [OF assms(1)] assms(2)] vinvD(1,3,4) [OF assms(1)] o(2) [OF that]
    by (simp add: vinv_def lock_exclusive_step_def)
qed

lemma read_step_inv:
  assumes "vinv d0 p job s" and "job i = ReadVault"
  shows "vinv d0 p job (read_step p i n s)"
proof -
  note ok = vinvD(3) [OF assms(1), of i]
  have piece: "\<exists>rest. data = (buf @ take (Suc n) (drop (length buf) data)) @ rest"
    if "data = buf @ r" for data buf r :: bytes
    using that by (intro exI [of _ "drop (Suc n) r"]) simp
  show ?thesis
    using assms ok piece
    by (cases "vs_pc s i")
      (auto simp: read_step_def open_read_def Let_def pc_ok_def intro!: vinv_stay vinv_finish split: option.splits)
qed

lemma disk_entries:
  "dk_entry (append_data t bs d) = dk_entry d" "dk_entry (sync_data t d) = dk_entry d"
  "dk_entry (sync_entries dir d) = dk_entry d"
  by (simp_all add: append_data_def sync_data_def sync_entries_def)

lemma rename_entries: "rename_entry q r d = Inr (d', u) \<Longrightarrow> x \<noteq> q \<Longrightarrow> x \<noteq> r \<Longrightarrow> dk_entry d' x = dk_entry d x"
  by (auto simp: rename_entry_def set_entry_def split: option.splits)

lemma unlink_entries: "unlink_entry q d = Inr (d', u) \<Longrightarrow> x \<noteq> q \<Longrightarrow> dk_entry d' x = dk_entry d x"
  by (auto simp: unlink_entry_def set_entry_def split: if_splits)

text \<open>A failed writer goes to its clean-up.\<close>
lemma to_cleanup:
  assumes "vinv d0 p job s" and "writing (vs_pc s i)" and "lock_fd (vs_pc s i) = Some l" and "job i = WriteVault x bs"
  shows "vinv d0 p job (goto i (WrCleanup l e) s)"
  using assms(2-4) by (intro vinv_stay [OF assms(1)]) (auto simp: pc_ok_def, cases "vs_pc s i", auto)

lemma write_piece:
  assumes "vinv d0 p job s" and "vault_path p" and "job i = WriteVault x bs" and "vs_pc s i = WrData l t k"
    and "d = append_data t piece (vs_disk s)"
  shows "disk_ok d" "versions d0 p job d" "held_at d t (vtemp p x) (take k bs @ piece)"
    "dk_entry d = dk_entry (vs_disk s)"
proof -
  have "held_at (vs_disk s) t (vtemp p x) (take k bs)"
    using vinvD(3) [OF assms(1), of i] assms(3,4) by (simp add: pc_ok_def)
  note a = append_data_ok [OF vinvD(1) [OF assms(1)] this, of piece, folded assms(5)]
  show "disk_ok d" "held_at d t (vtemp p x) (take k bs @ piece)" using a by simp_all
  show "versions d0 p job d"
    using agree_at [OF a(2) _ vinvD(4) [OF assms(1)]] vault_paths_differ [OF assms(2)]
    by (auto simp: assms(5) lasting_def append_data_def)
  show "dk_entry d = dk_entry (vs_disk s)" by (simp add: assms(5) disk_entries)
qed

lemma write_create_inv:
  assumes "vinv d0 p job s" and "vault_path p" and "job i = WriteVault x bs" and "vs_pc s i = WrCreate l"
  shows "vinv d0 p job (write_step p x bs i n s)"
proof (cases "open_create_new (vtemp p x) (vs_disk s)")
  case (Inl e)
  then show ?thesis using assms(3,4) by (simp add: write_step_def to_cleanup [OF assms(1)])
next
  case (Inr r)
  then obtain d t where r: "r = (d, t)" "new_file (vtemp p x) (vs_disk s) = (d, t)"
    "missing (vs_disk s) (butlast (vtemp p x)) = []"
    by (cases r) (auto simp: open_create_new_def split: if_splits)
  note ok = new_file_ok [OF vinvD(1) [OF assms(1)] r(2,3)]
  have "vinv d0 p job (goto i (WrData l t 0) (s\<lparr>vs_disk := d\<rparr>))"
    using vault_paths_differ [OF assms(2)] new_file_keeps(1) [OF vinvD(1) [OF assms(1)] r(2)] ok assms(3,4)
      agree_at [OF ok(3) _ vinvD(4) [OF assms(1)] lasting_cong [OF ok(2)]]
    by (intro vinv_write [OF assms(1)]) (auto simp: pc_ok_def)
  with Inr r(1) assms(4) show ?thesis by (simp add: write_step_def)
qed

lemma write_data_inv:
  assumes "vinv d0 p job s" and "vault_path p" and "job i = WriteVault x bs" and "vs_pc s i = WrData l t k"
  shows "vinv d0 p job (write_step p x bs i n s)"
proof (cases "length bs \<le> k")
  case True
  then have "vinv d0 p job (goto i (WrSync l t) s)"
    using vinvD(3) [OF assms(1), of i] assms(3,4) by (intro vinv_stay [OF assms(1)]) (auto simp: pc_ok_def)
  with True assms(4) show ?thesis by (simp add: write_step_def)
next
  case False
  define piece where "piece = take (Suc n) (drop k bs)"
  have m: "take k bs @ piece = take (k + length piece) bs" "k + length piece \<le> length bs"
    using False by (auto simp: piece_def take_add min_def)
  note w = write_piece [OF assms refl, of piece]
  have "vinv d0 p job (goto i (WrData l t (k + length piece)) (s\<lparr>vs_disk := append_data t piece (vs_disk s)\<rparr>))"
    using assms(3,4) w m by (intro vinv_write [OF assms(1)]) (auto simp: pc_ok_def)
  with False assms(4) show ?thesis by (simp add: write_step_def piece_def Let_def)
qed

lemma write_sync_inv:
  assumes "vinv d0 p job s" and "vault_path p" and "job i = WriteVault x bs" and "vs_pc s i = WrSync l t"
  shows "vinv d0 p job (write_step p x bs i n s)"
proof -
  have "held_at (vs_disk s) t (vtemp p x) bs"
    using vinvD(3) [OF assms(1), of i] assms(3,4) by (simp add: pc_ok_def)
  note ok = sync_data_ok [OF vinvD(1) [OF assms(1)] this]
  have "vinv d0 p job (goto i (WrRename l) (s\<lparr>vs_disk := sync_data t (vs_disk s)\<rparr>))"
    using assms(3,4) ok agree_at [OF ok(2) _ vinvD(4) [OF assms(1)]] vault_paths_differ [OF assms(2)]
    by (intro vinv_write [OF assms(1)]) (auto simp: pc_ok_def disk_entries lasting_def sync_data_def)
  with assms(4) show ?thesis by (simp add: write_step_def)
qed

lemma write_rename_inv:
  assumes "vinv d0 p job s" and "vault_path p" and "job i = WriteVault x bs" and "vs_pc s i = WrRename l"
  shows "vinv d0 p job (write_step p x bs i n s)"
proof (cases "rename_entry (vtemp p x) p (vs_disk s)")
  case (Inl e)
  then show ?thesis using assms(3,4) by (simp add: write_step_def to_cleanup [OF assms(1)])
next
  case (Inr r)
  obtain d u where r: "r = (d, u)" by (cases r)
  obtain t where t: "held_at (vs_disk s) t (vtemp p x) bs" "dk_synced (vs_disk s) t"
    using vinvD(3) [OF assms(1), of i] assms(3,4) by (auto simp: pc_ok_def)
  note ne = vault_paths_differ [OF assms(2)]
  note ok = rename_entry_ok [OF vinvD(1) [OF assms(1)] t ne(2) Inr [unfolded r]]
  have f: "file_at d p = Some bs" using ok(3) by (auto simp: settled_at_def file_at_def)
  have w: "Some bs \<in> {Some bs |bs. \<exists>i x. job i = WriteVault x bs}" using assms(3) by blast
  have v: "versions d0 p job d"
    using f w ok(5) vinvD(4) [OF assms(1)] lasting_cong [OF ok(6), of "vdir p"] unfolding versions_def by blast
  have l: "dk_entry d (vlock p) = dk_entry (vs_disk s) (vlock p)"
    using rename_entries [OF Inr [unfolded r]] ne(1,3) by metis
  have "vinv d0 p job (goto i (WrDirOpen l) (s\<lparr>vs_disk := d\<rparr>))"
    using v l ok(1,3) assms(3,4) by (intro vinv_write [OF assms(1)]) (auto simp: pc_ok_def)
  moreover have "vinv d0 p job (finish i (WriteDone (Inr ())) (s\<lparr>vs_disk := d\<rparr>))"
    using v l ok(1) assms(4) by (intro vinv_write_finish [OF assms(1)]) auto
  ultimately show ?thesis using Inr r assms(4) by (simp add: write_step_def)
qed

lemma write_dir_inv:
  assumes "vinv d0 p job s" and "vault_path p" and "job i = WriteVault x bs"
    and "vs_pc s i = WrDirOpen l \<or> vs_pc s i = WrDirSync l"
  shows "vinv d0 p job (write_step p x bs i n s)"
  using assms(4)
proof
  assume c: "vs_pc s i = WrDirOpen l"
  have "vinv d0 p job (goto i (WrDirSync l) s)"
    using vinvD(3) [OF assms(1), of i] c assms(3) by (intro vinv_stay [OF assms(1)]) (auto simp: pc_ok_def)
  then show ?thesis using c assms(3) by (simp add: write_step_def to_cleanup [OF assms(1)])
next
  assume c: "vs_pc s i = WrDirSync l"
  note ok = sync_entries_ok [OF vinvD(1) [OF assms(1)], of "vdir p"]
  have "vinv d0 p job (finish i (WriteDone (Inr ())) (s\<lparr>vs_disk := sync_entries (vdir p) (vs_disk s)\<rparr>))"
    using c ok(1) agree_at [OF ok(2) _ vinvD(4) [OF assms(1)] lasting_sync_entries]
    by (intro vinv_write_finish [OF assms(1)]) (auto simp: disk_entries)
  with c show ?thesis by (simp add: write_step_def)
qed

lemma write_cleanup_inv:
  assumes "vinv d0 p job s" and "vault_path p" and "vs_pc s i = WrCleanup l e"
  shows "vinv d0 p job (write_step p x bs i n s)"
proof (cases "unlink_entry (vtemp p x) (vs_disk s)")
  case (Inl c)
  then show ?thesis using assms(3) by (simp add: write_step_def vinv_finish [OF assms(1)])
next
  case (Inr r)
  obtain d u where r: "r = (d, u)" by (cases r)
  note ne = vault_paths_differ [OF assms(2)]
  note ok = unlink_entry_ok [OF vinvD(1) [OF assms(1)] Inr [unfolded r]]
  have "dk_entry d (vlock p) = dk_entry (vs_disk s) (vlock p)"
    using unlink_entries [OF Inr [unfolded r]] ne(3) by metis
  then have "vinv d0 p job (finish i (WriteDone (Inl e)) (s\<lparr>vs_disk := d\<rparr>))"
    using assms(3) ok agree_at [of "{vtemp p x}" "vs_disk s" d p, OF _ _ vinvD(4) [OF assms(1)] lasting_cong] ne(2,6)
    by (intro vinv_write_finish [OF assms(1)]) auto
  with Inr r assms(3) show ?thesis by (simp add: write_step_def)
qed

lemma write_step_inv:
  assumes "vinv d0 p job s" and "vault_path p" and "job i = WriteVault x bs"
  shows "vinv d0 p job (write_step p x bs i n s)"
proof (cases "vs_pc s i")
  case (WrData l t k)
  with assms show ?thesis by (rule write_data_inv)
next
  case (WrSync l t)
  with assms show ?thesis by (rule write_sync_inv)
qed (use assms in \<open>auto simp: write_create_inv write_rename_inv write_dir_inv write_cleanup_inv,
      auto simp: write_step_def\<close>)

lemma go_inv:
  assumes "vinv d0 p job s" and "vault_path p"
  shows "vinv d0 p job (go p job i n s)"
proof (cases "vs_pc s i = AtMkdir \<or> vs_pc s i = AtOpenLock \<or> (\<exists>l. vs_pc s i = AtLock l)")
  case True
  then show ?thesis
    using mkdir_inv [OF assms(1), of i] lock_steps_inv [OF assms(1), of i] open_lock_inv [OF assms(1) _ assms(2), of i]
    by (cases "job i") (auto simp: go_def)
next
  case False
  then have "go p job i n s =
      (case job i of ReadVault \<Rightarrow> read_step p i n s | WriteVault x bs \<Rightarrow> write_step p x bs i n s)"
    by (cases "vs_pc s i") (auto simp: go_def split: vjob.splits)
  then show ?thesis
    using read_step_inv [OF assms(1)] write_step_inv [OF assms] by (cases "job i") auto
qed

lemma fault_write_inv:
  assumes "vinv d0 p job s" and "vault_path p" and "vs_pc s i = WrData l t k"
  shows "vinv d0 p job (fault job i e n s)"
proof (cases "job i")
  case ReadVault
  then show ?thesis using assms by (simp add: fault_def)
next
  case (WriteVault x bs)
  note w = write_piece [OF assms(1,2) WriteVault assms(3) refl, of "take n (drop k bs)"]
  have "vinv d0 p job (goto i (WrCleanup l (Io e)) (s\<lparr>vs_disk := append_data t (take n (drop k bs)) (vs_disk s)\<rparr>))"
    using assms(3) w WriteVault by (intro vinv_write [OF assms(1)]) (auto simp: pc_ok_def)
  then show ?thesis using assms(3) WriteVault by (simp add: fault_def)
qed

lemma fault_inv:
  assumes "vinv d0 p job s" and "vault_path p"
  shows "vinv d0 p job (fault job i e n s)"
proof -
  have w: "vinv d0 p job (goto i (WrCleanup l r) s)" if "writing (vs_pc s i)" "lock_fd (vs_pc s i) = Some l" for l r
  proof (cases "job i")
    case ReadVault
    then show ?thesis using vinvD(3) [OF assms(1), of i] that(1) by (simp add: pc_ok_def)
  next
    case (WriteVault x bs)
    then show ?thesis by (rule to_cleanup [OF assms(1) that])
  qed
  show ?thesis
    using w assms(1) fault_write_inv [OF assms]
    by (cases "vs_pc s i") (auto simp: fault_def failed_with_ended intro!: vinv_finish)
qed

lemma kill_inv: "vinv d0 p job s \<Longrightarrow> vinv d0 p job (kill i s)"
  by (auto simp: kill_def intro!: vinv_finish)

interpretation shared_vault: step_invariant "vexec p job" "\<lambda>s e. vault_path p" "vinv d0 p job"
  for p job d0
proof unfold_locales
  show "vinv d0 p job (vexec p job s e)" if "vinv d0 p job s" "vault_path p" for s e
    using that by (cases e) (auto simp: go_inv fault_inv kill_inv)
qed

abbreviation run_vault :: "path \<Rightarrow> (nat \<Rightarrow> vjob) \<Rightarrow> vsys \<Rightarrow> sched list \<Rightarrow> vsys" where
  "run_vault p job \<equiv> run (vexec p job)"

lemma vinv_run:
  assumes "vault_path p" and "disk_ok d"
  shows "vinv d p job (run_vault p job (vstart unix d job) es)"
  using assms by (intro shared_vault.run_inv_all vinv_start)

section \<open>What a step does\<close>

fun sched_proc :: "sched \<Rightarrow> nat" where
  "sched_proc (Go i n) = i" | "sched_proc (Fault i e n) = i" | "sched_proc (Kill i) = i"

lemmas vexec_defs = go_def fault_def kill_def mkdir_step_def read_step_def write_step_def open_lock_step_def open_read_def
  lock_shared_step_def lock_exclusive_step_def Let_def

lemma release_sel [simp]: "vs_pc (release i s) = vs_pc s" "vs_disk (release i s) = vs_disk s"
  by (simp_all add: release_def)

lemma write_step_pc: "k \<noteq> i \<Longrightarrow> vs_pc (write_step p x bs i n s) k = vs_pc s k"
  by (auto simp: write_step_def Let_def split: vpc.splits sum.splits)

lemma read_step_pc: "k \<noteq> i \<Longrightarrow> vs_pc (read_step p i n s) k = vs_pc s k"
  by (auto simp: read_step_def Let_def split: vpc.splits option.splits sum.splits)

lemma early_step_pc:
  "k \<noteq> i \<Longrightarrow> vs_pc (mkdir_step p job i n s) k = vs_pc s k"
  "k \<noteq> i \<Longrightarrow> vs_pc (open_lock_step p job i s) k = vs_pc s k"
  "k \<noteq> i \<Longrightarrow> vs_pc (lock_shared_step i l s) k = vs_pc s k"
  "k \<noteq> i \<Longrightarrow> vs_pc (lock_exclusive_step i l s) k = vs_pc s k"
  by (auto simp: mkdir_step_def open_lock_step_def lock_shared_step_def lock_exclusive_step_def split: sum.splits)

lemma vexec_pc: "k \<noteq> sched_proc e \<Longrightarrow> vs_pc (vexec p job s e) k = vs_pc s k"
  by (cases e)
    (auto simp: go_def fault_def kill_def write_step_pc read_step_pc early_step_pc split: vpc.splits vjob.splits)

lemma vexec_unix: "vs_unix (vexec p job s e) = vs_unix s"
  by (cases e)
    (auto simp: vexec_defs release_def finish_def split: vpc.splits vjob.splits sum.splits option.splits)

lemma run_unix: "vs_unix (run_vault p job (vstart unix d job) es) = unix"
proof -
  have "vs_unix (run_vault p job s es) = vs_unix s" for s
    by (induction es arbitrary: s) (simp_all add: vexec_unix)
  then show ?thesis by (simp add: vstart_def)
qed

text \<open>A read that returns has read what the vault contains now.\<close>

lemma read_returns:
  assumes "vinv d0 p job s" and "vs_pc s i \<noteq> ReadDone (Inr c)" and "vs_pc (vexec p job s e) i = ReadDone (Inr c)"
  shows "reading (vs_pc s i) \<and> file_at (vs_disk s) p = Some c"
proof -
  have i: "sched_proc e = i" using assms(2,3) vexec_pc by metis
  obtain l f where f: "job i = ReadVault" "vs_pc s i = RdData l f c" "drop (length c) (dk_data (vs_disk s) f) = []"
    using assms(2,3) i failed_with.simps
    by (cases e; cases "job i"; cases "vs_pc s i")
      (auto simp: vexec_defs split: if_splits sum.splits option.splits)
  then have "dk_entry (vs_disk s) p = Some f" "dk_data (vs_disk s) f = c"
    using vinvD(3) [OF assms(1), of i] by (auto simp: pc_ok_def)
  with f show ?thesis by (simp add: file_at_def)
qed

text \<open>Outside the critical section a process can only create the lock file.\<close>

lemma outside_keeps:
  assumes "disk_ok (vs_disk s)" and "vault_path p" and "\<not> writing (vs_pc s (sched_proc e))"
    and "\<And>i. pc_ok p (job i) (vs_disk s) (vs_pc s i)"
  shows "file_at (vs_disk (vexec p job s e)) p = file_at (vs_disk s) p"
proof -
  have "file_at (vs_disk (open_lock_step p job i s)) p = file_at (vs_disk s) p" for i
  proof (cases "open_create (vlock p) (vs_disk s)")
    case (Inr r)
    obtain d l where r: "r = (d, l)" by (cases r)
    then consider "d = vs_disk s" | "new_file (vlock p) (vs_disk s) = (d, l)" "missing (vs_disk s) (butlast (vlock p)) = []"
      using Inr by (auto simp: open_create_def split: option.splits if_splits)
    then have "file_at d p = file_at (vs_disk s) p"
    proof cases
      case 2
      from agree_offD [OF new_file_ok(3) [OF assms(1) this], of p] vault_paths_differ [OF assms(2)]
      show ?thesis by simp
    qed simp
    with Inr r show ?thesis by (simp add: open_lock_step_def)
  qed (simp add: open_lock_step_def)
  moreover have "file_at (vs_disk (mkdir_step p job i n s)) p = file_at (vs_disk s) p" for i n
    using make_dirs_ok(4,6) [OF assms(1), of "Suc n" "vdir p"]
    by (auto simp: mkdir_step_def file_at_def split: sum.splits)
  moreover have "vs_disk (read_step p i n s) = vs_disk s" for i n
    by (auto simp: read_step_def Let_def split: vpc.splits option.splits sum.splits)
  moreover have "vs_disk (lock_shared_step i l s) = vs_disk s" "vs_disk (lock_exclusive_step i l s) = vs_disk s" for i l
    by (simp_all add: lock_shared_step_def lock_exclusive_step_def)
  moreover have "vs_disk (write_step p x bs i n s) = vs_disk s" if "\<not> writing (vs_pc s i)" for x bs i n
    using that by (cases "vs_pc s i") (simp_all add: write_step_def)
  moreover have "vs_disk (fault job i er n s) = vs_disk s" if "\<not> writing (vs_pc s i)" for i er n
    using that by (cases "vs_pc s i") (simp_all add: fault_def)
  ultimately show ?thesis
    using assms(3) by (cases e) (auto simp: go_def kill_def split: vpc.splits vjob.splits)
qed

text \<open>One writer at a time: with the others idle, the run is one in which all the others are readers.\<close>

lemma vault_changed:
  assumes "vinv d0 p job s" and "vault_path p" and "file_at (vs_disk (vexec p job s e)) p \<noteq> file_at (vs_disk s) p"
    and "j = sched_proc e"
  shows "writing (vs_pc s j) \<and> (\<forall>k. k \<noteq> j \<longrightarrow> \<not> reading (vs_pc s k) \<and> \<not> writing (vs_pc s k)) \<and>
    (\<exists>x bs. job j = WriteVault x bs \<and> file_at (vs_disk (vexec p job s e)) p = Some bs)"
proof -
  have w: "writing (vs_pc s j)"
    using outside_keeps [OF vinvD(1) [OF assms(1)] assms(2), of e job] vinvD(3) [OF assms(1)] assms(3,4) by blast
  have o: "\<not> reading (vs_pc s k) \<and> \<not> writing (vs_pc s k)" if "k \<noteq> j" for k
    using one_writer [OF vinvD(2) [OF assms(1)] w, of k] that by blast
  let ?job = "\<lambda>k. if k = j then job j else ReadVault"
  have "pc_ok p (?job k) (vs_disk s) (vs_pc s k)" for k
    using vinvD(3) [OF assms(1), of j] pc_ok_idle o by (cases "k = j") auto
  moreover have "versions (vs_disk s) p ?job (vs_disk s)" by (simp add: versions_def)
  ultimately have "vinv (vs_disk s) p ?job s" using vinvD(1,2) [OF assms(1)] by (simp add: vinv_def)
  from shared_vault.step [OF this assms(2)]
  have "file_at (vs_disk (vexec p ?job s e)) p \<in>
      insert (file_at (vs_disk s) p) {Some bs |bs. \<exists>i x. ?job i = WriteVault x bs}"
    by (simp add: vinv_def versions_def)
  moreover have "vexec p ?job s e = vexec p job s e"
    using assms(4)
    by (cases e) (auto simp: go_def fault_def mkdir_step_def open_lock_step_def split: vpc.splits vjob.splits sum.splits)
  ultimately show ?thesis using w o assms(3) by (auto split: if_splits)
qed

text \<open>A save that reports success has put its bytes in place and, on Unix, on the medium.\<close>

lemma write_returns:
  assumes "vinv d0 p job s" and "vault_path p" and "vs_pc s i \<noteq> WriteDone (Inr ())"
    and "vs_pc (vexec p job s e) i = WriteDone (Inr ())"
  shows "\<exists>x bs. job i = WriteVault x bs \<and> file_at (vs_disk (vexec p job s e)) p = Some bs \<and>
    (vs_unix s \<longrightarrow> crash_at (vs_disk (vexec p job s e)) p = insert (Some bs) (if lasting d0 (vdir p) then {} else {None}))"
proof -
  have i: "sched_proc e = i" using assms(3,4) vexec_pc by metis
  have l: "lasting (vs_disk s) (vdir p) = lasting d0 (vdir p)" using vinvD(4) [OF assms(1)] by (simp add: versions_def)
  consider (sync) l n x bs where "e = Go i n" "vs_pc s i = WrDirSync l" "job i = WriteVault x bs"
    | (rename) l n x bs d u where "e = Go i n" "vs_pc s i = WrRename l" "job i = WriteVault x bs" "\<not> vs_unix s"
        "rename_entry (vtemp p x) p (vs_disk s) = Inr (d, u)"
    using assms(3,4) i
    by (cases e; cases "job i"; cases "vs_pc s i")
      (auto simp: vexec_defs split: if_splits sum.splits option.splits)
  then show ?thesis
  proof cases
    case sync
    then have "settled_at (vs_disk s) p bs" using vinvD(3) [OF assms(1), of i] by (simp add: pc_ok_def)
    with sync l vault_paths_differ(4) [OF assms(2)] sync_entries_ok(3) [OF vinvD(1) [OF assms(1)], of "vdir p"]
      sync_entries_ok(4) [OF vinvD(1) [OF assms(1)], of p bs "vdir p"]
    show ?thesis by (auto simp: go_def write_step_def file_at_def settled_at_def)
  next
    case rename
    obtain t where t: "held_at (vs_disk s) t (vtemp p x) bs" "dk_synced (vs_disk s) t"
      using vinvD(3) [OF assms(1), of i] rename(2,3) by (auto simp: pc_ok_def)
    from rename_entry_ok(3) [OF vinvD(1) [OF assms(1)] t vault_paths_differ(2) [OF assms(2)] rename(5)] rename
    show ?thesis by (auto simp: go_def write_step_def settled_at_def file_at_def)
  qed
qed

section \<open>Nobody waits for ever\<close>

definition rank :: "path \<Rightarrow> (nat \<Rightarrow> vjob) \<Rightarrow> vsys \<Rightarrow> nat \<Rightarrow> nat" where
  "rank p job s i =
    (case vs_pc s i of
       AtMkdir \<Rightarrow> 11 + length (missing (vs_disk s) (vdir p)) | AtOpenLock \<Rightarrow> 10 | AtLock l \<Rightarrow> 9
     | RdOpen l \<Rightarrow> 4 | RdSeek l f \<Rightarrow> 3
     | RdData l f buf \<Rightarrow> if drop (length buf) (dk_data (vs_disk s) f) = [] then 1 else 2
     | WrCreate l \<Rightarrow> 8
     | WrData l t k \<Rightarrow> (case job i of WriteVault x bs \<Rightarrow> if length bs \<le> k then 6 else 7 | ReadVault \<Rightarrow> 6)
     | WrSync l t \<Rightarrow> 5 | WrRename l \<Rightarrow> 4 | WrDirOpen l \<Rightarrow> 3 | WrDirSync l \<Rightarrow> 2 | WrCleanup l e \<Rightarrow> 1
     | _ \<Rightarrow> 0)"

text \<open>A process that is not waiting for the lock comes closer to its end with every large enough step.\<close>

lemma mkdir_advances:
  assumes "disk_ok (vs_disk s)" and "vs_pc s i = AtMkdir"
  shows "vs_pc (go p job (i) (length (vdir p)) s) i = AtOpenLock \<or> ended (vs_pc (go p job i (length (vdir p)) s) i)"
proof (cases "make_dirs (Suc (length (vdir p))) (vdir p) (vs_disk s)")
  case (Inr r)
  obtain d u where r: "r = (d, u)" by (cases r)
  have "length (missing (vs_disk s) (vdir p)) \<le> Suc (length (vdir p))"
    unfolding missing_def by (rule order_trans [OF length_filter_le]) (simp add: ancestors_def)
  then have "missing d (vdir p) = []" using make_dirs_ok(9) [OF assms(1) Inr [unfolded r]] by simp
  then show ?thesis using assms(2) Inr r by (simp add: go_def mkdir_step_def)
qed (use assms(2) in \<open>simp add: go_def mkdir_step_def failed_with_ended\<close>)

lemma open_lock_advances:
  assumes "vs_pc s i = AtOpenLock"
  shows "(\<exists>l. vs_pc (go p job i n s) i = AtLock l) \<or> ended (vs_pc (go p job i n s) i)"
  using assms by (auto simp: go_def open_lock_step_def failed_with_ended split: sum.splits)

lemma go_advances:
  assumes "pc_ok p (job i) (vs_disk s) (vs_pc s i)" and "reading (vs_pc s i) \<or> writing (vs_pc s i)"
  shows "\<exists>n. rank p job (go p job i n s) i < rank p job s i"
proof (cases "vs_pc s i")
  case (RdData l f buf)
  have "job i = ReadVault" using assms(1) RdData by (auto simp: pc_ok_def split: vjob.splits)
  then have "rank p job (go p job i (length (dk_data (vs_disk s) f)) s) i < rank p job s i"
    using RdData by (simp add: rank_def go_def read_step_def Let_def)
  then show ?thesis ..
next
  case (WrData l t k)
  obtain x bs where j: "job i = WriteVault x bs"
    using assms(1) WrData by (auto simp: pc_ok_def split: vjob.splits)
  have "rank p job (go p job i (length bs) s) i < rank p job s i"
    using WrData j by (simp add: rank_def go_def write_step_def Let_def)
  then show ?thesis ..
qed (use assms in \<open>auto simp: rank_def go_def read_step_def open_read_def write_step_def pc_ok_def
      Let_def split: vjob.splits option.splits sum.splits prod.splits\<close>)

abbreviation critical :: "vpc \<Rightarrow> bool" where "critical c \<equiv> reading c \<or> writing c"

lemma critical_go:
  assumes "pc_ok p (job i) (vs_disk s) (vs_pc s i)" and "critical (vs_pc s i)"
  shows "critical (vs_pc (go p job i n s) i) \<or> ended (vs_pc (go p job i n s) i)"
  using assms by (cases "vs_pc s i")
    (auto simp: go_def read_step_def write_step_def pc_ok_def Let_def split: vjob.splits option.splits sum.splits)

lemma run_pc: "k \<notin> sched_proc ` set es \<Longrightarrow> vs_pc (run_vault p job s es) k = vs_pc s k"
  by (induction es arbitrary: s) (auto simp: vexec_pc)

lemma vinv_runs: "vinv d0 p job s \<Longrightarrow> vault_path p \<Longrightarrow> vinv d0 p job (run_vault p job s es)"
  by (rule shared_vault.run_inv_all)

text \<open>Schedules in which only processes of a set move, no call fails and nobody is killed.\<close>

definition gos :: "nat set \<Rightarrow> sched list \<Rightarrow> bool" where
  "gos C es \<longleftrightarrow> (\<forall>e\<in>set es. \<exists>j n. e = Go j n \<and> j \<in> C)"

lemma gos_simps [simp]:
  "gos C []" "gos C (Go j n # es) \<longleftrightarrow> j \<in> C \<and> gos C es" "gos C (es @ fs) \<longleftrightarrow> gos C es \<and> gos C fs"
  by (auto simp: gos_def)

lemma gos_mono: "gos C es \<Longrightarrow> C \<subseteq> D \<Longrightarrow> gos D es"
  by (fastforce simp: gos_def)

lemma gos_pc: "gos C es \<Longrightarrow> k \<notin> C \<Longrightarrow> vs_pc (run_vault p job s es) k = vs_pc s k"
  by (rule run_pc) (auto simp: gos_def)

lemma go_killed: "vs_pc (go p job i n s) k = Killed \<longleftrightarrow> vs_pc s k = Killed"
proof (cases "k = i")
  case True
  have "failed_with j e \<noteq> Killed" for j e by (cases j) simp_all
  with True show ?thesis
    by (cases "vs_pc s i"; cases "job i")
      (auto simp: vexec_defs split: sum.splits option.splits)
qed (use vexec_pc [of k "Go i n" p job s] in simp)

lemma gos_killed: "gos C es \<Longrightarrow> vs_pc (run_vault p job s es) k = Killed \<longleftrightarrow> vs_pc s k = Killed"
proof (induction es arbitrary: s)
  case (Cons e es)
  then obtain j n where e: "e = Go j n" "gos C es" by (auto simp: gos_def)
  then show ?case using Cons.IH by (simp add: go_killed)
qed simp

text \<open>The steps of one process that take it out of the critical section.\<close>

lemma critical_ends:
  assumes "vinv d0 p job s" and "vault_path p" and "critical (vs_pc s i)"
  shows "\<exists>es. gos {i} es \<and> ended (vs_pc (run_vault p job s es) i)"
  using assms
proof (induction "rank p job s i" arbitrary: s rule: less_induct)
  case less
  with go_advances [where job = job and i = i, OF vinvD(3) [OF less.prems(1), of i]] obtain n
    where n: "rank p job (go p job i n s) i < rank p job s i" by blast
  have v: "vinv d0 p job (go p job i n s)" by (rule go_inv [OF less.prems(1,2)])
  from critical_go [where job = job and i = i, OF vinvD(3) [OF less.prems(1), of i] less.prems(3), of n] show ?case
  proof
    assume "critical (vs_pc (go p job i n s) i)"
    from less.hyps [OF n v less.prems(2) this] obtain es where
      "gos {i} es" "ended (vs_pc (run_vault p job (go p job i n s) es) i)" by blast
    then show ?thesis by (intro exI [of _ "Go i n # es"]) simp
  next
    assume "ended (vs_pc (go p job i n s) i)"
    then show ?thesis by (intro exI [of _ "[Go i n]"]) simp
  qed
qed

lemma all_leave:
  assumes "finite C" and "vinv d0 p job s" and "vault_path p" and "C = {k. critical (vs_pc s k)}"
  shows "\<exists>es. gos C es \<and> (\<forall>k. \<not> critical (vs_pc (run_vault p job s es) k))"
  using assms
proof (induction C arbitrary: s rule: finite_psubset_induct)
  case (psubset C)
  show ?case
  proof (cases "C = {}")
    case True
    with psubset.prems(3) show ?thesis by (intro exI [of _ "[]"]) auto
  next
    case False
    then obtain j where j: "j \<in> C" by blast
    then obtain es where es: "gos {j} es" "ended (vs_pc (run_vault p job s es) j)"
      using critical_ends [OF psubset.prems(1,2), of j] psubset.prems(3) by blast
    let ?s = "run_vault p job s es"
    have "vs_pc ?s k = vs_pc s k" if "k \<noteq> j" for k using gos_pc [OF es(1)] that by simp
    moreover have "\<not> critical (vs_pc ?s j)" using es(2) by (cases "vs_pc ?s j") auto
    ultimately have c: "{k. critical (vs_pc ?s k)} = C - {j}" using psubset.prems(3) by force
    have "{k. critical (vs_pc ?s k)} \<subset> C" using c j by blast
    from psubset.IH [OF this vinv_runs [OF psubset.prems(1,2)] psubset.prems(2) refl] obtain fs where
      "gos {k. critical (vs_pc ?s k)} fs" "\<forall>k. \<not> critical (vs_pc (run_vault p job ?s fs) k)" by blast
    with es(1) c j show ?thesis
      by (intro exI [of _ "es @ fs"]) (auto simp: run_append elim: gos_mono)
  qed
qed

text \<open>
  From each place before the critical section: whoever is inside leaves, then the process runs to
  its end.
\<close>

definition can_end :: "path \<Rightarrow> (nat \<Rightarrow> vjob) \<Rightarrow> nat set \<Rightarrow> nat \<Rightarrow> vsys \<Rightarrow> bool" where
  "can_end p job C i s \<longleftrightarrow> (\<exists>es. gos (insert i C) es \<and> ended (vs_pc (run_vault p job s es) i))"

lemma can_end_step: "can_end p job C i (go p job i n s) \<Longrightarrow> can_end p job C i s"
  unfolding can_end_def
proof (elim exE conjE)
  fix es assume "gos (insert i C) es" "ended (vs_pc (run_vault p job (go p job i n s) es) i)"
  then show "\<exists>es. gos (insert i C) es \<and> ended (vs_pc (run_vault p job s es) i)"
    by (intro exI [of _ "Go i n # es"]) simp
qed

lemma can_end_now: "ended (vs_pc s i) \<Longrightarrow> can_end p job C i s"
  unfolding can_end_def by (intro exI [of _ "[]"]) simp

lemma waiting_ends:
  assumes "vinv d0 p job s" and "vault_path p" and "finite C" and "C = {k. critical (vs_pc s k)}" and "vs_pc s i = AtLock l"
  shows "can_end p job C i s"
proof -
  obtain es where es: "gos C es" "\<forall>k. \<not> critical (vs_pc (run_vault p job s es) k)"
    using all_leave [OF assms(3,1,2,4)] by blast
  let ?s = "run_vault p job s es"
  have v: "vinv d0 p job ?s" by (rule vinv_runs [OF assms(1,2)])
  have "i \<notin> C" using assms(4,5) by simp
  then have i: "vs_pc ?s i = AtLock l" using gos_pc [OF es(1)] assms(5) by simp
  have "vs_excl ?s l = None" "vs_shared ?s l = {}"
    using lock_invD(2,3) [OF vinvD(2) [OF v]] es(2) by fastforce+
  then have "critical (vs_pc (go p job i 0 ?s) i)"
    using i by (auto simp: go_def lock_shared_step_def lock_exclusive_step_def split: vjob.splits)
  from critical_ends [OF go_inv [OF v assms(2)] assms(2) this] obtain fs where
    "gos {i} fs" "ended (vs_pc (run_vault p job (go p job i 0 ?s) fs) i)" by blast
  with es(1) show ?thesis
    unfolding can_end_def by (intro exI [of _ "es @ Go i 0 # fs"]) (auto simp: run_append elim: gos_mono)
qed

lemma others_stay_critical:
  "\<not> critical (vs_pc (go p job i n s) i) \<Longrightarrow> \<not> critical (vs_pc s i) \<Longrightarrow>
    {k. critical (vs_pc (go p job i n s) k)} = {k. critical (vs_pc s k)}"
  using vexec_pc [of _ "Go i n" p job s] by (auto, (metis sched_proc.simps(1) vexec.simps(1))+)

lemma opening_ends:
  assumes "vinv d0 p job s" and "vault_path p" and "finite C" and "C = {k. critical (vs_pc s k)}" and "vs_pc s i = AtOpenLock"
  shows "can_end p job C i s"
proof (rule can_end_step [where n = 0])
  from open_lock_advances [OF assms(5), of p job 0] show "can_end p job C i (go p job i 0 s)"
  proof
    assume "\<exists>l. vs_pc (go p job i 0 s) i = AtLock l"
    then obtain l where l: "vs_pc (go p job i 0 s) i = AtLock l" ..
    have "C = {k. critical (vs_pc (go p job i 0 s) k)}"
      using others_stay_critical [of p job i 0 s] l assms(4,5) by simp
    from waiting_ends [OF go_inv [OF assms(1,2)] assms(2,3) this l] show ?thesis .
  qed (rule can_end_now)
qed

lemma every_process_ends:
  assumes "vinv d0 p job s" and "vault_path p" and "finite C" and "C = {k. critical (vs_pc s k)}"
  shows "can_end p job C i s"
proof -
  consider "critical (vs_pc s i)" | "ended (vs_pc s i)" | "vs_pc s i = AtMkdir" | "vs_pc s i = AtOpenLock"
    | l where "vs_pc s i = AtLock l" by (cases "vs_pc s i") auto
  then show ?thesis
  proof cases
    case 1
    from critical_ends [OF assms(1,2) this] show ?thesis unfolding can_end_def by (auto elim: gos_mono)
  next
    case 3
    let ?s = "go p job i (length (vdir p)) s"
    from mkdir_advances [OF vinvD(1) [OF assms(1)] 3, of p job] have "can_end p job C i ?s"
    proof
      assume o: "vs_pc ?s i = AtOpenLock"
      have "C = {k. critical (vs_pc ?s k)}"
        using others_stay_critical [of p job i "length (vdir p)" s] o 3 assms(4) by simp
      from opening_ends [OF go_inv [OF assms(1,2)] assms(2,3) this o] show ?thesis .
    qed (rule can_end_now)
    then show ?thesis by (rule can_end_step)
  qed (use can_end_now opening_ends [OF assms] waiting_ends [OF assms] in auto)
qed

lemma finite_critical: "finite {k. critical (vs_pc (run_vault p job (vstart unix d job) es) k)}"
proof (rule finite_subset)
  have e: "\<not> critical (entry_pc j)" for j by (cases j) auto
  show "{k. critical (vs_pc (run_vault p job (vstart unix d job) es) k)} \<subseteq> sched_proc ` set es"
  proof
    fix k assume k: "k \<in> {k. critical (vs_pc (run_vault p job (vstart unix d job) es) k)}"
    show "k \<in> sched_proc ` set es"
    proof (rule ccontr)
      assume "k \<notin> sched_proc ` set es"
      then have "vs_pc (run_vault p job (vstart unix d job) es) k = entry_pc (job k)"
        using run_pc [of k es p job "vstart unix d job"] by (simp add: vstart_def)
      with k e show False by simp
    qed
  qed
qed simp

section \<open>A process alone\<close>

text \<open>Without others and without faults the calls of a process are those of the sequential definitions.\<close>

lemma append_nothing: "\<not> dk_synced d t \<Longrightarrow> append_data t [] d = d"
  by (cases d) (simp add: append_data_def fun_upd_idem)

lemma new_file_unsynced: "new_file q d = (d', t) \<Longrightarrow> \<not> dk_synced d' t"
  by (auto simp: new_file_def set_entry_def Let_def)

lemma writer_alone:
  assumes "no_faults w" and "disk_ok (wd_disk w)" and "vault_path p" and "wd_unix w \<longrightarrow> vdir p \<noteq> []"
    and "job i = WriteVault x bs" and "unobstructed x (vdir p) (the (file_name p)) (wd_disk w)"
    and "es = [Go i (length (vdir p)), Go i 0, Go i 0, Go i 0] @ (if bs = [] then [] else [Go i (length bs)]) @
      [Go i 0, Go i 0, Go i 0, Go i 0, Go i 0]"
  shows "vs_disk (run_vault p job (vstart (wd_unix w) (wd_disk w) job) es) = wd_disk (fst (write_vault_atomic x p bs w))"
    and "vs_pc (run_vault p job (vstart (wd_unix w) (wd_disk w) job) es) i = WriteDone (snd (write_vault_atomic x p bs w))"
proof -
  obtain base where pp: "parent p = Some (vdir p)" "file_name p = Some base"
    using assms(3) by (auto simp: vault_path_def vdir_def)
  have tp: "temp_path_for x (vdir p) base = vtemp p x" and lp: "lock_path_for p = Inr (vlock p)"
    and b: "butlast p = vdir p" "butlast (vlock p) = vdir p" "butlast (vtemp p x) = vdir p"
    and names: "p = path_join (vdir p) base" "vlock p = path_join (vdir p) (base @ lit ''.lock'')"
      "vtemp p x = path_join (vdir p) (lit ''.'' @ base @ lit ''.tmp.'' @ x)"
    using pp temp_path_other(1) [OF pp]
    by (auto simp: vtemp_def lock_path_for_def vlock_def temp_path_for_def path_join_def parent_def split: if_splits)
  obtain d0 where d0: "make_dirs (length (ancestors (vdir p))) (vdir p) (wd_disk w) = Inr (d0, ())"
    "missing d0 (vdir p) = []" "unobstructed x (vdir p) base d0"
    using make_dirs_unobstructed [OF assms(6,2)] pp(2) by auto
  have n: "\<not> dk_dir d0 p" "\<not> dk_dir d0 (vlock p)" "\<not> dk_dir d0 (vtemp p x)" "dk_entry d0 (vtemp p x) = None"
    using d0(3) names tp unfolding unobstructed_def by auto
  have "\<exists>d l. open_create (vlock p) d0 = Inr (d, l)"
    using n(2) d0(2) b(2) by (auto simp: open_create_def split: option.splits prod.splits)
  then obtain d l where l: "open_create (vlock p) d0 = Inr (d, l)" by blast
  have "dk_dir d = dk_dir d0" "dk_entry d (vtemp p x) = None"
    using l n(4) vault_paths_differ(3) [OF assms(3), of x]
    by (auto simp: open_create_def new_file_def set_entry_def Let_def split: option.splits if_splits)
  moreover obtain d1 t where t: "new_file (vtemp p x) d = (d1, t)" by fastforce
  ultimately have c: "open_create_new (vtemp p x) d = Inr (d1, t)"
    using n(3) d0(2) b(3) missing_cong [of d d0] by (simp add: open_create_new_def)
  have dir: "dk_dir d1 = dk_dir d0"
    using t \<open>dk_dir d = dk_dir d0\<close> by (auto simp: new_file_def set_entry_def Let_def)
  have a: "append_data t [] d1 = d1" by (rule append_nothing [OF new_file_unsynced [OF t]])
  have e: "dk_entry (sync_data t (append_data t bs d1)) (vtemp p x) = Some t" for bs
    using t by (auto simp: disk_entries new_file_def set_entry_def Let_def)
  define d2 where "d2 = set_entry p (Some t) (set_entry (vtemp p x) None (sync_data t (append_data t bs d1)))"
  have m: "missing (sync_data t (append_data t bs d1)) (vdir p) = []" "missing d2 (vdir p) = []"
    "\<not> dk_dir (sync_data t (append_data t bs d1)) p"
    using dir d0(2) n(1) missing_cong [of d1 d0 "vdir p"] by (simp_all add: d2_def sync_data_def append_data_def set_entry_def)
  have r: "rename_entry (vtemp p x) p (sync_data t (append_data t bs d1)) = Inr (d2, ())"
    using e [of bs] m b(1) by (simp add: rename_entry_def d2_def)
  have r0: "bs = [] \<Longrightarrow> rename_entry (vtemp p x) p (sync_data t d1) = Inr (d2, ())" using r a by simp
  note seq = write_vault_atomic_def write_vault_atomic_with_backend_def write_and_commit_def vault_file_lock_def
    open_lock_file_def real_storage_backend_def real_create_temp_file_def real_sync_temp_file_def real_rename_def
    create_dir_all_def sync_parent_dir_def syscall_no_faults real_write_all_no_faults
  note par = go_def vstart_def mkdir_step_def open_lock_step_def lock_exclusive_step_def write_step_def
  have f: "wd_fault w (wd_calls w) = None" using assms(1) by (simp add: no_faults_def)
  have k: "length (ancestors q) = Suc (length q)" for q by (simp add: ancestors_def)
  show "vs_disk (run_vault p job (vstart (wd_unix w) (wd_disk w) job) es) = wd_disk (fst (write_vault_atomic x p bs w))"
    and "vs_pc (run_vault p job (vstart (wd_unix w) (wd_disk w) job) es) i = WriteDone (snd (write_vault_atomic x p bs w))"
    using assms(1,4,5,7) f d0(1,2) [unfolded k] l c a r r0 pp lp tp m
    by (auto simp: seq par k Let_def)
qed

section \<open>Properties\<close>

text \<open>C18. A locked read is atomic: however the calls of any number of readers and writers interleave, in
  whatever pieces data is moved, and whichever calls fail and processes are killed, a read that
  returns has returned what the vault contained at one moment while the reader held its lock,
  and that is what the vault contained at first or the whole of what some writer saved.\<close>

theorem locked_read_is_atomic:
  assumes "vault_path p" and "disk_ok d" and "vs_pc (run_vault p job (vstart unix d job) es) i = ReadDone (Inr c)"
  shows "\<exists>before after. es = before @ after \<and>
    reading (vs_pc (run_vault p job (vstart unix d job) before) i) \<and>
    file_at (vs_disk (run_vault p job (vstart unix d job) before)) p = Some c \<and>
    (file_at d p = Some c \<or> (\<exists>j x. job j = WriteVault x c))"
  using assms(3)
proof (induction es rule: rev_induct)
  case Nil
  then show ?case by (cases "job i") (auto simp: vstart_def)
next
  case (snoc e es)
  let ?s = "run_vault p job (vstart unix d job) es"
  show ?case
  proof (cases "vs_pc ?s i = ReadDone (Inr c)")
    case True
    from snoc.IH [OF this] show ?thesis by (metis append.assoc)
  next
    case False
    have v: "vinv d p job ?s" by (rule vinv_run [OF assms(1,2)])
    from read_returns [OF v False] snoc.prems
    have "reading (vs_pc ?s i)" "file_at (vs_disk ?s) p = Some c" by (simp_all add: run_append)
    moreover from this vinvD(4) [OF v] have "file_at d p = Some c \<or> (\<exists>j x. job j = WriteVault x c)"
      by (auto simp: versions_def)
    ultimately show ?thesis by (intro exI [of _ es] exI [of _ "[e]"]) simp
  qed
qed

definition demo_vault :: path where "demo_vault = [RootDir, Normal [97]]"

definition demo_jobs :: "nat \<Rightarrow> vjob" where
  "demo_jobs i = (if i = 0 then WriteVault [49] [1, 2, 3] else ReadVault)"

text \<open>The reader waits while the writer works, and reads one byte at a time.\<close>
definition demo_sched :: "sched list" where
  "demo_sched = [Go 0 0, Go 0 0, Go 1 0, Go 0 0, Go 1 0, Go 0 0, Go 0 1, Go 0 1, Go 1 0, Go 0 0, Go 0 0, Go 0 0,
     Go 0 0, Go 0 0, Go 1 0, Go 1 0, Go 1 0, Go 1 0, Go 1 0, Go 1 0, Go 1 0]"

lemma demo_ok: "vault_path demo_vault" "disk_ok blank_disk"
  using blank_ok(1) by (simp_all add: vault_path_def demo_vault_def parent_def file_name_def blank_world_def)

lemma demo_read:
  "vs_pc (run_vault demo_vault demo_jobs (vstart True blank_disk demo_jobs) demo_sched) 1 = ReadDone (Inr [1, 2, 3])"
  by code_simp

theorem locked_read_is_atomic_witness:
  "\<exists>before after. demo_sched = before @ after \<and>
    reading (vs_pc (run_vault demo_vault demo_jobs (vstart True blank_disk demo_jobs) before) 1) \<and>
    file_at (vs_disk (run_vault demo_vault demo_jobs (vstart True blank_disk demo_jobs) before)) demo_vault = Some [1, 2, 3]"
  using locked_read_is_atomic [OF demo_ok demo_read] by blast

text \<open>C19. The vault is replaced in isolation and survives: a step that changes what a read of the vault gives
  is the step of a writer that is alone in the critical section, and puts all of that writer's bytes
  in place. When a save reports success its bytes are in place; on a Unix target they are then also what a
  crash leaves, for certain when no crash could lose the directory of the vault from the start, and
  otherwise (it was created by one of the writers, or its own entry was never synced) unless the directory
  is lost and no file is left. At any moment, on every target, a crash leaves what the medium could hold at
  first or all the bytes of one of the writers.\<close>

theorem concurrent_saves_isolated:
  assumes "vault_path p" and "disk_ok d" and "s = run_vault p job (vstart unix d job) es" and "s' = vexec p job s e"
  shows "(file_at (vs_disk s') p \<noteq> file_at (vs_disk s) p \<longrightarrow>
      (\<exists>j x bs. job j = WriteVault x bs \<and> file_at (vs_disk s') p = Some bs \<and> writing (vs_pc s j) \<and>
         (\<forall>k. k \<noteq> j \<longrightarrow> \<not> reading (vs_pc s k) \<and> \<not> writing (vs_pc s k)))) \<and>
    (vs_pc s i \<noteq> WriteDone (Inr ()) \<and> vs_pc s' i = WriteDone (Inr ()) \<longrightarrow>
      (\<exists>x bs. job i = WriteVault x bs \<and> file_at (vs_disk s') p = Some bs \<and>
         (unix \<longrightarrow> crash_at (vs_disk s') p = insert (Some bs) (if lasting d (vdir p) then {} else {None})))) \<and>
    crash_at (vs_disk s) p \<subseteq> crash_at d p \<union> {Some bs |bs. \<exists>j x. job j = WriteVault x bs}"
proof (intro conjI impI)
  have v: "vinv d p job s" unfolding assms(3) by (rule vinv_run [OF assms(1,2)])
  show "\<exists>j x bs. job j = WriteVault x bs \<and> file_at (vs_disk s') p = Some bs \<and> writing (vs_pc s j) \<and>
      (\<forall>k. k \<noteq> j \<longrightarrow> \<not> reading (vs_pc s k) \<and> \<not> writing (vs_pc s k))"
    if "file_at (vs_disk s') p \<noteq> file_at (vs_disk s) p"
    using vault_changed [OF v assms(1) _ refl, of e] that assms(4) by blast
  have "vs_unix s = unix" unfolding assms(3) by (rule run_unix)
  then show "\<exists>x bs. job i = WriteVault x bs \<and> file_at (vs_disk s') p = Some bs \<and>
      (unix \<longrightarrow> crash_at (vs_disk s') p = insert (Some bs) (if lasting d (vdir p) then {} else {None}))"
    if "vs_pc s i \<noteq> WriteDone (Inr ()) \<and> vs_pc s' i = WriteDone (Inr ())"
    using write_returns [OF v assms(1), of i e] that assms(4) by simp
  show "crash_at (vs_disk s) p \<subseteq> crash_at d p \<union> {Some bs |bs. \<exists>j x. job j = WriteVault x bs}"
    using vinvD(4) [OF v] by (simp add: versions_def)
qed

theorem concurrent_saves_isolated_witness:
  "(\<exists>j x bs. demo_jobs j = WriteVault x bs \<and> bs = [1, 2, 3] \<and>
      writing (vs_pc (run_vault demo_vault demo_jobs (vstart True blank_disk demo_jobs) (take 11 demo_sched)) j)) \<and>
    crash_at (vs_disk (vexec demo_vault demo_jobs
      (run_vault demo_vault demo_jobs (vstart True blank_disk demo_jobs) (take 13 demo_sched)) (Go 0 0))) demo_vault = {Some [1, 2, 3]}"
proof -
  let ?s = "run_vault demo_vault demo_jobs (vstart True blank_disk demo_jobs) (take 11 demo_sched)"
  let ?t = "run_vault demo_vault demo_jobs (vstart True blank_disk demo_jobs) (take 13 demo_sched)"
  have n: "file_at (vs_disk ?s) demo_vault = None" by code_simp
  have f: "file_at (vs_disk (vexec demo_vault demo_jobs ?s (Go 0 0))) demo_vault = Some [1, 2, 3]" by code_simp
  have e: "vs_pc ?t 0 = WrDirSync 0" by code_simp
  have r: "vs_pc (vexec demo_vault demo_jobs ?t (Go 0 0)) 0 = WriteDone (Inr ())" by code_simp
  have l: "lasting blank_disk (vdir demo_vault)" by code_simp
  have "\<exists>j x bs. demo_jobs j = WriteVault x bs \<and> bs = [1, 2, 3] \<and> writing (vs_pc ?s j)"
    using concurrent_saves_isolated [OF demo_ok refl refl, where job = demo_jobs and es = "take 11 demo_sched"
        and unix = True and e = "Go 0 0"] n f by fastforce
  moreover have "crash_at (vs_disk (vexec demo_vault demo_jobs ?t (Go 0 0))) demo_vault = {Some [1, 2, 3]}"
    using concurrent_saves_isolated [OF demo_ok refl refl, where job = demo_jobs and es = "take 13 demo_sched"
        and unix = True and e = "Go 0 0" and i = 0] e r l by (simp add: demo_jobs_def)
  ultimately show ?thesis ..
qed

text \<open>C20. The lock never blocks for good: from every moment of every run, whatever has failed and whoever has
  been killed before and however many processes wait, the calls can go on in such a way that a given
  process returns, with nobody killed and no call failing from then on, and with only the processes moving
  that are in the critical section (the holders of the lock, each of which can run to the point where it
  releases it) and the process itself.\<close>

theorem vault_lock_never_stuck:
  assumes "vault_path p" and "disk_ok d" and "s = run_vault p job (vstart unix d job) es"
  shows "\<exists>later. (\<forall>e\<in>set later. \<exists>j n. e = Go j n \<and> (j = i \<or> reading (vs_pc s j) \<or> writing (vs_pc s j))) \<and>
    (vs_pc s i = Killed \<or> (\<exists>r. vs_pc (run_vault p job s later) i = ReadDone r) \<or>
     (\<exists>r. vs_pc (run_vault p job s later) i = WriteDone r))"
proof -
  have "can_end p job {k. critical (vs_pc s k)} i s"
    unfolding assms(3) by (rule every_process_ends [OF vinv_run [OF assms(1,2)] assms(1) finite_critical refl])
  then obtain later where l: "gos (insert i {k. critical (vs_pc s k)}) later" "ended (vs_pc (run_vault p job s later) i)"
    by (auto simp: can_end_def)
  then show ?thesis
    using gos_killed [OF l(1), of p job s i]
    by (intro exI [of _ later]) (cases "vs_pc (run_vault p job s later) i"; auto simp: gos_def)
qed

theorem vault_lock_never_stuck_witness:
  "\<exists>later. (\<forall>e\<in>set later. \<exists>j n. e = Go j n) \<and>
    ((\<exists>r. vs_pc (run_vault demo_vault demo_jobs (run_vault demo_vault demo_jobs (vstart True blank_disk demo_jobs)
       (take 5 demo_sched @ [Fault 2 5 0])) later) 1 = ReadDone r) \<or>
     (\<exists>r. vs_pc (run_vault demo_vault demo_jobs (run_vault demo_vault demo_jobs (vstart True blank_disk demo_jobs)
       (take 5 demo_sched @ [Fault 2 5 0])) later) 1 = WriteDone r))"
proof -
  let ?s = "run_vault demo_vault demo_jobs (vstart True blank_disk demo_jobs) (take 5 demo_sched @ [Fault 2 5 0])"
  have "vs_pc ?s 1 = AtLock 0" by code_simp
  then show ?thesis
    using vault_lock_never_stuck [OF demo_ok refl, where job = demo_jobs and unix = True
      and es = "take 5 demo_sched @ [Fault 2 5 0]" and i = 1] by fastforce
qed

end
