(* ===== verification/Storage_Faults.thy ===== *)
theory Storage_Faults
  imports Storage
begin

text \<open>
  The tests inside \<open>vault/storage.rs\<close>: the backend with injected failures that they run the generic
  writer on, what the writer does for every choice of failures, and the tests themselves
  as evaluations of the model.
\<close>

section \<open>The backend with injected failures\<close>

datatype fail_point =
  FpCreateTempFile | FpWriteAll | FpSyncTempFile | FpRename | FpSyncParentDir | FpRemoveFile

text \<open>The state is the file system and \<open>cleanup_attempted\<close>.\<close>
type_synonym injected = "world \<times> bool"

definition INJECTED :: nat where "INJECTED = 0"

definition fail :: "fail_point list \<Rightarrow> fail_point \<Rightarrow> vault_storage_error + unit" where
  "fail fail_at point = (if point \<in> set fail_at then Inl (Io INJECTED) else Inr ())"

text \<open>\<open>self.fail(point)?\<close> before an operation of the file system.\<close>
definition unless_failed ::
    "fail_point list \<Rightarrow> fail_point \<Rightarrow> (world \<Rightarrow> world \<times> (vault_storage_error + 'a)) \<Rightarrow> injected
      \<Rightarrow> injected \<times> (vault_storage_error + 'a)" where
  "unless_failed fail_at point f s =
    (case fail fail_at point of
       Inl e \<Rightarrow> (s, Inl e)
     | Inr _ \<Rightarrow> (let (w, r) = f (fst s) in ((w, snd s), r)))"

definition expected_tmp_path :: "path \<Rightarrow> rstring \<Rightarrow> path" where
  "expected_tmp_path dir base_name = path_join dir (lit ''.'' @ base_name @ lit ''.tmp.test'')"

definition injected_remove_file ::
    "fail_point list \<Rightarrow> path \<Rightarrow> injected \<Rightarrow> injected \<times> (vault_storage_error + unit)" where
  "injected_remove_file fail_at p s = unless_failed fail_at FpRemoveFile (real_remove_file p) (fst s, True)"

definition injected_backend :: "fail_point list \<Rightarrow> (injected, nat) storage_backend" where
  "injected_backend fail_at = \<lparr>sb_temp_path_for = expected_tmp_path,
     sb_create_temp_file = (\<lambda>p. unless_failed fail_at FpCreateTempFile (real_create_temp_file p)),
     sb_write_all = (\<lambda>t bs. unless_failed fail_at FpWriteAll (real_write_all t bs)),
     sb_sync_temp_file = (\<lambda>t. unless_failed fail_at FpSyncTempFile (real_sync_temp_file t)),
     sb_rename = (\<lambda>p q. unless_failed fail_at FpRename (real_rename p q)),
     sb_remove_file = injected_remove_file fail_at,
     sb_sync_parent_dir = (\<lambda>dir. unless_failed fail_at FpSyncParentDir (sync_parent_dir dir))\<rparr>"

section \<open>It keeps the contract of a backend\<close>

text \<open>An injected failure changes nothing, otherwise the operation is the real one.\<close>
lemma unless_failed_cases:
  assumes "unless_failed fail_at point f s = (s', r)"
  obtains (fails) "point \<in> set fail_at" "s' = s" "r = Inl (Io INJECTED)"
  | (runs) w where "point \<notin> set fail_at" "f (fst s) = (w, r)" "s' = (w, snd s)"
  using assms by (auto simp: unless_failed_def fail_def split: if_splits prod.splits)

lemma agree_fst:
  "agree_off (\<lambda>s. live_on (fst s)) (\<lambda>s. crash_on (fst s)) ps s s' \<longleftrightarrow> agree_off live_on crash_on ps (fst s) (fst s')"
  by (simp add: agree_off_def)

interpretation injected: storage_contract "injected_backend fail_at" "\<lambda>s. disk_ok (wd_disk (fst s))"
    "\<lambda>s. live_on (fst s)" "\<lambda>s. crash_on (fst s)" "\<lambda>s. held_at (wd_disk (fst s))"
    "\<lambda>s. dk_synced (wd_disk (fst s))" "\<lambda>s. settled_at (wd_disk (fst s))" "\<lambda>s. remains_on (fst s)"
  for fail_at
proof (unfold_locales, goal_cases)
  case (1 s p s' x)
  from 1(2) show ?case unfolding agree_fst
    by (auto simp: injected_backend_def elim!: unless_failed_cases dest: real_created [OF 1(1)] intro: 1(1))
next
  case (2 s t p c bs s' r)
  from 2(3) show ?case unfolding agree_fst
    by (auto simp: injected_backend_def elim!: unless_failed_cases dest: real_written [OF 2(1,2)] intro: 2(1))
next
  case (3 s t p c s' r)
  from 3(3) show ?case unfolding agree_fst
    by (auto simp: injected_backend_def elim!: unless_failed_cases dest: real_synced [OF 3(1,2)] intro: 3(1))
next
  case (4 s t p c q s' r)
  from 4(5) have u: "unless_failed fail_at FpRename (real_rename p q) s = (s', r)" by (simp add: injected_backend_def)
  then show ?case
  proof (cases rule: unless_failed_cases)
    case (runs w)
    with real_renamed [OF 4(1-4) runs(2)] show ?thesis unfolding agree_fst by simp
  qed (use 4(1) in \<open>simp add: agree_fst\<close>)
next
  case (5 s dir s' r)
  from 5(2) have "unless_failed fail_at FpSyncParentDir (sync_parent_dir dir) s = (s', r)" by (simp add: injected_backend_def)
  then show ?case
  proof (cases rule: unless_failed_cases)
    case (runs w)
    with real_dir_synced [OF 5(1) runs(2)] show ?thesis unfolding agree_fst by simp
  qed (use 5(1) in \<open>simp add: agree_fst\<close>)
next
  case (6 s p s' r)
  from 6(2) show ?case unfolding agree_fst
    by (auto simp: injected_backend_def injected_remove_file_def elim!: unless_failed_cases
        dest: real_removed [OF 6(1)] intro: 6(1))
next
  case (7 s q c)
  then show ?case by (rule real.settled_live)
qed

section \<open>What the writer does under injected failures\<close>

lemma expected_tmp_other: "p = dir @ [Normal base] \<Longrightarrow> expected_tmp_path dir base \<noteq> p"
proof -
  have "length (lit ''.'' @ base @ lit ''.tmp.test'') \<noteq> length base" by (simp add: lit_def)
  then have "lit ''.'' @ base @ lit ''.tmp.test'' \<noteq> base" by metis
  then show "p = dir @ [Normal base] \<Longrightarrow> expected_tmp_path dir base \<noteq> p"
    by (auto simp: expected_tmp_path_def path_join_def)
qed

lemmas injected_ops = injected_backend_def unless_failed_def fail_def injected_remove_file_def
  real_create_temp_file_def real_sync_temp_file_def real_rename_def real_remove_file_def sync_parent_dir_def
  syscall_no_faults real_write_all_no_faults disk_ops sync_entries_def unlink_entry_def file_at_def

definition before_commit :: "fail_point set" where
  "before_commit = {FpCreateTempFile, FpWriteAll, FpSyncTempFile, FpRename}"

text \<open>C21. The outcome of a save into an existing directory under any set of injected failures, with everything
  else working: it
  reports an error exactly when one of the five steps of the commit fails; the vault has the new
  contents exactly when the steps up to the rename succeed, also when the save reports an error
  afterwards; the clean-up is attempted exactly after an error, and a temporary file stays behind only
  when it had been created, was not renamed and its removal fails too.\<close>

theorem injected_failures_exactly:
  assumes "disk_ok (wd_disk w)" and "no_faults w" and "p = dir @ [Normal base]" and "dir \<noteq> []"
    and "missing (wd_disk w) dir = []" and "\<not> dk_dir (wd_disk w) p"
    and "dk_entry (wd_disk w) (expected_tmp_path dir base) = None" and "\<not> dk_dir (wd_disk w) (expected_tmp_path dir base)"
    and "write_vault_atomic_with_backend (injected_backend fail_at) p bytes (w, False) = ((w', attempted), r)"
  shows "(r = Inr () \<longleftrightarrow> set fail_at \<inter> insert FpSyncParentDir before_commit = {}) \<and>
    (r \<noteq> Inr () \<longrightarrow> r = Inl (Io INJECTED)) \<and>
    live_on w' p = (if set fail_at \<inter> before_commit = {} then Some bytes else live_on w p) \<and>
    (attempted \<longleftrightarrow> r \<noteq> Inr ()) \<and>
    (live_on w' (expected_tmp_path dir base) \<noteq> None \<longleftrightarrow>
       FpCreateTempFile \<notin> set fail_at \<and> set fail_at \<inter> before_commit \<noteq> {} \<and> FpRemoveFile \<in> set fail_at)"
proof -
  let ?tmp = "expected_tmp_path dir base"
  have p: "parent p = Some dir" "file_name p = Some base" using assms(3) by (simp_all add: parent_def file_name_def)
  have t: "?tmp \<noteq> p" "p \<noteq> ?tmp" using expected_tmp_other [OF assms(3)] by auto
  have "i \<noteq> dk_fresh (wd_disk w)" if "dk_entry (wd_disk w) p = Some i" for i
    using disk_okD [OF assms(1)] that by (metis less_irrefl)
  then have k: "map_option ((dk_data (wd_disk w))(dk_fresh (wd_disk w) := bs)) (dk_entry (wd_disk w) p) =
      map_option (dk_data (wd_disk w)) (dk_entry (wd_disk w) p)" for bs
    by (cases "dk_entry (wd_disk w) p") auto
  have b: "butlast p = dir" "butlast ?tmp = dir" using assms(3) by (simp_all add: expected_tmp_path_def path_join_def)
  note facts = assms(2,4-9) p t k b
  consider "FpCreateTempFile \<in> set fail_at"
    | "FpCreateTempFile \<notin> set fail_at" "FpWriteAll \<in> set fail_at"
    | "FpCreateTempFile \<notin> set fail_at" "FpWriteAll \<notin> set fail_at" "FpSyncTempFile \<in> set fail_at"
    | "FpCreateTempFile \<notin> set fail_at" "FpWriteAll \<notin> set fail_at" "FpSyncTempFile \<notin> set fail_at"
      "FpRename \<in> set fail_at"
    | "set fail_at \<inter> before_commit = {}"
    by (auto simp: before_commit_def)
  then show ?thesis
    by cases
      (use facts in \<open>simp_all add: write_vault_atomic_with_backend_def write_and_commit_def injected_ops
        before_commit_def Let_def split: if_splits\<close>, use t in auto)
qed

section \<open>The tests of the file\<close>

text \<open>The directory of \<open>tempdir()\<close>, \<open>fs::write\<close> of the target in it, then the save of \<open>b"replacement"\<close>.\<close>
definition test_target :: path where "test_target = [RootDir, Normal (lit ''tmp''), Normal (lit ''vault.bin'')]"
definition test_tmp :: path where "test_tmp = expected_tmp_path [RootDir, Normal (lit ''tmp'')] (lit ''vault.bin'')"
definition original :: bytes where "original = as_bytes (lit ''original'')"
definition replacement :: bytes where "replacement = as_bytes (lit ''replacement'')"

definition test_world :: world where
  "test_world = blank_world\<lparr>wd_disk := blank_disk\<lparr>dk_dir := (\<lambda>q. q = [RootDir, Normal (lit ''tmp'')])\<rparr>\<rparr>"

definition fs_write :: "path \<Rightarrow> bytes \<Rightarrow> world \<Rightarrow> world" where
  "fs_write p bs w =
    (let (d, i) = (case dk_entry (wd_disk w) p of Some i \<Rightarrow> (wd_disk w, i) | None \<Rightarrow> new_file p (wd_disk w))
     in w\<lparr>wd_disk := d\<lparr>dk_data := (dk_data d)(i := bs), dk_synced := (dk_synced d)(i := False)\<rparr>\<rparr>)"

text \<open>Result, contents of the target, whether the clean-up was attempted and the temporary file exists.\<close>
definition injected_save :: "fail_point list \<Rightarrow> world \<Rightarrow> (vault_storage_error + unit) \<times> bytes option \<times> bool \<times> bool" where
  "injected_save fail_at w =
    (let ((w', attempted), r) = write_vault_atomic_with_backend (injected_backend fail_at) test_target replacement (w, False)
     in (r, live_on w' test_target, attempted, live_on w' test_tmp \<noteq> None))"

fun is_io :: "vault_storage_error + unit \<Rightarrow> bool" where
  "is_io (Inl (Io e)) = True"
| "is_io r = False"

definition lock_path_is_derived_from_vault_path :: bool where
  "lock_path_is_derived_from_vault_path \<longleftrightarrow>
     lock_path_for test_target = Inr [RootDir, Normal (lit ''tmp''), Normal (lit ''vault.bin.lock'')]"

definition lock_path_rejects_invalid_paths :: bool where
  "lock_path_rejects_invalid_paths \<longleftrightarrow>
     lock_path_for [Normal (lit ''vault.bin'')] = Inr [Normal (lit ''vault.bin.lock'')] \<and>
     lock_path_for [] = Inl InvalidPath \<and> lock_path_for [CurDir] = Inl InvalidPath \<and>
     lock_path_for [RootDir] = Inl InvalidPath"

definition lock_creates_lock_file :: bool where
  "lock_creates_lock_file \<longleftrightarrow>
     (let (w, r) = vault_file_lock test_target test_world in
      is_ok r \<and> live_on w [RootDir, Normal (lit ''tmp''), Normal (lit ''vault.bin.lock'')] \<noteq> None)"

definition read_vault_locked_reads_full_file_from_start :: bool where
  "read_vault_locked_reads_full_file_from_start \<longleftrightarrow>
     snd (read_vault_locked test_target (fs_write test_target (as_bytes (lit ''vault-bytes'')) test_world)) =
       Inr (as_bytes (lit ''vault-bytes''))"

text \<open>The four tests that fail one step before the commit differ in that step only.\<close>
definition failure_preserves_original_target :: "fail_point \<Rightarrow> bool" where
  "failure_preserves_original_target point \<longleftrightarrow>
     (let (err, target, attempted, tmp_exists) = injected_save [point] (fs_write test_target original test_world)
      in is_io err \<and> target = Some original \<and> attempted \<and> \<not> tmp_exists)"

definition parent_sync_failure_returns_error_after_target_replacement :: bool where
  "parent_sync_failure_returns_error_after_target_replacement \<longleftrightarrow>
     (let (err, target, attempted, tmp_exists) = injected_save [FpSyncParentDir] test_world
      in is_io err \<and> target = Some replacement \<and> attempted \<and> \<not> tmp_exists)"

definition cleanup_failure_does_not_override_original_error :: bool where
  "cleanup_failure_does_not_override_original_error \<longleftrightarrow>
     (let (err, target, attempted, tmp_exists) =
        injected_save [FpWriteAll, FpRemoveFile] (fs_write test_target original test_world)
      in is_io err \<and> attempted \<and> target = Some original \<and> tmp_exists)"

lemma storage_tests_pass:
  "lock_path_is_derived_from_vault_path" "lock_path_rejects_invalid_paths" "lock_creates_lock_file"
  "read_vault_locked_reads_full_file_from_start"
  "point \<in> before_commit \<Longrightarrow> failure_preserves_original_target point"
  "parent_sync_failure_returns_error_after_target_replacement"
  "cleanup_failure_does_not_override_original_error"
proof -
  show "lock_path_is_derived_from_vault_path" "lock_path_rejects_invalid_paths" "lock_creates_lock_file"
    "read_vault_locked_reads_full_file_from_start"
    "parent_sync_failure_returns_error_after_target_replacement"
    "cleanup_failure_does_not_override_original_error" by code_simp+
  have "list_all failure_preserves_original_target [FpCreateTempFile, FpWriteAll, FpSyncTempFile, FpRename]"
    by code_simp
  then show "point \<in> before_commit \<Longrightarrow> failure_preserves_original_target point"
    by (auto simp: before_commit_def)
qed

theorem injected_failures_exactly_witness:
  "\<exists>w' attempted r. write_vault_atomic_with_backend (injected_backend [FpWriteAll, FpRemoveFile])
      [RootDir, Normal [97]] [1, 2] (blank_world, False) = ((w', attempted), r) \<and>
    r = Inl (Io INJECTED) \<and> attempted \<and> live_on w' [RootDir, Normal [97]] = None \<and>
    live_on w' (expected_tmp_path [RootDir] [97]) \<noteq> None"
proof -
  obtain w' attempted r where w: "write_vault_atomic_with_backend (injected_backend [FpWriteAll, FpRemoveFile])
      [RootDir, Normal [97]] [1, 2] (blank_world, False) = ((w', attempted), r)"
    by (metis surj_pair)
  from injected_failures_exactly [OF blank_ok(1,2) _ _ root_ok(1) blank_ok(5,3,5) this] w show ?thesis
    by (auto simp: before_commit_def blank_ok(4))
qed

end
