(* ===== verification/Lock_State.thy ===== *)
theory Lock_State
  imports Unlock
begin

text \<open>
  \<open>core/lock_state.rs\<close>: the lock manager. Its state is the session, the generation
  counter, the current \<open>Notify\<close> handle and the handle of the auto-lock task; the
  spawned tasks, the permits stored in \<open>Notify\<close> objects and the monotonic clock belong
  to the tokio runtime and are fields of the same record, so that the background task
  is modelled by the steps it takes. An aborted task stays in the table until the
  runtime drops it: it may still take a step after \<open>abort()\<close>, as the source notes.
\<close>

section \<open>State\<close>

record session_state =
  us_plaintext_json :: secret_bytes
  us_auth_strength :: authentication_strength
  us_strong_reauth_required :: bool
  us_unlock_outcome :: unlock_outcome
  us_runtime_state :: runtime_inspection_state

datatype vault_state = Locked | Unlocked session_state

text \<open>A spawned timer task; \<open>tt_deadline\<close> is set when the task is first polled.\<close>
record timer_task =
  tt_generation :: u64
  tt_notify :: nat
  tt_timeout :: duration
  tt_deadline :: "instant option"
  tt_aborted :: bool

record lock_manager =
  lm_state :: vault_state
  lm_notify :: nat
  lm_auto_lock_task :: "nat option"
  lm_generation :: u64
  lm_tasks :: "nat \<Rightarrow> timer_task option"
  lm_permits :: "nat \<Rightarrow> bool"
  lm_now :: instant
  lm_fresh :: nat

definition manager_new :: lock_manager where
  "manager_new = \<lparr>lm_state = Locked, lm_notify = 0, lm_auto_lock_task = None, lm_generation = 1,
     lm_tasks = (\<lambda>_. None), lm_permits = (\<lambda>_. False), lm_now = 0, lm_fresh = 1\<rparr>"

section \<open>Timer control\<close>

text \<open>\<open>fetch_add\<close> wraps around at the width of the counter.\<close>
definition next_generation :: "lock_manager \<Rightarrow> u64 \<times> lock_manager" where
  "next_generation m = (let g = lm_generation m + 1 in (g, m\<lparr>lm_generation := g\<rparr>))"

definition abort_task :: "nat \<Rightarrow> lock_manager \<Rightarrow> lock_manager" where
  "abort_task i m = m\<lparr>lm_tasks := (lm_tasks m)(i := map_option (tt_aborted_update (\<lambda>_. True)) (lm_tasks m i))\<rparr>"

definition cancel_auto_lock :: "lock_manager \<Rightarrow> lock_manager" where
  "cancel_auto_lock m =
    (case lm_auto_lock_task m of
       None \<Rightarrow> m
     | Some i \<Rightarrow> abort_task i (m\<lparr>lm_auto_lock_task := None\<rparr>))"

text \<open>A new \<open>Notify\<close>, installed as the current handle.\<close>
definition rotate_notify :: "lock_manager \<Rightarrow> nat \<times> lock_manager" where
  "rotate_notify m = (lm_fresh m, m\<lparr>lm_notify := lm_fresh m, lm_fresh := lm_fresh m + 1\<rparr>)"

definition spawn_timer :: "duration \<Rightarrow> u64 \<Rightarrow> nat \<Rightarrow> lock_manager \<Rightarrow> nat \<times> lock_manager" where
  "spawn_timer timeout generation cycle_notify m =
    (let i = lm_fresh m in
     (i, m\<lparr>lm_tasks := (lm_tasks m)(i \<mapsto> \<lparr>tt_generation = generation, tt_notify = cycle_notify,
            tt_timeout = timeout, tt_deadline = None, tt_aborted = False\<rparr>),
           lm_fresh := i + 1\<rparr>))"

definition restart_auto_lock :: "duration \<Rightarrow> u64 \<Rightarrow> lock_manager \<Rightarrow> lock_manager" where
  "restart_auto_lock timeout generation m =
    (let (cycle_notify, m1) = rotate_notify (cancel_auto_lock m);
         (task, m2) = spawn_timer timeout generation cycle_notify m1
     in m2\<lparr>lm_auto_lock_task := Some task\<rparr>)"

section \<open>Locking and unlocking\<close>

definition open_session ::
    "secret_bytes \<Rightarrow> authentication_strength \<Rightarrow> unlock_outcome \<Rightarrow> runtime_inspection_state \<Rightarrow> vault_state" where
  "open_session plaintext_json auth_strength outcome runtime_state =
    Unlocked \<lparr>us_plaintext_json = plaintext_json, us_auth_strength = auth_strength,
      us_strong_reauth_required = (\<not> is_strong auth_strength \<or> is_restrictive runtime_state),
      us_unlock_outcome = outcome, us_runtime_state = runtime_state\<rparr>"

definition unlock_with_plaintext_json_with_context ::
    "lock_manager \<Rightarrow> secret_bytes \<Rightarrow> duration \<Rightarrow> authentication_strength \<Rightarrow> unlock_outcome
      \<Rightarrow> runtime_inspection_state \<Rightarrow> lock_manager" where
  "unlock_with_plaintext_json_with_context m plaintext_json timeout auth_strength outcome runtime_state =
    (let (generation, m1) = next_generation m;
         m2 = m1\<lparr>lm_state := open_session plaintext_json auth_strength outcome runtime_state\<rparr>
     in restart_auto_lock timeout generation m2)"

text \<open>The two compatibility entry points capture what the live probe returns.\<close>

definition unlock_with_plaintext_json_with_strength ::
    "runtime_inspection_state \<Rightarrow> lock_manager \<Rightarrow> secret_bytes \<Rightarrow> duration \<Rightarrow> authentication_strength
      \<Rightarrow> lock_manager" where
  "unlock_with_plaintext_json_with_strength probe m plaintext_json timeout auth_strength =
    unlock_with_plaintext_json_with_context m plaintext_json timeout auth_strength Primary probe"

definition unlock_with_plaintext_json ::
    "runtime_inspection_state \<Rightarrow> lock_manager \<Rightarrow> secret_bytes \<Rightarrow> duration \<Rightarrow> lock_manager" where
  "unlock_with_plaintext_json probe m plaintext_json timeout =
    unlock_with_plaintext_json_with_context m plaintext_json timeout Strong Primary probe"

definition lock :: "lock_manager \<Rightarrow> lock_manager" where
  "lock m = (let (_, m1) = next_generation m in cancel_auto_lock (m1\<lparr>lm_state := Locked\<rparr>))"

definition notify_activity :: "lock_manager \<Rightarrow> lock_manager" where
  "notify_activity m = m\<lparr>lm_permits := (lm_permits m)(lm_notify m := True)\<rparr>"

section \<open>Session queries and policy\<close>

fun in_session :: "(session_state \<Rightarrow> 'a) \<Rightarrow> vault_state \<Rightarrow> 'a option" where
  "in_session f (Unlocked s) = Some (f s)"
| "in_session f Locked = None"

definition current_authentication_strength :: "lock_manager \<Rightarrow> authentication_strength option" where
  "current_authentication_strength m = in_session us_auth_strength (lm_state m)"

definition current_unlock_outcome :: "lock_manager \<Rightarrow> unlock_outcome option" where
  "current_unlock_outcome m = in_session us_unlock_outcome (lm_state m)"

definition current_runtime_inspection_state_of :: "lock_manager \<Rightarrow> runtime_inspection_state option" where
  "current_runtime_inspection_state_of m = in_session us_runtime_state (lm_state m)"

definition current_policy_context :: "lock_manager \<Rightarrow> policy_context option" where
  "current_policy_context m =
    in_session (\<lambda>s. policy_from_parts (us_unlock_outcome s) (us_runtime_state s)) (lm_state m)"

definition strong_reauth_required :: "lock_manager \<Rightarrow> bool option" where
  "strong_reauth_required m = in_session us_strong_reauth_required (lm_state m)"

text \<open>An update of the session that returns something; \<open>None\<close> when the vault is locked.\<close>
fun update_session :: "(session_state \<Rightarrow> session_state) \<Rightarrow> vault_state \<Rightarrow> vault_state" where
  "update_session f (Unlocked s) = Unlocked (f s)"
| "update_session f Locked = Locked"

definition on_runtime_state :: "runtime_inspection_state \<Rightarrow> session_state \<Rightarrow> session_state" where
  "on_runtime_state r s =
    (let s' = s\<lparr>us_runtime_state := r\<rparr> in
     if is_restrictive r then s'\<lparr>us_strong_reauth_required := True\<rparr> else s')"

definition refresh_runtime_policy_state ::
    "runtime_inspection_state \<Rightarrow> lock_manager \<Rightarrow> lock_manager \<times> runtime_inspection_state option" where
  "refresh_runtime_policy_state probe m =
    (m\<lparr>lm_state := update_session (on_runtime_state probe) (lm_state m)\<rparr>,
     in_session (\<lambda>_. probe) (lm_state m))"

definition set_runtime_policy_state ::
    "runtime_inspection_state \<Rightarrow> lock_manager \<Rightarrow> lock_manager \<times> unit option" where
  "set_runtime_policy_state r m =
    (m\<lparr>lm_state := update_session (on_runtime_state r) (lm_state m)\<rparr>,
     in_session (\<lambda>_. ()) (lm_state m))"

definition mark_strong_reauth_required :: "lock_manager \<Rightarrow> lock_manager \<times> bool" where
  "mark_strong_reauth_required m =
    (m\<lparr>lm_state := update_session (us_strong_reauth_required_update (\<lambda>_. True)) (lm_state m)\<rparr>,
     lm_state m \<noteq> Locked)"

definition clear_strong_reauth_requirement :: "lock_manager \<Rightarrow> lock_manager \<times> bool" where
  "clear_strong_reauth_requirement m =
    (m\<lparr>lm_state := update_session (us_strong_reauth_required_update (\<lambda>_. False)) (lm_state m)\<rparr>,
     lm_state m \<noteq> Locked)"

definition requires_strong_reauth_for :: "lock_manager \<Rightarrow> sensitive_operation \<Rightarrow> bool option" where
  "requires_strong_reauth_for m operation =
    in_session (\<lambda>s. us_strong_reauth_required s \<or>
      (\<not> is_strong (us_auth_strength s) \<and> op_requires_strong_reauth operation)) (lm_state m)"

definition authorize_sensitive_operation ::
    "lock_manager \<Rightarrow> sensitive_operation \<Rightarrow> entry_error + policy_context" where
  "authorize_sensitive_operation m operation =
    rbind (ok_or VaultLocked (current_policy_context m)) (\<lambda>policy.
      guard (\<not> allow_sensitive_operation policy operation) PolicyDenied
        (case requires_strong_reauth_for m operation of
           None \<Rightarrow> Inl VaultLocked
         | Some True \<Rightarrow> Inl ReauthRequired
         | Some False \<Rightarrow> Inr policy))"

definition handle_runtime_security_event :: "lock_manager \<Rightarrow> runtime_security_event \<Rightarrow> lock_manager" where
  "handle_runtime_security_event m event =
    (if forces_lock event then lock m
     else if event_requires_strong_reauth event then fst (mark_strong_reauth_required m)
     else m)"

section \<open>The payload behind the session\<close>

definition decode_payload_from_plaintext_json :: "json_lib \<Rightarrow> bytes \<Rightarrow> vault_payload option" where
  "decode_payload_from_plaintext_json J plaintext_json = payload_from_slice J plaintext_json"

definition encode_payload_to_plaintext_json :: "json_lib \<Rightarrow> vault_payload \<Rightarrow> secret_bytes option" where
  "encode_payload_to_plaintext_json J payload = payload_to_vec J payload"

definition get_payload :: "json_lib \<Rightarrow> lock_manager \<Rightarrow> vault_payload option" where
  "get_payload J m =
    (case lm_state m of
       Unlocked s \<Rightarrow> decode_payload_from_plaintext_json J (us_plaintext_json s)
     | Locked \<Rightarrow> None)"

text \<open>
  The closure gets \<open>&mut VaultPayload\<close>: it returns the payload it leaves behind and its
  own result, and the payload is stored \<^emph>\<open>whatever that result is\<close>.
\<close>

definition with_unlocked_payload_mut ::
    "json_lib \<Rightarrow> lock_manager \<Rightarrow> (vault_payload \<Rightarrow> vault_payload \<times> 'r) \<Rightarrow> lock_manager \<times> 'r option" where
  "with_unlocked_payload_mut J m f =
    (case lm_state m of
       Locked \<Rightarrow> (m, None)
     | Unlocked s \<Rightarrow>
        (case decode_payload_from_plaintext_json J (us_plaintext_json s) of
           None \<Rightarrow> (m, None)
         | Some payload \<Rightarrow>
            (let (payload', result) = f payload in
             case encode_payload_to_plaintext_json J payload' of
               None \<Rightarrow> (m, None)
             | Some new_json \<Rightarrow>
                 (m\<lparr>lm_state := Unlocked (s\<lparr>us_plaintext_json := new_json\<rparr>)\<rparr>, Some result))))"

definition with_unlocked_payload ::
    "json_lib \<Rightarrow> lock_manager \<Rightarrow> (vault_payload \<Rightarrow> 'r) \<Rightarrow> 'r option" where
  "with_unlocked_payload J m f =
    (case lm_state m of
       Locked \<Rightarrow> None
     | Unlocked s \<Rightarrow>
         map_option f (decode_payload_from_plaintext_json J (us_plaintext_json s)))"

section \<open>The steps of the background task\<close>

text \<open>
  \<open>Instant + Duration\<close> panics past the range of the platform clock (64-bit signed
  seconds); a panic ends the task.
\<close>

definition INSTANT_MAX :: instant where "INSTANT_MAX = 2 ^ 63 * 10 ^ 9 - 1"

definition drop_task :: "nat \<Rightarrow> lock_manager \<Rightarrow> lock_manager" where
  "drop_task i m = m\<lparr>lm_tasks := (lm_tasks m)(i := None)\<rparr>"

definition push_deadline :: "nat \<Rightarrow> timer_task \<Rightarrow> lock_manager \<Rightarrow> lock_manager" where
  "push_deadline i t m =
    (if lm_now m + tt_timeout t > INSTANT_MAX then drop_task i m
     else m\<lparr>lm_tasks := (lm_tasks m)(i \<mapsto> t\<lparr>tt_deadline := Some (lm_now m + tt_timeout t)\<rparr>)\<rparr>)"

text \<open>The first poll: \<open>let mut deadline = Instant::now() + timeout\<close>.\<close>
definition task_start :: "nat \<Rightarrow> lock_manager \<Rightarrow> lock_manager" where
  "task_start i m =
    (case lm_tasks m i of
       Some t \<Rightarrow> if tt_deadline t = None then push_deadline i t m else m
     | None \<Rightarrow> m)"

text \<open>The branch \<open>sleep_until(deadline)\<close> of the \<open>select!\<close>.\<close>
definition task_fire :: "nat \<Rightarrow> lock_manager \<Rightarrow> lock_manager" where
  "task_fire i m =
    (case lm_tasks m i of
       Some t \<Rightarrow>
        (case tt_deadline t of
           Some d \<Rightarrow>
             if d \<le> lm_now m then
               drop_task i (if lm_generation m = tt_generation t then m\<lparr>lm_state := Locked\<rparr> else m)
             else m
         | None \<Rightarrow> m)
     | None \<Rightarrow> m)"

text \<open>The branch \<open>cycle_notify.notified()\<close>, which takes the stored permit.\<close>
definition task_notified :: "nat \<Rightarrow> lock_manager \<Rightarrow> lock_manager" where
  "task_notified i m =
    (case lm_tasks m i of
       Some t \<Rightarrow>
         if tt_deadline t \<noteq> None \<and> lm_permits m (tt_notify t) then
           let m1 = m\<lparr>lm_permits := (lm_permits m)(tt_notify t := False)\<rparr> in
           if lm_generation m1 \<noteq> tt_generation t then drop_task i m1 else push_deadline i t m1
         else m
     | None \<Rightarrow> m)"

text \<open>The runtime drops a task whose abortion was requested.\<close>
definition task_reap :: "nat \<Rightarrow> lock_manager \<Rightarrow> lock_manager" where
  "task_reap i m =
    (case lm_tasks m i of
       Some t \<Rightarrow> if tt_aborted t then drop_task i m else m
     | None \<Rightarrow> m)"

end
