(* ===== verification/Lock_Runs.thy ===== *)
theory Lock_Runs
  imports Lock_State
begin

text \<open>
  Runs of the lock manager: any sequence of manager calls, steps of the timer tasks
  and passing of time. The first part proves that an unlocked vault always has a live
  timer of its own generation, the second what such runs can do to a session.
\<close>

section \<open>Events\<close>

datatype lock_event =
  EvUnlock secret_bytes duration authentication_strength unlock_outcome runtime_inspection_state
| EvLock
| EvActivity
| EvSecurity runtime_security_event
| EvRefresh runtime_inspection_state
| EvSetRuntime runtime_inspection_state
| EvMark
| EvClear
| EvEdit json_lib "vault_payload \<Rightarrow> vault_payload"
| EvTick duration
| EvStart nat
| EvFire nat
| EvNotified nat
| EvReap nat

fun exec_event :: "lock_manager \<Rightarrow> lock_event \<Rightarrow> lock_manager" where
  "exec_event m (EvUnlock pj timeout strength outcome rt) =
     unlock_with_plaintext_json_with_context m pj timeout strength outcome rt"
| "exec_event m EvLock = lock m"
| "exec_event m EvActivity = notify_activity m"
| "exec_event m (EvSecurity e) = handle_runtime_security_event m e"
| "exec_event m (EvRefresh probe) = fst (refresh_runtime_policy_state probe m)"
| "exec_event m (EvSetRuntime r) = fst (set_runtime_policy_state r m)"
| "exec_event m EvMark = fst (mark_strong_reauth_required m)"
| "exec_event m EvClear = fst (clear_strong_reauth_requirement m)"
| "exec_event m (EvEdit J f) = fst (with_unlocked_payload_mut J m (\<lambda>p. (f p, ())))"
| "exec_event m (EvTick d) = m\<lparr>lm_now := lm_now m + d\<rparr>"
| "exec_event m (EvStart i) = task_start i m"
| "exec_event m (EvFire i) = task_fire i m"
| "exec_event m (EvNotified i) = task_notified i m"
| "exec_event m (EvReap i) = task_reap i m"

abbreviation run_manager :: "lock_manager \<Rightarrow> lock_event list \<Rightarrow> lock_manager" where
  "run_manager \<equiv> run exec_event"

fun event_timeout :: "lock_event \<Rightarrow> duration" where
  "event_timeout (EvUnlock _ timeout _ _ _) = timeout"
| "event_timeout _ = 0"

text \<open>
  The bounds under which a run is considered: the generation counter has not wrapped,
  timeouts are at most \<open>T\<close>, and the clock is at least \<open>T\<close> away from its end.
\<close>

definition within :: "duration \<Rightarrow> lock_manager \<Rightarrow> lock_event \<Rightarrow> bool" where
  "within T m e \<longleftrightarrow> unat (lm_generation m) + 1 < 2 ^ 64 \<and> event_timeout e \<le> T \<and> lm_now m + T \<le> INSTANT_MAX"

section \<open>The auto-lock invariant\<close>

definition task_ok :: "duration \<Rightarrow> lock_manager \<Rightarrow> nat \<Rightarrow> timer_task \<Rightarrow> bool" where
  "task_ok T m i t \<longleftrightarrow> i < lm_fresh m \<and> tt_timeout t \<le> T \<and>
     unat (tt_generation t) \<le> unat (lm_generation m) \<and>
     (tt_generation t = lm_generation m \<longrightarrow> lm_auto_lock_task m = Some i) \<and>
     (\<forall>d. tt_deadline t = Some d \<longrightarrow> d \<le> lm_now m + tt_timeout t)"

definition live_timer :: "lock_manager \<Rightarrow> nat \<Rightarrow> timer_task \<Rightarrow> bool" where
  "live_timer m i t \<longleftrightarrow> lm_auto_lock_task m = Some i \<and> lm_tasks m i = Some t \<and> \<not> tt_aborted t \<and>
     tt_generation t = lm_generation m \<and> tt_notify t = lm_notify m"

definition armed :: "duration \<Rightarrow> lock_manager \<Rightarrow> bool" where
  "armed T m \<longleftrightarrow>
     (\<forall>i t. lm_tasks m i = Some t \<longrightarrow> task_ok T m i t) \<and>
     (\<forall>i. lm_auto_lock_task m = Some i \<longrightarrow> i < lm_fresh m) \<and>
     (lm_state m \<noteq> Locked \<longrightarrow> (\<exists>i t. live_timer m i t))"

lemma armedI:
  assumes "\<And>i t. lm_tasks m i = Some t \<Longrightarrow> task_ok T m i t"
    and "\<And>i. lm_auto_lock_task m = Some i \<Longrightarrow> i < lm_fresh m"
    and "lm_state m \<noteq> Locked \<Longrightarrow> \<exists>i t. live_timer m i t"
  shows "armed T m"
  using assms by (auto simp: armed_def)

lemma armedD:
  assumes "armed T m"
  shows "lm_tasks m i = Some t \<Longrightarrow> task_ok T m i t"
    and "lm_auto_lock_task m = Some i \<Longrightarrow> i < lm_fresh m"
    and "lm_state m \<noteq> Locked \<Longrightarrow> \<exists>i t. live_timer m i t"
  using assms by (auto simp: armed_def)

lemma armed_new: "armed T manager_new"
  by (simp add: armed_def manager_new_def)

text \<open>The invariant does not look at the contents of the session.\<close>

lemma armed_session:
  assumes "armed T m" and "st = Locked \<or> lm_state m \<noteq> Locked"
  shows "armed T (m\<lparr>lm_state := st\<rparr>)"
  using assms by (auto simp: armed_def task_ok_def live_timer_def)

lemma update_session_Locked [simp]: "update_session f st = Locked \<longleftrightarrow> st = Locked"
  by (cases st) auto

lemma armed_update: "armed T m \<Longrightarrow> armed T (m\<lparr>lm_state := update_session f (lm_state m)\<rparr>)"
  by (rule armed_session) auto

lemma armed_permits: "armed T m \<Longrightarrow> armed T (m\<lparr>lm_permits := p\<rparr>)"
  by (simp add: armed_def task_ok_def live_timer_def)

lemma armed_tick:
  assumes "armed T m"
  shows "armed T (m\<lparr>lm_now := lm_now m + d\<rparr>)"
proof (rule armedI, goal_cases)
  case (1 i t)
  then have "task_ok T m i t" using armedD(1) [OF assms] by simp
  then show ?case by (auto simp: task_ok_def)
qed (use armedD(2,3) [OF assms] in \<open>simp_all add: live_timer_def\<close>)

text \<open>A task may be dropped when it is aborted, stale, or has locked the vault.\<close>

lemma armed_drop:
  assumes "armed T m" and "lm_state m = Locked \<or> (\<forall>t. \<not> live_timer m i t)"
  shows "armed T (drop_task i m)"
proof (rule armedI, goal_cases)
  case (1 j t)
  then show ?case
    using armedD(1) [OF assms(1), of j t] by (simp add: drop_task_def task_ok_def split: if_splits)
next
  case 3
  then obtain j t where "live_timer m j t" "j \<noteq> i"
    using armedD(3) [OF assms(1)] assms(2) by (auto simp: drop_task_def)
  then have "live_timer (drop_task i m) j t" by (simp add: live_timer_def drop_task_def)
  then show ?case by blast
qed (use armedD(2) [OF assms(1)] in \<open>simp add: drop_task_def\<close>)

lemma push_deadline_ok:
  assumes "tt_timeout t \<le> T" and "lm_now m + T \<le> INSTANT_MAX"
  shows "push_deadline i t m =
    m\<lparr>lm_tasks := (lm_tasks m)(i \<mapsto> t\<lparr>tt_deadline := Some (lm_now m + tt_timeout t)\<rparr>)\<rparr>"
  using assms by (simp add: push_deadline_def)

lemma armed_push:
  assumes "armed T m" and "lm_tasks m i = Some t" and "lm_now m + T \<le> INSTANT_MAX"
  shows "armed T (push_deadline i t m)"
proof -
  have ok: "task_ok T m i t" using armedD(1) [OF assms(1,2)] .
  then have p: "push_deadline i t m =
    m\<lparr>lm_tasks := (lm_tasks m)(i \<mapsto> t\<lparr>tt_deadline := Some (lm_now m + tt_timeout t)\<rparr>)\<rparr>"
    using assms(3) by (intro push_deadline_ok) (auto simp: task_ok_def)
  show ?thesis unfolding p
  proof (rule armedI, goal_cases)
    case (1 j u)
    then show ?case
      using ok armedD(1) [OF assms(1), of j u] by (auto simp: task_ok_def split: if_splits)
  next
    case 3
    then obtain j u where "live_timer m j u" using armedD(3) [OF assms(1)] by auto
    then show ?case
      using assms(2) by (cases "j = i") (auto simp: live_timer_def)
  qed (use armedD(2) [OF assms(1)] in simp)
qed

lemma armed_start: "armed T m \<Longrightarrow> lm_now m + T \<le> INSTANT_MAX \<Longrightarrow> armed T (task_start i m)"
  by (auto simp: task_start_def armed_push split: option.splits)

lemma armed_fire:
  assumes "armed T m"
  shows "armed T (task_fire i m)"
proof -
  have "armed T (drop_task i (m\<lparr>lm_state := Locked\<rparr>))"
    by (rule armed_drop) (auto intro: armed_session assms)
  moreover have "armed T (drop_task i m)" if "lm_tasks m i = Some t" "lm_generation m \<noteq> tt_generation t" for t
    by (rule armed_drop) (use that assms in \<open>auto simp: live_timer_def\<close>)
  ultimately show ?thesis
    using assms by (auto simp: task_fire_def split: option.splits)
qed

lemma armed_notified:
  assumes "armed T m" and "lm_now m + T \<le> INSTANT_MAX"
  shows "armed T (task_notified i m)"
proof (cases "lm_tasks m i")
  case (Some t)
  let ?m = "m\<lparr>lm_permits := (lm_permits m)(tt_notify t := False)\<rparr>"
  have a: "armed T ?m" using assms(1) by (rule armed_permits)
  have "armed T (drop_task i ?m)" if "lm_generation m \<noteq> tt_generation t"
    by (rule armed_drop [OF a]) (use that Some in \<open>auto simp: live_timer_def\<close>)
  moreover have "armed T (push_deadline i t ?m)"
    by (rule armed_push [OF a]) (use Some assms(2) in auto)
  ultimately show ?thesis using Some assms(1) by (auto simp: task_notified_def Let_def)
qed (use assms in \<open>simp add: task_notified_def\<close>)

lemma armed_reap:
  assumes "armed T m"
  shows "armed T (task_reap i m)"
proof -
  have "armed T (drop_task i m)" if "lm_tasks m i = Some t" "tt_aborted t" for t
    by (rule armed_drop [OF assms]) (use that in \<open>auto simp: live_timer_def\<close>)
  then show ?thesis using assms by (auto simp: task_reap_def split: option.splits)
qed

text \<open>
  Advancing the generation makes every task stale; what is left of the invariant while
  the calls \<open>lock\<close> and \<open>unlock\<close> are under way.
\<close>

definition stale_tasks :: "duration \<Rightarrow> lock_manager \<Rightarrow> bool" where
  "stale_tasks T m \<longleftrightarrow>
     (\<forall>i t. lm_tasks m i = Some t \<longrightarrow> i < lm_fresh m \<and> tt_timeout t \<le> T \<and>
        unat (tt_generation t) < unat (lm_generation m) \<and>
        (\<forall>d. tt_deadline t = Some d \<longrightarrow> d \<le> lm_now m + tt_timeout t)) \<and>
     (\<forall>i. lm_auto_lock_task m = Some i \<longrightarrow> i < lm_fresh m)"

lemma stale_next_generation:
  assumes "armed T m" and "unat (lm_generation m) + 1 < 2 ^ 64"
  shows "stale_tasks T (m\<lparr>lm_generation := lm_generation m + 1, lm_state := st\<rparr>)"
proof -
  have "unat (lm_generation m + 1) = unat (lm_generation m) + 1"
    using assms(2) by (simp add: unat_word_ariths)
  then show ?thesis using assms(1) by (fastforce simp: stale_tasks_def armed_def task_ok_def)
qed

lemma stale_cancel: "stale_tasks T m \<Longrightarrow> stale_tasks T (cancel_auto_lock m)"
  by (fastforce simp: stale_tasks_def cancel_auto_lock_def abort_task_def split: option.splits)

lemma stale_armed: "stale_tasks T m \<Longrightarrow> lm_state m = Locked \<Longrightarrow> armed T m"
  by (fastforce simp: stale_tasks_def armed_def task_ok_def)

lemma cancel_sel [simp]:
  "lm_state (cancel_auto_lock m) = lm_state m"
  "lm_generation (cancel_auto_lock m) = lm_generation m"
  "lm_now (cancel_auto_lock m) = lm_now m"
  "lm_notify (cancel_auto_lock m) = lm_notify m"
  "lm_fresh (cancel_auto_lock m) = lm_fresh m"
  by (simp_all add: cancel_auto_lock_def abort_task_def split: option.splits)

lemma restart_sel [simp]:
  "lm_state (restart_auto_lock T g m) = lm_state m"
  "lm_generation (restart_auto_lock T g m) = lm_generation m"
  "lm_now (restart_auto_lock T g m) = lm_now m"
  by (simp_all add: restart_auto_lock_def rotate_notify_def spawn_timer_def Let_def)

lemma restart_armed:
  assumes "stale_tasks T m" and "timeout \<le> T"
  shows "armed T (restart_auto_lock timeout (lm_generation m) m)"
  using stale_cancel [OF assms(1)] assms(2)
  by (fastforce simp: stale_tasks_def armed_def task_ok_def live_timer_def restart_auto_lock_def
      rotate_notify_def spawn_timer_def Let_def)

lemma armed_unlock:
  assumes "armed T m" and "unat (lm_generation m) + 1 < 2 ^ 64" and "timeout \<le> T"
  shows "armed T (unlock_with_plaintext_json_with_context m pj timeout a oc r)"
  using restart_armed [OF stale_next_generation [OF assms(1,2)] assms(3)]
  by (simp add: unlock_with_plaintext_json_with_context_def next_generation_def Let_def)

lemma armed_lock:
  assumes "armed T m" and "unat (lm_generation m) + 1 < 2 ^ 64"
  shows "armed T (lock m)"
  using stale_armed [OF stale_cancel [OF stale_next_generation [OF assms, of Locked]]]
  by (simp add: lock_def next_generation_def Let_def)

lemma armed_edit: "armed T m \<Longrightarrow> armed T (fst (with_unlocked_payload_mut J m f))"
  by (auto simp: with_unlocked_payload_mut_def split: vault_state.splits option.splits prod.splits
      intro: armed_session)

lemmas session_ops = refresh_runtime_policy_state_def set_runtime_policy_state_def
  mark_strong_reauth_required_def clear_strong_reauth_requirement_def

lemma armed_step:
  assumes "armed T m" and "within T m e"
  shows "armed T (exec_event m e)"
  using assms
  by (cases e) (auto simp: within_def handle_runtime_security_event_def session_ops notify_activity_def
      armed_unlock armed_lock armed_permits armed_update armed_edit armed_tick armed_start
      armed_fire armed_notified armed_reap)

interpretation timer: step_invariant exec_event "within T" "armed T" for T
  by unfold_locales (rule armed_step)

section \<open>What a run can do to a session\<close>

definition session_all :: "(session_state \<Rightarrow> bool) \<Rightarrow> lock_manager \<Rightarrow> bool" where
  "session_all P m \<longleftrightarrow> (case lm_state m of Locked \<Rightarrow> True | Unlocked s \<Rightarrow> P s)"

fun is_unlock :: "lock_event \<Rightarrow> bool" where
  "is_unlock (EvUnlock _ _ _ _ _) = True"
| "is_unlock _ = False"

lemma session_allI: "(\<And>s. lm_state m = Unlocked s \<Longrightarrow> P s) \<Longrightarrow> session_all P m"
  by (cases "lm_state m") (auto simp: session_all_def)

lemma session_all_update:
  "session_all P m \<Longrightarrow> (\<And>s. P s \<Longrightarrow> P (f s)) \<Longrightarrow>
     session_all P (m\<lparr>lm_state := update_session f (lm_state m)\<rparr>)"
  by (cases "lm_state m") (auto simp: session_all_def)

lemma task_state:
  "lm_state (task_start i m) = lm_state m"
  "lm_state (task_notified i m) = lm_state m"
  "lm_state (task_reap i m) = lm_state m"
  "lm_state (task_fire i m) = lm_state m \<or> lm_state (task_fire i m) = Locked"
  by (auto simp: task_start_def task_notified_def task_reap_def task_fire_def push_deadline_def
      drop_task_def Let_def split: option.splits)

lemma lock_state [simp]: "lm_state (lock m) = Locked"
  by (simp add: lock_def next_generation_def Let_def)

lemma notify_activity_state [simp]: "lm_state (notify_activity m) = lm_state m"
  by (simp add: notify_activity_def)

text \<open>
  A predicate on the session that the setters keep is kept by every event but a new
  unlock.
\<close>

lemma session_step:
  assumes inv: "session_all P m" and "\<not> is_unlock e"
    and rt: "\<And>s r. P s \<Longrightarrow> P (on_runtime_state r s)"
    and mark: "\<And>s. P s \<Longrightarrow> P (s\<lparr>us_strong_reauth_required := True\<rparr>)"
    and clear: "\<And>s. P s \<Longrightarrow> e = EvClear \<Longrightarrow> P (s\<lparr>us_strong_reauth_required := False\<rparr>)"
    and edit: "\<And>s j. P s \<Longrightarrow> P (s\<lparr>us_plaintext_json := j\<rparr>)"
  shows "session_all P (exec_event m e)"
proof (cases e)
  case (EvEdit J f)
  then show ?thesis
    using inv edit by (auto simp: with_unlocked_payload_mut_def session_all_def
        split: vault_state.splits option.splits)
next
  case (EvFire i)
  then show ?thesis using inv task_state(4) [of i m] by (auto simp: session_all_def)
next
  case (EvSecurity x)
  then show ?thesis
    using inv session_all_update [OF inv mark]
    by (auto simp: handle_runtime_security_event_def session_ops session_all_def [of P "lock m"])
qed (use assms(2) inv session_all_update [OF inv rt] session_all_update [OF inv mark]
      session_all_update [OF inv clear] in
    \<open>auto simp: session_ops task_state session_all_def [of P "lock m"]
      session_all_def [of P "notify_activity m"] session_all_def [of P "m\<lparr>lm_now := t\<rparr>" for t]
      session_all_def [of P "task_start i m" for i] session_all_def [of P "task_notified i m" for i]
      session_all_def [of P "task_reap i m" for i] session_all_def [of P m]\<close>)

lemma on_runtime_state_sel [simp]:
  "us_unlock_outcome (on_runtime_state r s) = us_unlock_outcome s"
  "us_auth_strength (on_runtime_state r s) = us_auth_strength s"
  "us_strong_reauth_required (on_runtime_state r s) =
     (us_strong_reauth_required s \<or> r \<noteq> NotDebugged)"
  "us_runtime_state (on_runtime_state r s) = r"
  "us_plaintext_json (on_runtime_state r s) = us_plaintext_json s"
  by (simp_all add: on_runtime_state_def Let_def)

text \<open>The outcome and the strength of a session last as long as it does.\<close>

interpretation origin: step_invariant exec_event "\<lambda>_ e. \<not> is_unlock e"
  "session_all (\<lambda>s. us_unlock_outcome s = oc \<and> us_auth_strength s = st)" for oc st
  by unfold_locales (rule session_step, simp_all)

text \<open>The re-authentication flag stays up until a call clears it.\<close>

interpretation reauth: step_invariant exec_event "\<lambda>_ e. \<not> is_unlock e \<and> e \<noteq> EvClear"
  "session_all us_strong_reauth_required"
  by unfold_locales (rule session_step, auto)

text \<open>Nothing but an unlock opens a locked vault.\<close>

interpretation locked: step_invariant exec_event "\<lambda>_ e. \<not> is_unlock e" "session_all (\<lambda>_. False)"
  by unfold_locales (rule session_step, simp_all)

text \<open>The registered timer keeps the timeout of the unlock that has started it.\<close>

definition timer_timeout :: "duration \<Rightarrow> lock_manager \<Rightarrow> bool" where
  "timer_timeout timeout m \<longleftrightarrow>
     (\<forall>i t. lm_auto_lock_task m = Some i \<longrightarrow> lm_tasks m i = Some t \<longrightarrow> tt_timeout t = timeout)"

lemma timer_timeout_task:
  assumes "timer_timeout timeout m"
  shows "timer_timeout timeout (task_start i m)" "timer_timeout timeout (task_fire i m)"
    "timer_timeout timeout (task_notified i m)" "timer_timeout timeout (task_reap i m)"
  using assms by (auto simp: timer_timeout_def task_start_def task_fire_def task_notified_def task_reap_def
      push_deadline_def drop_task_def Let_def split: option.splits if_splits)

lemma cancel_none [simp]: "lm_auto_lock_task (cancel_auto_lock m) = None"
  by (simp add: cancel_auto_lock_def abort_task_def split: option.splits)

interpretation timeout: step_invariant exec_event "\<lambda>_ e. \<not> is_unlock e" "timer_timeout timeout" for timeout
proof unfold_locales
  show "timer_timeout timeout (exec_event m e)" if "timer_timeout timeout m" "\<not> is_unlock e" for m e
    using that
    by (cases e; simp add: timer_timeout_task)
      (auto simp: timer_timeout_def handle_runtime_security_event_def session_ops notify_activity_def lock_def
        next_generation_def with_unlocked_payload_mut_def Let_def
        split: vault_state.splits option.splits prod.splits)
qed

lemma unlock_timeout: "timer_timeout timeout (unlock_with_plaintext_json_with_context m pj timeout a oc r)"
  by (simp add: timer_timeout_def unlock_with_plaintext_json_with_context_def restart_auto_lock_def rotate_notify_def
      spawn_timer_def next_generation_def Let_def)

lemma session_all_False: "session_all (\<lambda>_. False) m \<longleftrightarrow> lm_state m = Locked"
  by (simp add: session_all_def split: vault_state.splits)

lemma unlock_state:
  "lm_state (unlock_with_plaintext_json_with_context m pj timeout a oc r) = open_session pj a oc r"
  by (simp add: unlock_with_plaintext_json_with_context_def next_generation_def Let_def)

text \<open>Authorisation, as a function of the session.\<close>

lemma authorize_session:
  "authorize_sensitive_operation m op =
    (case lm_state m of
       Locked \<Rightarrow> Inl VaultLocked
     | Unlocked s \<Rightarrow>
         if us_unlock_outcome s \<noteq> Primary \<or> us_runtime_state s \<noteq> NotDebugged then Inl PolicyDenied
         else if us_strong_reauth_required s \<or> us_auth_strength s \<noteq> Strong then Inl ReauthRequired
         else Inr (policy_from_parts Primary NotDebugged))"
  by (auto simp: authorize_sensitive_operation_def current_policy_context_def requires_strong_reauth_for_def
      split: vault_state.splits)

section \<open>Properties\<close>

text \<open>A run for the witnesses: an unlock, some use of the session, the timer starting.\<close>
definition demo_run :: "lock_event list" where
  "demo_run = [EvUnlock [1] 5 Strong Primary NotDebugged, EvTick 2, EvMark, EvClear, EvStart 2, EvActivity]"

lemma demo_run_within: "run_within (within 60) exec_event manager_new demo_run"
  by (simp add: demo_run_def within_def manager_new_def unlock_with_plaintext_json_with_context_def
      next_generation_def restart_auto_lock_def cancel_auto_lock_def rotate_notify_def spawn_timer_def
      session_ops task_start_def push_deadline_def INSTANT_MAX_def open_session_def)

definition demo_manager :: lock_manager where
  "demo_manager = run_manager manager_new demo_run"

lemma demo_manager_sel:
  "lm_state demo_manager = Unlocked \<lparr>us_plaintext_json = [1], us_auth_strength = Strong,
     us_strong_reauth_required = False, us_unlock_outcome = Primary, us_runtime_state = NotDebugged\<rparr>"
  "lm_auto_lock_task demo_manager = Some 2" "lm_now demo_manager = 2" "lm_notify demo_manager = 1"
  "lm_tasks demo_manager 2 = Some \<lparr>tt_generation = 2, tt_notify = 1, tt_timeout = 5,
     tt_deadline = Some 7, tt_aborted = False\<rparr>"
  by (simp_all add: demo_manager_def demo_run_def manager_new_def unlock_with_plaintext_json_with_context_def
      next_generation_def restart_auto_lock_def cancel_auto_lock_def rotate_notify_def spawn_timer_def
      session_ops task_start_def push_deadline_def INSTANT_MAX_def open_session_def notify_activity_def)

text \<open>C2. Whatever sequence of manager calls, timer steps and passing time has happened within the bounds of the
  machine (every timeout given to an unlock is at most \<open>T\<close>, the clock has stayed at least \<open>T\<close> away from the
  end of its range, and the generation counter has not wrapped around), an unlocked vault has its
  auto-lock task: registered as the current one, not aborted, of the current generation, listening to the
  current \<open>Notify\<close>, and with a deadline at most its timeout away. Outside the bounds it fails: see
  \<open>overlong_timeout_never_locks\<close>.\<close>

theorem unlocked_vault_has_live_timer:
  assumes "run_within (within T) exec_event manager_new evs"
    and "m = run_manager manager_new evs" and "lm_state m \<noteq> Locked"
  shows "\<exists>i t. lm_auto_lock_task m = Some i \<and> lm_tasks m i = Some t \<and> \<not> tt_aborted t \<and>
    tt_generation t = lm_generation m \<and> tt_notify t = lm_notify m \<and> tt_timeout t \<le> T \<and>
    (\<forall>d. tt_deadline t = Some d \<longrightarrow> d \<le> lm_now m + tt_timeout t)"
proof -
  have a: "armed T m" using timer.run_inv [OF armed_new assms(1)] assms(2) by simp
  then obtain i t where l: "live_timer m i t" using armedD(3) assms(3) by blast
  then have "task_ok T m i t" using armedD(1) [OF a] by (auto simp: live_timer_def)
  with l show ?thesis by (auto simp: live_timer_def task_ok_def)
qed

theorem unlocked_vault_has_live_timer_witness:
  "\<exists>i t. lm_auto_lock_task demo_manager = Some i \<and> lm_tasks demo_manager i = Some t \<and>
     tt_generation t = lm_generation demo_manager \<and> tt_timeout t \<le> 60"
  using unlocked_vault_has_live_timer [OF demo_run_within demo_manager_def] demo_manager_sel(1) by auto

text \<open>Finding. A timeout past the end of the clock, \<open>Duration::MAX\<close> for one, is accepted by the unlock and
  kills the auto-lock task on its first poll: \<open>Instant::now() + timeout\<close> panics. The vault stays open, with the
  handle of a dead task registered, and no timer step, activity or passing of time ever locks it.\<close>

fun timer_event :: "lock_event \<Rightarrow> bool" where
  "timer_event EvActivity = True" | "timer_event (EvTick d) = True" | "timer_event (EvStart i) = True"
| "timer_event (EvFire i) = True" | "timer_event (EvNotified i) = True" | "timer_event (EvReap i) = True"
| "timer_event _ = False"

definition unguarded :: "lock_manager \<Rightarrow> bool" where
  "unguarded m \<longleftrightarrow> lm_state m \<noteq> Locked \<and> (\<forall>i t. lm_tasks m i = Some t \<longrightarrow> tt_generation t \<noteq> lm_generation m)"

interpretation unguarded: step_invariant exec_event "\<lambda>_ e. timer_event e" unguarded
proof unfold_locales
  show "unguarded (exec_event m e)" if "unguarded m" "timer_event e" for m e
    using that by (cases e) (auto simp: unguarded_def notify_activity_def task_start_def task_fire_def task_notified_def
        task_reap_def push_deadline_def drop_task_def Let_def split: option.splits if_splits, blast+)
qed

lemma overlong_timeout_never_locks:
  assumes "run_within (within T) exec_event manager_new evs" and "m = run_manager manager_new evs"
    and "unat (lm_generation m) + 1 < 2 ^ 64" and "lm_now m + timeout > INSTANT_MAX"
    and "m' = unlock_with_plaintext_json_with_context m pj timeout st oc rt" and "\<forall>e\<in>set later. timer_event e"
  shows "\<exists>i. lm_auto_lock_task m' = Some i \<and>
    lm_state (run_manager m' (EvStart i # later)) \<noteq> Locked"
proof -
  have a: "armed T m" using timer.run_inv [OF armed_new assms(1)] assms(2) by simp
  let ?i = "lm_fresh m + 1"
  have st: "stale_tasks T (cancel_auto_lock (m\<lparr>lm_generation := lm_generation m + 1, lm_state := open_session pj st oc rt\<rparr>))"
    by (rule stale_cancel [OF stale_next_generation [OF a assms(3)]])
  have old: "tt_generation t \<noteq> lm_generation m'" if "lm_tasks m' j = Some t" "j \<noteq> ?i" for j t
    using st that unfolding assms(5)
    by (fastforce simp: stale_tasks_def unlock_with_plaintext_json_with_context_def restart_auto_lock_def rotate_notify_def
        spawn_timer_def next_generation_def Let_def)
  have new: "lm_auto_lock_task m' = Some ?i" "lm_tasks m' ?i \<noteq> None" "lm_state m' \<noteq> Locked" "lm_now m' = lm_now m"
    "\<And>t. lm_tasks m' ?i = Some t \<Longrightarrow> tt_timeout t = timeout \<and> tt_deadline t = None"
    by (simp_all add: assms(5) unlock_with_plaintext_json_with_context_def restart_auto_lock_def rotate_notify_def
        spawn_timer_def next_generation_def open_session_def Let_def)
  have "unguarded (exec_event m' (EvStart ?i))"
    using old new assms(4) by (auto simp: unguarded_def task_start_def push_deadline_def drop_task_def split: option.splits)
  from unguarded.run_inv_all [OF this, of later] assms(6) new(1) show ?thesis by (simp add: unguarded_def)
qed

text \<open>C13. An idle vault is locked by the timeout it was unlocked with: in the session of the last unlock of a run
  (within the bounds: timeouts at most \<open>T\<close>, the clock at least \<open>T\<close> away from its end, the generation not
  wrapped), whatever calls, activity and timer steps have followed the unlock, the registered task has the
  timeout of that unlock, and once it has been polled and that much time has passed its expiry locks the
  vault and the plaintext is gone with the session. Timeouts of earlier sessions, longer or shorter, play
  no part.\<close>

theorem idle_vault_locks:
  assumes "run_within (within T) exec_event manager_new (before @ EvUnlock pj timeout st oc rt # since)"
    and "\<forall>e\<in>set since. \<not> is_unlock e"
    and "m = run_manager manager_new (before @ EvUnlock pj timeout st oc rt # since)" and "lm_state m \<noteq> Locked"
    and "lm_now m + timeout \<le> INSTANT_MAX" and "timeout \<le> d"
  shows "\<exists>i t. lm_auto_lock_task m = Some i \<and> lm_tasks m i = Some t \<and> tt_timeout t = timeout \<and>
    lm_state (run_manager m [EvStart i, EvTick d, EvFire i]) = Locked"
proof -
  have a: "armed T m" using timer.run_inv [OF armed_new assms(1)] assms(3) by simp
  then obtain i t where l: "live_timer m i t" using armedD(3) assms(4) by blast
  then have ok: "task_ok T m i t" using armedD(1) [OF a] by (auto simp: live_timer_def)
  have "timer_timeout timeout m"
    unfolding assms(3) run_append run.simps exec_event.simps
    by (rule timeout.run_inv_all [OF unlock_timeout]) (use assms(2) in simp)
  with l have tt: "tt_timeout t = timeout" by (simp add: timer_timeout_def live_timer_def)
  then have "push_deadline i t m =
      m\<lparr>lm_tasks := (lm_tasks m)(i \<mapsto> t\<lparr>tt_deadline := Some (lm_now m + timeout)\<rparr>)\<rparr>"
    using push_deadline_ok [of t timeout m i] assms(5) by simp
  with l ok tt assms(6) show ?thesis
    by (intro exI [of _ i] exI [of _ t]) (auto simp: live_timer_def task_ok_def task_start_def task_fire_def drop_task_def
        split: option.splits)
qed

text \<open>The second session has the shorter timeout.\<close>

definition demo_reunlock :: "lock_event list" where
  "demo_reunlock = [EvUnlock [1] 60 Strong Primary NotDebugged, EvStart 2, EvTick 2,
     EvUnlock [1] 5 Strong Primary NotDebugged, EvActivity]"

lemma demo_reunlock_within: "run_within (within 60) exec_event manager_new demo_reunlock"
  by (simp add: demo_reunlock_def within_def manager_new_def unlock_with_plaintext_json_with_context_def
      next_generation_def restart_auto_lock_def cancel_auto_lock_def abort_task_def rotate_notify_def spawn_timer_def
      task_start_def push_deadline_def INSTANT_MAX_def open_session_def notify_activity_def)

lemma demo_reunlock_sel:
  "lm_state (run_manager manager_new demo_reunlock) \<noteq> Locked" "lm_now (run_manager manager_new demo_reunlock) = 2"
  by (simp_all add: demo_reunlock_def manager_new_def unlock_with_plaintext_json_with_context_def
      next_generation_def restart_auto_lock_def cancel_auto_lock_def abort_task_def rotate_notify_def spawn_timer_def
      task_start_def push_deadline_def INSTANT_MAX_def open_session_def notify_activity_def)

theorem idle_vault_locks_witness:
  "\<exists>i. lm_auto_lock_task (run_manager manager_new demo_reunlock) = Some i \<and>
     lm_state (run_manager (run_manager manager_new demo_reunlock) [EvStart i, EvTick 5, EvFire i]) = Locked"
proof -
  have d: "demo_reunlock = [EvUnlock [1] 60 Strong Primary NotDebugged, EvStart 2, EvTick 2] @
      EvUnlock [1] 5 Strong Primary NotDebugged # [EvActivity]" by (simp add: demo_reunlock_def)
  have "lm_now (run_manager manager_new demo_reunlock) + 5 \<le> INSTANT_MAX" "\<forall>e\<in>set [EvActivity]. \<not> is_unlock e"
    by (simp_all add: demo_reunlock_sel INSTANT_MAX_def)
  from idle_vault_locks [OF demo_reunlock_within [unfolded d] this(2) refl demo_reunlock_sel(1) [unfolded d]
      this(1) [unfolded d] order_refl] show ?thesis unfolding d by blast
qed

text \<open>Stale timers are harmless: no step of a task that is not the registered one, aborted or
  not, changes the session or the generation, or disturbs the live timer.\<close>

lemma stale_timer_harmless:
  assumes "run_within (within T) exec_event manager_new evs"
    and "m = run_manager manager_new evs"
    and "lm_auto_lock_task m \<noteq> Some i" and "e \<in> {EvStart i, EvFire i, EvNotified i, EvReap i}"
  shows "lm_state (exec_event m e) = lm_state m \<and> lm_generation (exec_event m e) = lm_generation m \<and>
    (\<forall>j t. live_timer m j t \<longrightarrow> live_timer (exec_event m e) j t)"
proof -
  have a: "armed T m" using timer.run_inv [OF armed_new assms(1)] assms(2) by simp
  have "tt_generation t \<noteq> lm_generation m" if "lm_tasks m i = Some t" for t
    using armedD(1) [OF a that] assms(3) by (auto simp: task_ok_def)
  then have "lm_state (task_fire i m) = lm_state m"
    by (auto simp: task_fire_def drop_task_def split: option.splits)
  moreover have "lm_generation (exec_event m e) = lm_generation m"
    using assms(4) by (auto simp: task_start_def task_fire_def task_notified_def task_reap_def
        drop_task_def push_deadline_def Let_def split: option.splits)
  moreover have "live_timer (exec_event m e) j t" if "live_timer m j t" for j t
    using that assms(3,4) by (auto simp: live_timer_def task_start_def task_fire_def task_notified_def
        task_reap_def drop_task_def push_deadline_def Let_def split: option.splits)
  ultimately show ?thesis using assms(4) by (auto simp: task_state)
qed

text \<open>Activity keeps a session open: once the timer has observed a \<open>notify_activity\<close>, no task
  of any generation locks the vault before its whole timeout has passed again.\<close>

lemma activity_extends_session:
  assumes "run_within (within T) exec_event manager_new evs"
    and "m = run_manager manager_new evs" and "lm_state m \<noteq> Locked"
    and "lm_now m + T \<le> INSTANT_MAX"
    and "lm_auto_lock_task m = Some i" and "lm_tasks m i = Some t" and "tt_deadline t \<noteq> None"
    and "d < tt_timeout t"
  shows "lm_state (run_manager m [EvActivity, EvNotified i, EvTick d, EvFire j]) = lm_state m"
proof -
  have a: "armed T m" using timer.run_inv [OF armed_new assms(1)] assms(2) by simp
  then obtain i' t' where "live_timer m i' t'" using armedD(3) assms(3) by blast
  then have l: "live_timer m i t" using assms(5,6) by (auto simp: live_timer_def)
  have g: "tt_generation u \<noteq> lm_generation m" if "lm_tasks m k = Some u" "k \<noteq> i" for k u
    using armedD(1) [OF a that(1)] that(2) assms(5) by (auto simp: task_ok_def)
  have to: "tt_timeout t \<le> T" using armedD(1) [OF a assms(6)] by (simp add: task_ok_def)
  let ?m1 = "m\<lparr>lm_permits := (lm_permits m)(lm_notify m := False)\<rparr>"
  have "task_notified i (notify_activity m) = push_deadline i t ?m1"
    using l assms(7) by (auto simp: task_notified_def notify_activity_def live_timer_def Let_def)
  also have "\<dots> = ?m1\<lparr>lm_tasks := (lm_tasks m)(i \<mapsto> t\<lparr>tt_deadline := Some (lm_now m + tt_timeout t)\<rparr>)\<rparr>"
    using to assms(4) by (subst push_deadline_ok [where T = T]) simp_all
  finally show ?thesis
    using assms(8) by (cases "j = i") (auto simp: task_fire_def drop_task_def dest: g split: option.splits)
qed

text \<open>Authorisation of a sensitive operation is decided by the session alone and the same for
  every operation: granted exactly to an unlocked, primary, strongly authenticated session in an
  unrestricted runtime with no pending re-authentication; a locked vault, a policy violation and
  a missing re-authentication are reported in this order of precedence.\<close>

lemma authorize_exactly:
  "authorize_sensitive_operation m op =
    (case lm_state m of
       Locked \<Rightarrow> Inl VaultLocked
     | Unlocked s \<Rightarrow>
         if us_unlock_outcome s = Decoy \<or> is_restrictive (us_runtime_state s) then Inl PolicyDenied
         else if us_auth_strength s = Strong \<and> \<not> us_strong_reauth_required s
         then Inr \<lparr>pc_outcome = Primary, pc_runtime_state = NotDebugged\<rparr>
         else Inl ReauthRequired)"
  by (auto simp: authorize_session policy_from_parts_def not_Decoy_iff [symmetric] split: vault_state.splits)

text \<open>C6. A session opened as a decoy, or with a convenience factor, never becomes able to perform a
  sensitive operation: not by clearing the re-authentication requirement, not by a runtime state
  that turns benign, not by any sequence of calls and timer steps short of a new unlock.\<close>

theorem weak_session_never_authorized:
  assumes "oc = Decoy \<or> st \<noteq> Strong" and "\<forall>e\<in>set evs. \<not> is_unlock e"
    and "m' = run_manager (unlock_with_plaintext_json_with_context m pj timeout st oc rt) evs"
  shows "\<exists>err. authorize_sensitive_operation m' op = Inl err \<and>
    err \<in> {VaultLocked, PolicyDenied, ReauthRequired}"
proof -
  have "session_all (\<lambda>s. us_unlock_outcome s = oc \<and> us_auth_strength s = st) m'"
    unfolding assms(3)
    by (rule origin.run_inv_all) (use assms(2) in \<open>auto simp: session_all_def unlock_state open_session_def\<close>)
  then show ?thesis
    using assms(1) by (auto simp: authorize_session session_all_def split: vault_state.splits)
qed

theorem weak_session_never_authorized_witness:
  "\<not> is_ok (authorize_sensitive_operation
     (run_manager (unlock_with_plaintext_json_with_context manager_new [1] 5 Biometric Primary NotDebugged)
        [EvClear, EvSetRuntime NotDebugged]) RevealSecret)"
  using weak_session_never_authorized [of Primary Biometric "[EvClear, EvSetRuntime NotDebugged]", OF _ _ refl,
      of manager_new "[1]" 5 NotDebugged RevealSecret]
  by (auto simp del: run.simps)

text \<open>C40. Re-authentication is sticky: after the application was backgrounded, or the runtime was
  once seen as restrictive, no sensitive operation is authorised until an explicit clear or a
  new unlock, even when the runtime state has returned to normal.\<close>

theorem reauth_is_sticky:
  assumes "trigger = EvSecurity AppBackgrounded \<or> trigger = EvMark \<or>
      (\<exists>r. is_restrictive r \<and> (trigger = EvSetRuntime r \<or> trigger = EvRefresh r))"
    and "\<forall>e\<in>set evs. \<not> is_unlock e \<and> e \<noteq> EvClear"
  shows "\<not> is_ok (authorize_sensitive_operation (run_manager m (trigger # evs)) op)"
proof -
  have "session_all us_strong_reauth_required (exec_event m trigger)"
    using assms(1) by (cases "lm_state m")
      (auto simp: session_all_def session_ops handle_runtime_security_event_def)
  then have "session_all us_strong_reauth_required (run_manager (exec_event m trigger) evs)"
    by (rule reauth.run_inv_all) (use assms(2) in auto)
  then show ?thesis
    by (auto simp: authorize_session session_all_def is_ok_iff split: vault_state.splits if_splits)
qed

theorem reauth_is_sticky_witness:
  "\<not> is_ok (authorize_sensitive_operation
     (run_manager demo_manager (EvSetRuntime Debugged # [EvSetRuntime NotDebugged])) RevealSecret)"
  using reauth_is_sticky [of "EvSetRuntime Debugged" "[EvSetRuntime NotDebugged]"] by simp

text \<open>Locking is final until the next unlock: after \<open>lock\<close>, or any security event other than
  backgrounding, no run without an unlock finds the vault open, and every access to the payload
  finds nothing.\<close>

lemma locked_until_unlock:
  assumes "trigger = EvLock \<or> (\<exists>e. e \<noteq> AppBackgrounded \<and> trigger = EvSecurity e)"
    and "\<forall>e\<in>set evs. \<not> is_unlock e"
  shows "lm_state (run_manager m (trigger # evs)) = Locked \<and>
    get_payload J (run_manager m (trigger # evs)) = None \<and>
    with_unlocked_payload_mut J (run_manager m (trigger # evs)) f = (run_manager m (trigger # evs), None)"
proof -
  have "lm_state (exec_event m trigger) = Locked"
    using assms(1) by (auto simp: handle_runtime_security_event_def)
  then have "session_all (\<lambda>_. False) (run_manager (exec_event m trigger) evs)"
    using assms(2) by (intro locked.run_inv_all) (auto simp: session_all_False)
  then show ?thesis
    by (simp add: session_all_False get_payload_def with_unlocked_payload_mut_def)
qed

end
