(* ===== verification/Lock_Concurrent.thy ===== *)
theory Lock_Concurrent
  imports Lock_Runs
begin

text \<open>
  \<open>core/lock_state.rs\<close> under concurrency: \<open>unlock_with_plaintext_json_with_context\<close> and
  \<open>lock\<close> take \<open>&self\<close> and release the state mutex between their steps, so calls from
  different tasks interleave. Each call is a thread whose program counter walks through
  the same steps, in the source's order, as the sequential definitions of \<open>Lock_State\<close>.
\<close>

section \<open>Threads\<close>

datatype call =
  CallUnlock secret_bytes duration authentication_strength unlock_outcome runtime_inspection_state
| CallLock

datatype pc =
  Start call
| WriteUnlocked secret_bytes duration authentication_strength unlock_outcome runtime_inspection_state u64
| CancelOld duration u64
| Rotate duration u64
| Spawn duration u64 nat
| StoreHandle nat
| WriteLocked
| CancelTimer
| Done

fun exec_call :: "lock_manager \<Rightarrow> call \<Rightarrow> lock_manager" where
  "exec_call m (CallUnlock pj timeout st oc rt) = unlock_with_plaintext_json_with_context m pj timeout st oc rt"
| "exec_call m CallLock = lock m"

text \<open>The events of the tokio runtime and of the callers that do not start a new cycle.\<close>
fun background :: "lock_event \<Rightarrow> bool" where
  "background (EvUnlock _ _ _ _ _) = False"
| "background EvLock = False"
| "background (EvSecurity e) = (e = AppBackgrounded)"
| "background _ = True"

type_synonym cstate = "lock_manager \<times> (nat \<Rightarrow> pc)"

inductive cstep :: "cstate \<Rightarrow> cstate \<Rightarrow> bool" where
  unlock_generation: "P i = Start (CallUnlock pj timeout st oc rt) \<Longrightarrow> next_generation m = (g, m') \<Longrightarrow>
    cstep (m, P) (m', P(i := WriteUnlocked pj timeout st oc rt g))"
| unlock_write: "P i = WriteUnlocked pj timeout st oc rt g \<Longrightarrow>
    cstep (m, P) (m\<lparr>lm_state := open_session pj st oc rt\<rparr>, P(i := CancelOld timeout g))"
| unlock_cancel: "P i = CancelOld timeout g \<Longrightarrow> cstep (m, P) (cancel_auto_lock m, P(i := Rotate timeout g))"
| unlock_rotate: "P i = Rotate timeout g \<Longrightarrow> rotate_notify m = (n, m') \<Longrightarrow>
    cstep (m, P) (m', P(i := Spawn timeout g n))"
| unlock_spawn: "P i = Spawn timeout g n \<Longrightarrow> spawn_timer timeout g n m = (k, m') \<Longrightarrow>
    cstep (m, P) (m', P(i := StoreHandle k))"
| unlock_store: "P i = StoreHandle k \<Longrightarrow> cstep (m, P) (m\<lparr>lm_auto_lock_task := Some k\<rparr>, P(i := Done))"
| lock_generation: "P i = Start CallLock \<Longrightarrow> next_generation m = (g, m') \<Longrightarrow>
    cstep (m, P) (m', P(i := WriteLocked))"
| lock_write: "P i = WriteLocked \<Longrightarrow> cstep (m, P) (m\<lparr>lm_state := Locked\<rparr>, P(i := CancelTimer))"
| lock_cancel: "P i = CancelTimer \<Longrightarrow> cstep (m, P) (cancel_auto_lock m, P(i := Done))"
| environment: "background e \<Longrightarrow> cstep (m, P) (exec_event m e, P)"

lemmas rtranclp_then = converse_rtranclp_into_rtranclp

lemma unlock_tail:
  assumes "P i = WriteUnlocked pj timeout st oc rt g"
  shows "cstep\<^sup>*\<^sup>* (m, P) (restart_auto_lock timeout g (m\<lparr>lm_state := open_session pj st oc rt\<rparr>), P(i := Done))"
proof -
  let ?m1 = "m\<lparr>lm_state := open_session pj st oc rt\<rparr>"
  obtain n m3 where r: "rotate_notify (cancel_auto_lock ?m1) = (n, m3)" by fastforce
  obtain k m4 where s: "spawn_timer timeout g n m3 = (k, m4)" by fastforce
  have "cstep (m, P) (?m1, P(i := CancelOld timeout g))"
    using assms by (rule unlock_write [where P = P and i = i])
  moreover have "cstep (?m1, P(i := CancelOld timeout g)) (cancel_auto_lock ?m1, P(i := Rotate timeout g))"
    using unlock_cancel [where P = "P(i := CancelOld timeout g)" and i = i] by simp
  moreover have "cstep (cancel_auto_lock ?m1, P(i := Rotate timeout g)) (m3, P(i := Spawn timeout g n))"
    using unlock_rotate [where P = "P(i := Rotate timeout g)" and i = i, OF _ r] by simp
  moreover have "cstep (m3, P(i := Spawn timeout g n)) (m4, P(i := StoreHandle k))"
    using unlock_spawn [where P = "P(i := Spawn timeout g n)" and i = i, OF _ s] by simp
  moreover have "cstep (m4, P(i := StoreHandle k)) (m4\<lparr>lm_auto_lock_task := Some k\<rparr>, P(i := Done))"
    using unlock_store [where P = "P(i := StoreHandle k)" and i = i] by simp
  ultimately have "cstep\<^sup>*\<^sup>* (m, P) (m4\<lparr>lm_auto_lock_task := Some k\<rparr>, P(i := Done))"
    by (meson rtranclp_then rtranclp.rtrancl_refl)
  then show ?thesis by (simp add: restart_auto_lock_def r s)
qed

lemma lock_alone:
  assumes "P i = Start CallLock"
  shows "cstep\<^sup>*\<^sup>* (m, P) (lock m, P(i := Done))"
proof -
  obtain g m1 where n: "next_generation m = (g, m1)" by fastforce
  have "cstep (m, P) (m1, P(i := WriteLocked))"
    using assms n by (rule lock_generation [where P = P and i = i])
  moreover have "cstep (m1, P(i := WriteLocked)) (m1\<lparr>lm_state := Locked\<rparr>, P(i := CancelTimer))"
    using lock_write [where P = "P(i := WriteLocked)" and i = i] by simp
  moreover have "cstep (m1\<lparr>lm_state := Locked\<rparr>, P(i := CancelTimer))
      (cancel_auto_lock (m1\<lparr>lm_state := Locked\<rparr>), P(i := Done))"
    using lock_cancel [where P = "P(i := CancelTimer)" and i = i] by simp
  ultimately have "cstep\<^sup>*\<^sup>* (m, P) (cancel_auto_lock (m1\<lparr>lm_state := Locked\<rparr>), P(i := Done))"
    by (meson rtranclp_then rtranclp.rtrancl_refl)
  then show ?thesis by (simp add: lock_def n)
qed

section \<open>A vault without a timer of its own generation\<close>

text \<open>Every task is stale, and the vault is open.\<close>
definition unguarded :: "lock_manager \<Rightarrow> bool" where
  "unguarded m \<longleftrightarrow> lm_state m \<noteq> Locked \<and> (\<forall>i t. lm_tasks m i = Some t \<longrightarrow> lm_generation m \<noteq> tt_generation t)"

lemma unguarded_push:
  "unguarded m \<Longrightarrow> lm_tasks m i = Some t \<Longrightarrow> unguarded (push_deadline i t m)"
  by (auto simp: unguarded_def push_deadline_def drop_task_def)

lemma unguarded_background: "unguarded m \<Longrightarrow> background e \<Longrightarrow> unguarded (exec_event m e)"
proof (cases e)
  case (EvFire i)
  assume u: "unguarded m"
  then show ?thesis unfolding EvFire
    by (auto simp: unguarded_def task_fire_def drop_task_def split: option.splits)
next
  case (EvNotified i)
  assume u: "unguarded m"
  then show ?thesis unfolding EvNotified
    by (auto simp: unguarded_def task_notified_def drop_task_def Let_def split: option.splits)
next
  case (EvStart i)
  assume u: "unguarded m"
  then show ?thesis unfolding EvStart
    by (auto simp: task_start_def unguarded_push split: option.splits)
next
  case (EvEdit J f)
  assume u: "unguarded m"
  then show ?thesis unfolding EvEdit
    by (auto simp: unguarded_def with_unlocked_payload_mut_def split: vault_state.splits option.splits)
qed (auto simp: unguarded_def session_ops notify_activity_def task_reap_def drop_task_def
      handle_runtime_security_event_def split: option.splits)

interpretation forgotten: step_invariant exec_event "\<lambda>_ e. background e" unguarded
  by unfold_locales (rule unguarded_background)

text \<open>The tasks a call leaves behind: the old ones, possibly aborted, and the new one.\<close>

lemma cancel_tasks:
  "lm_tasks (cancel_auto_lock m) i = Some t \<Longrightarrow> \<exists>u. lm_tasks m i = Some u \<and> tt_generation t = tt_generation u"
  by (auto simp: cancel_auto_lock_def abort_task_def split: option.splits if_splits)

lemma restart_tasks:
  "lm_tasks (restart_auto_lock timeout g m) i = Some t \<Longrightarrow>
     tt_generation t = g \<or> (\<exists>u. lm_tasks m i = Some u \<and> tt_generation t = tt_generation u)"
  by (auto simp: restart_auto_lock_def rotate_notify_def spawn_timer_def Let_def split: if_splits
      dest: cancel_tasks)

text \<open>
  The interleaving: the unlock draws its generation, a whole \<open>lock\<close> runs, and the unlock
  goes on with the generation it drew.
\<close>

definition late_unlock ::
    "lock_manager \<Rightarrow> secret_bytes \<Rightarrow> duration \<Rightarrow> authentication_strength \<Rightarrow> unlock_outcome
      \<Rightarrow> runtime_inspection_state \<Rightarrow> lock_manager" where
  "late_unlock m pj timeout st oc rt =
    (let (g, m1) = next_generation m in
     restart_auto_lock timeout g ((lock m1)\<lparr>lm_state := open_session pj st oc rt\<rparr>))"

lemma late_unlock_unguarded:
  assumes "armed T m" and "unat (lm_generation m) + 2 < 2 ^ 64"
  shows "unguarded (late_unlock m pj timeout st oc rt)"
proof -
  let ?m1 = "m\<lparr>lm_generation := lm_generation m + 1\<rparr>"
  let ?m2 = "(lock ?m1)\<lparr>lm_state := open_session pj st oc rt\<rparr>"
  have g: "lm_generation (lock ?m1) = lm_generation m + 2"
    by (simp add: lock_def next_generation_def Let_def)
  have u: "unat (lm_generation m + 2) = unat (lm_generation m) + 2"
    using assms(2) by (simp add: unat_word_ariths)
  have old: "lm_generation m + 2 \<noteq> tt_generation t" if "lm_tasks (lock ?m1) i = Some t" for i t
  proof -
    have "lm_tasks (cancel_auto_lock (?m1\<lparr>lm_generation := lm_generation m + 2, lm_state := Locked\<rparr>)) i = Some t"
      using that by (simp add: lock_def next_generation_def Let_def add.commute)
    from cancel_tasks [OF this] obtain v where v: "lm_tasks m i = Some v" "tt_generation t = tt_generation v"
      by auto
    have "unat (tt_generation v) \<le> unat (lm_generation m)"
      using armedD(1) [OF assms(1) v(1)] by (simp add: task_ok_def)
    with u v show ?thesis by auto
  qed
  have l: "late_unlock m pj timeout st oc rt = restart_auto_lock timeout (lm_generation m + 1) ?m2"
    by (simp add: late_unlock_def next_generation_def Let_def)
  show ?thesis unfolding unguarded_def
  proof (intro conjI allI impI)
    show "lm_state (late_unlock m pj timeout st oc rt) \<noteq> Locked"
      by (simp add: l open_session_def)
    fix i t assume "lm_tasks (late_unlock m pj timeout st oc rt) i = Some t"
    from restart_tasks [OF this [unfolded l]]
    have "tt_generation t = lm_generation m + 1 \<or>
        (\<exists>u. lm_tasks (lock ?m1) i = Some u \<and> tt_generation t = tt_generation u)" by simp
    then have "lm_generation m + 2 \<noteq> tt_generation t" using old by fastforce
    then show "lm_generation (late_unlock m pj timeout st oc rt) \<noteq> tt_generation t"
      by (simp add: l g)
  qed
qed

section \<open>Properties\<close>

text \<open>A call that runs without interference is the sequential operation: the thread steps of
  \<open>unlock\<close> and of \<open>lock\<close>, taken one after the other, reach exactly the state the sequential
  definition computes.\<close>

lemma thread_alone_is_sequential:
  assumes "P i = Start c"
  shows "cstep\<^sup>*\<^sup>* (m, P) (exec_call m c, P(i := Done))"
proof (cases c)
  case (CallUnlock pj timeout st oc rt)
  obtain g m1 where n: "next_generation m = (g, m1)" by fastforce
  have "cstep (m, P) (m1, P(i := WriteUnlocked pj timeout st oc rt g))"
    using assms CallUnlock n by (intro unlock_generation [where P = P and i = i]) auto
  moreover have "cstep\<^sup>*\<^sup>* (m1, P(i := WriteUnlocked pj timeout st oc rt g)) (exec_call m c, P(i := Done))"
    using unlock_tail [of "P(i := WriteUnlocked pj timeout st oc rt g)" i pj timeout st oc rt g m1]
    by (simp add: CallUnlock unlock_with_plaintext_json_with_context_def n)
  ultimately show ?thesis by (rule rtranclp_then)
next
  case CallLock
  with assms lock_alone show ?thesis by simp
qed

text \<open>C5. Finding. From any state the sequential operations can reach, an \<open>unlock\<close> overtaken by a
  \<open>lock\<close> ends with the vault open and no timer of the current generation: both calls have
  returned, and whatever time passes and whichever timer steps are taken, the vault never locks
  itself. The generation is drawn before the state mutex is taken and not checked again.\<close>

theorem overtaken_unlock_never_auto_locks:
  assumes "run_within (within T) exec_event manager_new evs" and "m = run_manager manager_new evs"
    and "unat (lm_generation m) + 2 < 2 ^ 64" and "i \<noteq> j"
    and "P i = Start (CallUnlock pj timeout st oc rt)" and "P j = Start CallLock"
  shows "\<exists>m'. cstep\<^sup>*\<^sup>* (m, P) (m', P(i := Done, j := Done)) \<and>
    (\<forall>later. (\<forall>e\<in>set later. background e) \<longrightarrow> lm_state (run_manager m' later) \<noteq> Locked)"
proof (intro exI conjI allI impI)
  let ?m' = "late_unlock m pj timeout st oc rt"
  obtain g m1 where n: "next_generation m = (g, m1)" by fastforce
  let ?P = "P(i := WriteUnlocked pj timeout st oc rt g)"
  have "cstep (m, P) (m1, ?P)" using assms(5) n by (rule unlock_generation [where P = P and i = i])
  moreover have "cstep\<^sup>*\<^sup>* (m1, ?P) (lock m1, ?P(j := Done))"
    using lock_alone [of ?P j m1] assms(4,6) by simp
  moreover have "cstep\<^sup>*\<^sup>* (lock m1, ?P(j := Done)) (?m', (?P(j := Done))(i := Done))"
    using unlock_tail [of "?P(j := Done)" i pj timeout st oc rt g "lock m1"] assms(4)
    by (simp add: late_unlock_def n)
  moreover have "(?P(j := Done))(i := Done) = P(i := Done, j := Done)" using assms(4) by auto
  ultimately show "cstep\<^sup>*\<^sup>* (m, P) (?m', P(i := Done, j := Done))"
    by (metis rtranclp_then rtranclp_trans)
  fix later assume "\<forall>e\<in>set later. background e"
  moreover have "armed T m" using timer.run_inv [OF armed_new assms(1)] assms(2) by simp
  ultimately have "unguarded (run_manager ?m' later)"
    using assms(3) by (intro forgotten.run_inv_all late_unlock_unguarded) auto
  then show "lm_state (run_manager ?m' later) \<noteq> Locked" by (simp add: unguarded_def)
qed

theorem overtaken_unlock_never_auto_locks_witness:
  "\<exists>m'. cstep\<^sup>*\<^sup>* (manager_new, \<lambda>k. if k = 0 then Start (CallUnlock [1] 5 Strong Primary NotDebugged)
        else if k = 1 then Start CallLock else Done) (m', \<lambda>_. Done) \<and>
     lm_state (run_manager m' [EvStart 2, EvTick 1000, EvFire 2]) \<noteq> Locked"
proof -
  let ?P = "\<lambda>k :: nat. if k = 0 then Start (CallUnlock [1] 5 Strong Primary NotDebugged)
        else if k = 1 then Start CallLock else Done"
  have p: "?P(0 := Done, 1 := Done) = (\<lambda>_. Done)" by (rule ext) simp
  have g: "unat (lm_generation manager_new) + 2 < 2 ^ 64" by (simp add: manager_new_def)
  obtain m' where "cstep\<^sup>*\<^sup>* (manager_new, ?P) (m', ?P(0 := Done, 1 := Done))"
    "\<And>later. \<forall>e\<in>set later. background e \<Longrightarrow> lm_state (run_manager m' later) \<noteq> Locked"
    using overtaken_unlock_never_auto_locks [where evs = "[]" and m = manager_new and T = 60 and P = ?P
        and i = 0 and j = 1, OF _ _ g] by auto
  moreover have "\<forall>e\<in>set [EvStart 2, EvTick 1000, EvFire 2]. background e" by simp
  ultimately show ?thesis unfolding p by blast
qed

end
