(* ===== verification/Entry_Ops.thy ===== *)
theory Entry_Ops
  imports Lock_Runs Samples
begin

text \<open>
  \<open>core/entries.rs\<close>: the operations on the entries of an unlocked vault. Each is a
  closure on the payload, run by the lock manager. A locale states what the closures
  rely on of the manager; the manager is its interpretation, and the operations are
  shown to implement a finite map from identifiers to entries.
\<close>

section \<open>The closures\<close>

type_synonym payload_closure = "vault_payload \<Rightarrow> vault_payload \<times> (entry_error + unit)"

definition add_entry_in :: "vault_entry \<Rightarrow> payload_closure" where
  "add_entry_in entry payload =
    (if list_ex (\<lambda>e. entry_id e = entry_id entry) (vp_entries payload)
     then (payload, Inl DuplicateEntry)
     else (payload\<lparr>vp_entries := vp_entries payload @ [entry]\<rparr>, Inr ()))"

text \<open>\<open>iter_mut().find(..)\<close> and an update of the slot that was found.\<close>
fun at_first ::
    "uuid \<Rightarrow> (vault_entry \<Rightarrow> entry_result) \<Rightarrow> vault_entry list \<Rightarrow> vault_entry list \<times> (entry_error + unit)" where
  "at_first i f [] = ([], Inl EntryNotFound)"
| "at_first i f (e # es) =
    (if entry_id e = i then (let (e', r) = f e in (e' # es, r))
     else (let (es', r) = at_first i f es in (e # es', r)))"

definition update_entry_in :: "uuid \<Rightarrow> vault_entry \<Rightarrow> payload_closure" where
  "update_entry_in i new_entry payload =
    (let (es, r) = at_first i (\<lambda>_. (new_entry, Inr ())) (vp_entries payload) in
     (payload\<lparr>vp_entries := es\<rparr>, r))"

definition update_entry_fields_in :: "uuid \<Rightarrow> entry_update \<Rightarrow> payload_closure" where
  "update_entry_fields_in i update payload =
    (let (es, r) = at_first i (\<lambda>e. apply_update e update) (vp_entries payload) in
     (payload\<lparr>vp_entries := es\<rparr>, r))"

definition delete_entry_in :: "uuid \<Rightarrow> payload_closure" where
  "delete_entry_in i payload =
    (let original_len = length (vp_entries payload);
         payload' = payload\<lparr>vp_entries := filter (\<lambda>e. entry_id e \<noteq> i) (vp_entries payload)\<rparr>
     in (payload', if length (vp_entries payload') = original_len then Inl EntryNotFound else Inr ()))"

section \<open>The operations\<close>

text \<open>\<open>.unwrap_or(Err(EntryError::VaultLocked))\<close>\<close>
fun or_locked :: "'s \<times> (entry_error + 'a) option \<Rightarrow> 's \<times> (entry_error + 'a)" where
  "or_locked (s, None) = (s, Inl VaultLocked)"
| "or_locked (s, Some r) = (s, r)"

definition add_entry ::
    "json_lib \<Rightarrow> lock_manager \<Rightarrow> vault_entry \<Rightarrow> lock_manager \<times> (entry_error + unit)" where
  "add_entry J m entry = or_locked (with_unlocked_payload_mut J m (add_entry_in entry))"

definition update_entry ::
    "json_lib \<Rightarrow> lock_manager \<Rightarrow> uuid \<Rightarrow> vault_entry \<Rightarrow> lock_manager \<times> (entry_error + unit)" where
  "update_entry J m i new_entry = or_locked (with_unlocked_payload_mut J m (update_entry_in i new_entry))"

definition update_entry_fields ::
    "json_lib \<Rightarrow> lock_manager \<Rightarrow> uuid \<Rightarrow> entry_update \<Rightarrow> lock_manager \<times> (entry_error + unit)" where
  "update_entry_fields J m i update =
    or_locked (with_unlocked_payload_mut J m (update_entry_fields_in i update))"

definition delete_entry ::
    "json_lib \<Rightarrow> lock_manager \<Rightarrow> uuid \<Rightarrow> lock_manager \<times> (entry_error + unit)" where
  "delete_entry J m i = or_locked (with_unlocked_payload_mut J m (delete_entry_in i))"

definition list_entries :: "json_lib \<Rightarrow> lock_manager \<Rightarrow> entry_summary list option" where
  "list_entries J m = with_unlocked_payload J m (\<lambda>payload. map to_summary (vp_entries payload))"

definition get_entry :: "json_lib \<Rightarrow> lock_manager \<Rightarrow> uuid \<Rightarrow> entry_error + entry_view" where
  "get_entry J m i =
    (case with_unlocked_payload J m (\<lambda>payload.
        ok_or EntryNotFound
          (map_option to_view (List.find (\<lambda>e. entry_id e = i) (vp_entries payload)))) of
       None \<Rightarrow> Inl VaultLocked
     | Some r \<Rightarrow> r)"

definition get_entry_for_operation ::
    "json_lib \<Rightarrow> lock_manager \<Rightarrow> uuid \<Rightarrow> sensitive_operation \<Rightarrow> entry_error + entry_view" where
  "get_entry_for_operation J m i operation =
    rbind (authorize_sensitive_operation m operation) (\<lambda>_. get_entry J m i)"

definition reveal_entry_secret_for_operation ::
    "json_lib \<Rightarrow> lock_manager \<Rightarrow> uuid \<Rightarrow> sensitive_operation \<Rightarrow> entry_error + rstring" where
  "reveal_entry_secret_for_operation J m i operation =
    rbind (get_entry_for_operation J m i operation) (\<lambda>entry.
      guard (vw_secret entry = []) InvalidType (Inr (vw_secret entry)))"

definition reveal_entry_secret :: "json_lib \<Rightarrow> lock_manager \<Rightarrow> uuid \<Rightarrow> entry_error + rstring" where
  "reveal_entry_secret J m i = reveal_entry_secret_for_operation J m i RevealSecret"

section \<open>The store the operations run on\<close>

text \<open>
  \<open>get\<close> is the payload a caller would see, \<open>modify\<close> runs a closure, and \<open>storable\<close> says
  which payloads survive being written and read back.
\<close>

locale payload_store =
  fixes get :: "'s \<Rightarrow> vault_payload option"
    and modify :: "'s \<Rightarrow> payload_closure \<Rightarrow> 's \<times> (entry_error + unit) option"
    and storable :: "vault_payload \<Rightarrow> bool"
  assumes modify_closed: "get s = None \<Longrightarrow> modify s f = (s, None)"
    and modify_open: "get s = Some p \<Longrightarrow> f p = (p', r) \<Longrightarrow> storable p' \<Longrightarrow>
      \<exists>s'. modify s f = (s', Some r) \<and> get s' = Some p'"
begin

lemma run_open:
  assumes "get s = Some p" and "f p = (p', r)" and "storable p'"
  shows "snd (or_locked (modify s f)) = r \<and> get (fst (or_locked (modify s f))) = Some p'"
  using modify_open [where f = f, OF assms] by auto

lemma run_closed:
  assumes "get s = None"
  shows "or_locked (modify s f) = (s, Inl VaultLocked)"
  by (simp add: modify_closed [OF assms])

end

definition storable :: "json_lib \<Rightarrow> vault_payload \<Rightarrow> bool" where
  "storable J p \<longleftrightarrow> payload_json_ok J (map entry_to_dto (vp_entries p)) \<and> payload_ok p"

lemma payload_to_vec_ok:
  "payload_json_ok J (map entry_to_dto (vp_entries p)) \<Longrightarrow> \<exists>bs. payload_to_vec J p = Some bs"
  by (auto simp: payload_json_ok_def payload_to_vec_def)

lemmas payload_access = get_payload_def with_unlocked_payload_mut_def with_unlocked_payload_def
  decode_payload_from_plaintext_json_def encode_payload_to_plaintext_json_def

lemma manager_modify_open:
  assumes "get_payload J m = Some p" and "f p = (p', r)" and "storable J p'"
  shows "\<exists>m'. with_unlocked_payload_mut J m f = (m', Some r) \<and> get_payload J m' = Some p'"
proof -
  obtain bs where bs: "payload_to_vec J p' = Some bs"
    using payload_to_vec_ok assms(3) by (auto simp: storable_def)
  moreover have "payload_from_slice J bs = Some p'"
    using payload_from_to_vec [OF _ bs] assms(3) by (simp add: storable_def)
  moreover obtain st where "lm_state m = Unlocked st" "payload_from_slice J (us_plaintext_json st) = Some p"
    using assms(1) by (auto simp: payload_access split: vault_state.splits)
  ultimately show ?thesis
    using assms(2) by (simp add: payload_access)
qed

interpretation vault: payload_store "get_payload J" "with_unlocked_payload_mut J" "storable J" for J
proof unfold_locales
  show "get_payload J m = None \<Longrightarrow> with_unlocked_payload_mut J m f = (m, None)" for m and f :: payload_closure
    by (auto simp: payload_access split: vault_state.splits)
qed (rule manager_modify_open)

section \<open>The closures as map operations\<close>

definition entry_map :: "vault_payload \<Rightarrow> uuid \<Rightarrow> vault_entry option" where
  "entry_map p = (\<lambda>i. List.find (\<lambda>e. entry_id e = i) (vp_entries p))"

definition unique_ids :: "vault_payload \<Rightarrow> bool" where
  "unique_ids p \<longleftrightarrow> distinct (map (\<lambda>e. entry_id e) (vp_entries p))"

lemma find_append: "List.find P (xs @ ys) = (case List.find P xs of None \<Rightarrow> List.find P ys | Some x \<Rightarrow> Some x)"
  by (induction xs) auto

lemma entry_map_None: "entry_map p i = None \<longleftrightarrow> (\<forall>e\<in>set (vp_entries p). entry_id e \<noteq> i)"
  by (auto simp: entry_map_def find_None_iff)

lemma entry_map_id: "entry_map p i = Some e \<Longrightarrow> entry_id e = i \<and> e \<in> set (vp_entries p)"
  by (auto simp: entry_map_def find_Some_iff)

lemma add_entry_in_eq:
  "add_entry_in e p =
    (if entry_map p (entry_id e) = None then (p\<lparr>vp_entries := vp_entries p @ [e]\<rparr>, Inr ())
     else (p, Inl DuplicateEntry))"
  by (auto simp: add_entry_in_def entry_map_None list_ex_iff)

lemma entry_map_snoc:
  "entry_map p (entry_id e) = None \<Longrightarrow>
    entry_map (p\<lparr>vp_entries := vp_entries p @ [e]\<rparr>) = (entry_map p)(entry_id e \<mapsto> e)"
  by (rule ext) (auto simp: entry_map_def find_append split: option.splits)

lemma unique_ids_snoc:
  "entry_map p (entry_id e) = None \<Longrightarrow> unique_ids p \<Longrightarrow>
    unique_ids (p\<lparr>vp_entries := vp_entries p @ [e]\<rparr>)"
  by (auto simp: entry_map_None unique_ids_def)

lemma find_filter_neq:
  "List.find (\<lambda>e. entry_id e = j) (filter (\<lambda>e. entry_id e \<noteq> i) es) =
     (if j = i then None else List.find (\<lambda>e. entry_id e = j) es)"
  by (induction es) auto

lemma delete_entry_in_map:
  assumes "delete_entry_in i p = (p', r)"
  shows "entry_map p' = (entry_map p)(i := None) \<and>
    r = (if entry_map p i = None then Inl EntryNotFound else Inr ())"
proof -
  have "length (filter (\<lambda>e. entry_id e \<noteq> i) (vp_entries p)) = length (vp_entries p) \<longleftrightarrow> entry_map p i = None"
    by (metis (mono_tags, lifting) entry_map_None filter_True length_filter_less not_less_iff_gr_or_eq)
  then show ?thesis
    using assms by (auto simp: delete_entry_in_def Let_def entry_map_def find_filter_neq fun_eq_iff)
qed

lemma delete_entry_in_unique: "delete_entry_in i p = (p', r) \<Longrightarrow> unique_ids p \<Longrightarrow> unique_ids p'"
  by (auto simp: delete_entry_in_def unique_ids_def Let_def distinct_map_filter)

text \<open>One slot changes, and only that one.\<close>

lemma at_first_find:
  assumes "at_first i f es = (es', r)" and "\<And>e. entry_id (fst (f e)) = entry_id e"
  shows "List.find (\<lambda>e. entry_id e = j) es' =
      (if j = i then map_option (\<lambda>e. fst (f e)) (List.find (\<lambda>e. entry_id e = i) es)
       else List.find (\<lambda>e. entry_id e = j) es) \<and>
    map (\<lambda>e. entry_id e) es' = map (\<lambda>e. entry_id e) es \<and>
    r = (case List.find (\<lambda>e. entry_id e = i) es of None \<Rightarrow> Inl EntryNotFound | Some e \<Rightarrow> snd (f e))"
  using assms
proof (induction es arbitrary: es' r)
  case (Cons e es)
  obtain es1 r1 where s: "at_first i f es = (es1, r1)" by fastforce
  have k: "entry_id (fst (f e)) = entry_id e" by (rule Cons.prems(2))
  show ?case
    using Cons.IH [OF s Cons.prems(2)] Cons.prems(1) k s
    by (cases "f e") (auto split: if_splits)
qed simp

lemma at_first_split:
  "List.find (\<lambda>x. entry_id x = i) es \<noteq> None \<Longrightarrow>
    \<exists>xs x ys. es = xs @ x # ys \<and> entry_id x = i \<and> at_first i f es = (xs @ fst (f x) # ys, snd (f x))"
proof (induction es)
  case (Cons e es)
  show ?case
  proof (cases "entry_id e = i")
    case True
    then show ?thesis by (intro exI [of _ "[]"]) (auto split: prod.splits)
  next
    case False
    with Cons obtain xs x ys where "es = xs @ x # ys" "entry_id x = i"
      "at_first i f es = (xs @ fst (f x) # ys, snd (f x))" by auto
    with False show ?thesis by (intro exI [of _ "e # xs"] exI [of _ x] exI [of _ ys]) simp
  qed
qed simp

lemma update_fields_in_map:
  assumes "update_entry_fields_in i u p = (p', r)"
  shows "entry_map p' = (entry_map p)(i := map_option (\<lambda>e. fst (apply_update e u)) (entry_map p i)) \<and>
    (unique_ids p' \<longleftrightarrow> unique_ids p) \<and>
    r = (case entry_map p i of None \<Rightarrow> Inl EntryNotFound | Some e \<Rightarrow> snd (apply_update e u))"
proof -
  obtain es where es: "at_first i (\<lambda>e. apply_update e u) (vp_entries p) = (es, r)"
    and p': "p' = p\<lparr>vp_entries := es\<rparr>"
    using assms by (auto simp: update_entry_fields_in_def split: prod.splits)
  show ?thesis
    using at_first_find [OF es, simplified apply_update_meta, OF refl]
    by (auto simp: p' entry_map_def unique_ids_def fun_eq_iff)
qed

lemma get_entry_map:
  "get_entry J m i =
    (case get_payload J m of
       None \<Rightarrow> Inl VaultLocked
     | Some p \<Rightarrow> ok_or EntryNotFound (map_option to_view (entry_map p i)))"
  by (auto simp: get_entry_def payload_access entry_map_def split: vault_state.splits option.splits)

lemma locked_ops:
  assumes "get_payload J m = None"
  shows "add_entry J m e = (m, Inl VaultLocked)" "update_entry J m i e = (m, Inl VaultLocked)"
    "update_entry_fields J m i u = (m, Inl VaultLocked)" "delete_entry J m i = (m, Inl VaultLocked)"
    "get_entry J m i = Inl VaultLocked" "list_entries J m = None"
  using assms vault.run_closed [OF assms]
  by (simp_all add: add_entry_def update_entry_def update_entry_fields_def delete_entry_def get_entry_map)
     (auto simp: list_entries_def payload_access split: vault_state.splits)

text \<open>Writing a payload that serialises but breaks an invariant leaves nothing that can be read.\<close>

lemma unreadable_write:
  assumes "get_payload J m = Some p" and "f p = (p', r)"
    and "payload_json_ok J (map entry_to_dto (vp_entries p'))" and "\<not> payload_ok p'"
  shows "\<exists>m'. with_unlocked_payload_mut J m f = (m', Some r) \<and> get_payload J m' = None \<and>
    lm_state m' \<noteq> Locked"
proof -
  obtain bs where bs: "payload_to_vec J p' = Some bs" using payload_to_vec_ok [OF assms(3)] by blast
  then have "payload_from_slice J bs = None" using payload_from_to_vec [OF assms(3) bs] assms(4) by simp
  moreover obtain st where "lm_state m = Unlocked st" "payload_from_slice J (us_plaintext_json st) = Some p"
    using assms(1) by (auto simp: payload_access split: vault_state.splits)
  ultimately show ?thesis using assms(2) bs by (simp add: payload_access)
qed

section \<open>Concrete inputs for the witnesses\<close>

text \<open>A library that knows two payloads.\<close>
definition two_payloads :: "vault_payload \<Rightarrow> vault_payload \<Rightarrow> json_lib" where
  "two_payloads p q = (demo_json demo_header)
    \<lparr>json_of_payload := \<lambda>d. if d = map entry_to_dto (vp_entries p) then Some [1]
        else if d = map entry_to_dto (vp_entries q) then Some [2] else None,
     json_to_payload := \<lambda>b. if b = [1] then Some (map entry_to_dto (vp_entries p))
        else if b = [2] then Some (map entry_to_dto (vp_entries q)) else None\<rparr>"

lemma two_payloads_ok [simp]:
  "payload_json_ok (two_payloads p q) (map entry_to_dto (vp_entries p))"
  "payload_json_ok (two_payloads p q) (map entry_to_dto (vp_entries q))"
  by (simp_all add: payload_json_ok_def two_payloads_def)

lemma two_payloads_read: "payload_ok p \<Longrightarrow> payload_from_slice (two_payloads p q) [1] = Some p"
  by (simp add: payload_from_slice_def two_payloads_def entries_from_dtos_map payload_ok_def)

definition unlocked_with :: "bytes \<Rightarrow> lock_manager" where
  "unlocked_with bs = unlock_with_plaintext_json_with_context manager_new bs 60 Strong Primary NotDebugged"

lemma unlocked_with_payload:
  "payload_ok p \<Longrightarrow> get_payload (two_payloads p q) (unlocked_with [1]) = Some p"
  by (simp add: get_payload_def unlocked_with_def unlock_state open_session_def
      decode_payload_from_plaintext_json_def two_payloads_read)

definition demo_totp_secret :: totp_secret where
  "demo_totp_secret = \<lparr>ts_issuer = None, ts_account_name = None, ts_secret_b32 = lit ''ABCDEFGH'',
     ts_digits = 6, ts_period_secs = 30, ts_algorithm = Sha1\<rparr>"

definition demo_totp_entry :: vault_entry where
  "demo_totp_entry = \<lparr>ve_meta = \<lparr>em_id = 9, em_entry_type = Totp\<rparr>,
     ve_secret = \<lparr>es_title = lit ''t'', es_note = None, es_username = None,
       es_secret = lit ''ABCDEFGH'', es_extra = None, es_totp = Some demo_totp_secret\<rparr>\<rparr>"

definition demo_totp_payload :: vault_payload where
  "demo_totp_payload = \<lparr>vp_entries = [demo_totp_entry]\<rparr>"

lemma demo_totp_ok [simp]: "entry_ok demo_totp_entry" "payload_ok demo_totp_payload"
  by (simp_all add: demo_totp_payload_def payload_ok_def entry_ok_iff demo_totp_entry_def
      demo_totp_secret_def totp_params_ok_def lit_def is_b32_char_def)

lemma demo_totp_entry_sel: "entry_id demo_totp_entry = 9"
  by (simp add: demo_totp_entry_def)

lemma demo_entry_sel [simp]: "entry_id demo_entry = 5" "entry_ok demo_entry"
  by (simp_all add: demo_entry_def entry_ok_iff)

section \<open>Properties\<close>

text \<open>\<open>add_entry\<close> is the insertion of a finite map from identifiers to entries: a new
  identifier is bound to the entry and nothing else changes, an existing one is refused and
  nothing changes at all; identifiers stay unique.\<close>

lemma add_entry_refines_map:
  assumes "get_payload J m = Some p" and "storable J p"
    and "storable J (p\<lparr>vp_entries := vp_entries p @ [e]\<rparr>)"
  shows "\<exists>p'. get_payload J (fst (add_entry J m e)) = Some p' \<and> (unique_ids p \<longrightarrow> unique_ids p') \<and>
    (if entry_map p (entry_id e) = None
     then snd (add_entry J m e) = Inr () \<and> entry_map p' = (entry_map p)(entry_id e \<mapsto> e)
     else snd (add_entry J m e) = Inl DuplicateEntry \<and> p' = p)"
proof (cases "entry_map p (entry_id e) = None")
  case True
  then have "add_entry_in e p = (p\<lparr>vp_entries := vp_entries p @ [e]\<rparr>, Inr ())"
    by (simp add: add_entry_in_eq)
  from vault.run_open [where f = "add_entry_in e", OF assms(1) this assms(3)] True show ?thesis
    by (simp add: add_entry_def entry_map_snoc unique_ids_snoc)
next
  case False
  then have "add_entry_in e p = (p, Inl DuplicateEntry)" by (simp add: add_entry_in_eq)
  from vault.run_open [where f = "add_entry_in e", OF assms(1) this assms(2)] False show ?thesis by (simp add: add_entry_def)
qed

text \<open>\<open>delete_entry\<close> is the deletion of that map: afterwards the identifier is unbound and all
  others are as before; an identifier that was not bound is reported.\<close>

lemma delete_entry_refines_map:
  assumes "get_payload J m = Some p"
    and "storable J (p\<lparr>vp_entries := filter (\<lambda>e. entry_id e \<noteq> i) (vp_entries p)\<rparr>)"
  shows "\<exists>p'. get_payload J (fst (delete_entry J m i)) = Some p' \<and>
    entry_map p' = (entry_map p)(i := None) \<and> (unique_ids p \<longrightarrow> unique_ids p') \<and>
    snd (delete_entry J m i) = (if entry_map p i = None then Inl EntryNotFound else Inr ())"
proof -
  obtain p' r where d: "delete_entry_in i p = (p', r)" by fastforce
  then have "storable J p'" using assms(2) by (simp add: delete_entry_in_def Let_def)
  from vault.run_open [where f = "delete_entry_in i", OF assms(1) d this] delete_entry_in_map [OF d] delete_entry_in_unique [OF d]
  show ?thesis by (simp add: delete_entry_def)
qed

text \<open>A field update rewrites the one entry it names and answers what \<open>apply_update\<close> answers for
  it; a successful update stores a valid entry of the same identity and type.\<close>

lemma update_fields_refines_map:
  assumes "get_payload J m = Some p" and "storable J (fst (update_entry_fields_in i u p))"
  shows "\<exists>p'. get_payload J (fst (update_entry_fields J m i u)) = Some p' \<and>
    (unique_ids p \<longrightarrow> unique_ids p') \<and>
    (case entry_map p i of
       None \<Rightarrow> snd (update_entry_fields J m i u) = Inl EntryNotFound \<and> entry_map p' = entry_map p
     | Some e \<Rightarrow>
         snd (update_entry_fields J m i u) = snd (apply_update e u) \<and>
         entry_map p' = (entry_map p)(i \<mapsto> fst (apply_update e u)) \<and>
         ve_meta (fst (apply_update e u)) = ve_meta e \<and>
         (is_ok (snd (apply_update e u)) \<longrightarrow> entry_ok (fst (apply_update e u))))"
proof -
  obtain p' r where d: "update_entry_fields_in i u p = (p', r)" by fastforce
  then have "storable J p'" using assms(2) by simp
  from vault.run_open [where f = "update_entry_fields_in i u", OF assms(1) d this] update_fields_in_map [OF d] show ?thesis
    by (cases "entry_map p i")
       (auto simp: update_entry_fields_def apply_update_meta apply_update_ok_entry)
qed

lemma reveal_iff:
  "reveal_entry_secret_for_operation J m i op = Inr v \<longleftrightarrow>
    is_ok (authorize_sensitive_operation m op) \<and>
    (\<exists>p e. get_payload J m = Some p \<and> entry_map p i = Some e \<and> v = es_secret (ve_secret e) \<and> v \<noteq> [])"
  by (auto simp: reveal_entry_secret_for_operation_def get_entry_for_operation_def get_entry_map is_ok_iff
      to_view_def split: option.splits)

text \<open>A secret leaves the vault only through authorisation: \<open>reveal_entry_secret_for_operation\<close>
  answers the secret of an entry exactly when the session is authorised for the operation, the
  payload holds an entry of that identifier and its secret is not empty.\<close>

lemma reveal_exactly:
  "reveal_entry_secret_for_operation J m i op = Inr v \<longleftrightarrow>
    is_ok (authorize_sensitive_operation m op) \<and>
    (\<exists>p e. get_payload J m = Some p \<and> entry_map p i = Some e \<and> v = es_secret (ve_secret e) \<and> v \<noteq> [])"
  by (rule reveal_iff)

text \<open>C10. Finding. A rejected update can destroy the session. Setting an invalid secret on a TOTP
  entry is refused, but the entry has already been changed and the changed payload is written
  back; it no longer decodes, so from then on every operation on the still unlocked vault,
  reads of other entries included, answers that the vault is locked.\<close>

theorem rejected_update_bricks_session:
  assumes "get_payload J m = Some p" and "entry_map p i = Some e" and "entry_type_of e = Totp"
    and "es_totp (ve_secret e) = Some t" and "\<not> totp_params_ok (t\<lparr>ts_secret_b32 := s\<rparr>)"
    and "payload_json_ok J (map entry_to_dto (vp_entries (fst (update_entry_fields_in i (SetSecret s) p))))"
  shows "\<exists>m' err. update_entry_fields J m i (SetSecret s) = (m', Inl err) \<and> lm_state m' \<noteq> Locked \<and>
    get_payload J m' = None \<and> list_entries J m' = None \<and>
    (\<forall>j. get_entry J m' j = Inl VaultLocked) \<and> (\<forall>x. add_entry J m' x = (m', Inl VaultLocked)) \<and>
    (\<forall>j. delete_entry J m' j = (m', Inl VaultLocked))"
proof -
  let ?t = "t\<lparr>ts_secret_b32 := s\<rparr>" and ?f = "update_entry_fields_in i (SetSecret s)"
  have "\<not> is_ok (totp_secret_validate ?t)" using assms(5) by simp
  then obtain err where err: "totp_secret_validate ?t = Inl err"
    by (cases "totp_secret_validate ?t") auto
  let ?e = "with_secret e (es_totp_update (\<lambda>_. Some ?t))"
  have u: "apply_update e (SetSecret s) = (?e, Inl err)"
    using assms(3,4) err by (simp add: apply_set_secret_def Let_def)
  obtain p' r where d: "?f p = (p', r)" by fastforce
  have p': "entry_map p' i = Some ?e" "r = Inl err"
    using update_fields_in_map [OF d] assms(2) u by (simp_all del: apply_update.simps)
  have "\<not> entry_ok ?e" using assms(3,5) by (simp add: entry_ok_iff)
  then have "\<not> payload_ok p'"
    using entry_map_id [OF p'(1)] by (auto simp: payload_ok_def list_all_iff)
  then obtain m' where m': "with_unlocked_payload_mut J m ?f = (m', Some r)" "get_payload J m' = None"
      "lm_state m' \<noteq> Locked"
    using unreadable_write [where f = ?f, OF assms(1) d] assms(6) d by auto
  then show ?thesis
    using p'(2) locked_ops [OF m'(2)] by (auto simp: update_entry_fields_def)
qed

theorem rejected_update_bricks_session_witness:
  "\<exists>J m m' err. get_payload J m = Some demo_totp_payload \<and>
     update_entry_fields J m 9 (SetSecret (lit ''abc'')) = (m', Inl err) \<and>
     lm_state m' \<noteq> Locked \<and> list_entries J m' = None"
proof -
  let ?q = "fst (update_entry_fields_in 9 (SetSecret (lit ''abc'')) demo_totp_payload)"
  let ?J = "two_payloads demo_totp_payload ?q"
  have "\<not> totp_params_ok (demo_totp_secret\<lparr>ts_secret_b32 := lit ''abc''\<rparr>)"
    by (simp add: totp_params_ok_def lit_def is_b32_char_def)
  moreover have "entry_map demo_totp_payload 9 = Some demo_totp_entry" "entry_type_of demo_totp_entry = Totp"
    "es_totp (ve_secret demo_totp_entry) = Some demo_totp_secret"
    by (simp_all add: entry_map_def demo_totp_payload_def demo_totp_entry_def)
  ultimately show ?thesis
    using rejected_update_bricks_session [OF unlocked_with_payload [OF demo_totp_ok(2), of ?q]]
      unlocked_with_payload [OF demo_totp_ok(2), of ?q] two_payloads_ok(2) by blast
qed

text \<open>Finding. \<open>add_entry\<close> refuses a duplicate identifier, \<open>update_entry\<close> does not: replacing an
  entry by one that carries another entry's identifier succeeds and leaves two entries with the
  same identifier, of which lookups see one and a deletion removes both.\<close>

lemma update_entry_breaks_uniqueness:
  assumes "get_payload J m = Some p" and "entry_map p i \<noteq> None" and "entry_map p (entry_id e) \<noteq> None"
    and "entry_id e \<noteq> i" and "storable J (fst (update_entry_in i e p))"
  shows "\<exists>m' p'. update_entry J m i e = (m', Inr ()) \<and> get_payload J m' = Some p' \<and> \<not> unique_ids p'"
proof -
  have "List.find (\<lambda>x. entry_id x = i) (vp_entries p) \<noteq> None" using assms(2) by (simp add: entry_map_def)
  then obtain xs x ys where sp: "vp_entries p = xs @ x # ys" "entry_id x = i"
    "at_first i (\<lambda>_. (e, Inr ())) (vp_entries p) = (xs @ e # ys, Inr ())"
    using at_first_split [of i "vp_entries p" "\<lambda>_. (e, Inr ())"] by auto
  let ?p' = "p\<lparr>vp_entries := xs @ e # ys\<rparr>"
  have d: "update_entry_in i e p = (?p', Inr ())" by (simp add: update_entry_in_def sp(3))
  have "\<exists>z\<in>set (xs @ ys). entry_id z = entry_id e"
    using assms(3,4) sp(1,2) by (auto simp: entry_map_None)
  then have "entry_id e \<in> (\<lambda>x. entry_id x) ` set (xs @ ys)" by (metis imageI)
  then have "\<not> unique_ids ?p'" by (simp add: unique_ids_def image_Un) blast
  with vault.run_open [where f = "update_entry_in i e", OF assms(1) d] assms(5) d show ?thesis
    by (cases "update_entry J m i e") (auto simp: update_entry_def)
qed

end
