(* ===== verification/Totp.thy ===== *)
theory Totp
  imports Entries
begin

text \<open>
  \<open>totp/decode.rs\<close>, \<open>totp/engine.rs\<close> and \<open>totp/format.rs\<close>: base32 secrets, the
  generation and verification of time-based codes and their decimal form. HMAC and
  the base32 decoder are crates: they are the fields of a record.
\<close>

section \<open>The crates\<close>

record totp_lib =
  \<comment> \<open>\<open>Hmac<Sha..>::new_from_slice\<close>, \<open>update\<close>, \<open>finalize\<close>: key, message\<close>
  hmac :: "totp_algorithm \<Rightarrow> bytes \<Rightarrow> bytes \<Rightarrow> bytes option"
  \<comment> \<open>\<open>Base32UpperUnpadded::decode\<close> and \<open>Base32Upper::decode\<close> into a buffer of the given size\<close>
  base32_upper_unpadded_decode :: "rstring \<Rightarrow> nat \<Rightarrow> bytes option"
  base32_upper_decode :: "rstring \<Rightarrow> nat \<Rightarrow> bytes option"

datatype totp_error = InvalidParams | InvalidSecret | CryptoFailure

section \<open>Secrets (totp/decode.rs)\<close>

definition MAX_SECRET_B32_LEN :: nat where "MAX_SECRET_B32_LEN = 1024"
definition MIN_SECRET_RAW_LEN :: nat where "MIN_SECRET_RAW_LEN = 16"

definition div_ceil :: "nat \<Rightarrow> nat \<Rightarrow> nat" where "div_ceil a b = (a + b - 1) div b"

definition decode_base32_secret_strict :: "totp_lib \<Rightarrow> rstring \<Rightarrow> totp_error + bytes" where
  "decode_base32_secret_strict L secret_b32 =
    guard (secret_b32 = [] \<or> str_len secret_b32 > MAX_SECRET_B32_LEN) InvalidSecret
    (guard (\<not> is_ascii secret_b32) InvalidSecret
    (guard (\<not> list_all is_b32_char secret_b32) InvalidSecret
    (let trimmed = trim_end_with (\<lambda>c. c = 61) secret_b32 in
     guard (trimmed = []) InvalidSecret
     (guard (list_ex (\<lambda>c. c = 61) trimmed) InvalidSecret
     (guard (str_len trimmed mod 8 \<notin> {0, 2, 4, 5, 7}) InvalidSecret
     (let max_out = div_ceil (str_len trimmed * 5) 8 in
      rbind (ok_or InvalidSecret
        (if str_len trimmed = str_len secret_b32
         then base32_upper_unpadded_decode L trimmed max_out
         else base32_upper_decode L secret_b32 max_out)) (\<lambda>out.
      guard (length out < MIN_SECRET_RAW_LEN) InvalidSecret (Inr out))))))))"

definition canonicalize_base32_for_export :: "rstring \<Rightarrow> totp_error + rstring" where
  "canonicalize_base32_for_export secret_b32 =
    guard (secret_b32 = [] \<or> str_len secret_b32 > MAX_SECRET_B32_LEN) InvalidSecret
    (guard (\<not> is_ascii secret_b32) InvalidSecret
    (let s = trim_end_with (\<lambda>c. c = 61)
           (map to_ascii_uppercase (filter (\<lambda>c. \<not> is_whitespace c \<and> c \<noteq> 45) secret_b32)) in
     guard (s = []) InvalidSecret (Inr s)))"

section \<open>The engine (totp/engine.rs)\<close>

definition MIN_PERIOD_SECS :: u32 where "MIN_PERIOD_SECS = 10"
definition MAX_PERIOD_SECS :: u32 where "MAX_PERIOD_SECS = 120"
definition MIN_DIGITS :: u8 where "MIN_DIGITS = 6"
definition MAX_DIGITS :: u8 where "MAX_DIGITS = 8"

definition validate_params :: "u32 \<Rightarrow> u8 \<Rightarrow> totp_error + unit" where
  "validate_params period_secs digits =
    guard (\<not> (MIN_PERIOD_SECS \<le> period_secs \<and> period_secs \<le> MAX_PERIOD_SECS)) InvalidParams
    (guard (\<not> (MIN_DIGITS \<le> digits \<and> digits \<le> MAX_DIGITS)) InvalidParams (Inr ()))"

definition checked_pow_u32 :: "nat \<Rightarrow> nat \<Rightarrow> u32 option" where
  "checked_pow_u32 b e = (if b ^ e < 2 ^ 32 then Some (of_nat (b ^ e)) else None)"

text \<open>\<open>u64::to_be_bytes\<close>\<close>
definition to_be_u64 :: "u64 \<Rightarrow> bytes" where "to_be_u64 w = rev (to_le 8 (unat w))"

definition dynamic_truncate :: "bytes \<Rightarrow> u8 \<Rightarrow> totp_error + u32" where
  "dynamic_truncate mac digits =
    guard (length mac < 20) CryptoFailure
    (let offset = unat (and (mac ! (length mac - 1)) 0x0f) in
     guard (offset + 4 > length mac) CryptoFailure
     (let bin_code = or (or (or
            (push_bit 24 (and (ucast (mac ! offset)) 0x7f))
            (push_bit 16 (ucast (mac ! (offset + 1)))))
            (push_bit 8 (ucast (mac ! (offset + 2)))))
            (ucast (mac ! (offset + 3))) :: u32
      in rbind (ok_or InvalidParams (checked_pow_u32 10 (unat digits))) (\<lambda>modulo.
           Inr (bin_code mod modulo))))"

text \<open>The three arms of \<open>match algorithm\<close> differ in the hash only.\<close>
definition code_at :: "totp_lib \<Rightarrow> totp_algorithm \<Rightarrow> bytes \<Rightarrow> u8 \<Rightarrow> u64 \<Rightarrow> totp_error + u32" where
  "code_at L algorithm secret_raw digits counter =
    rbind (ok_or CryptoFailure (hmac L algorithm secret_raw (to_be_u64 counter)))
      (\<lambda>mac. dynamic_truncate mac digits)"

definition totp_generate_raw ::
    "totp_lib \<Rightarrow> bytes \<Rightarrow> u64 \<Rightarrow> u32 \<Rightarrow> u8 \<Rightarrow> totp_algorithm \<Rightarrow> totp_error + u32" where
  "totp_generate_raw L secret_raw unix_time_secs period_secs digits algorithm =
    rbind (validate_params period_secs digits) (\<lambda>_.
      code_at L algorithm secret_raw digits (unix_time_secs div ucast period_secs))"

definition totp_generate_from_secret :: "totp_lib \<Rightarrow> totp_secret \<Rightarrow> u64 \<Rightarrow> totp_error + u32" where
  "totp_generate_from_secret L totp unix_time_secs =
    rbind (map_err (\<lambda>_. InvalidParams) (totp_secret_validate totp)) (\<lambda>_.
    rbind (validate_params (ts_period_secs totp) (ts_digits totp)) (\<lambda>_.
    rbind (decode_base32_secret_strict L (ts_secret_b32 totp)) (\<lambda>secret_raw.
      totp_generate_raw L secret_raw unix_time_secs (ts_period_secs totp) (ts_digits totp)
        (ts_algorithm totp))))"

text \<open>The counter checked in round \<open>i\<close> of the window loop.\<close>
definition window_counter :: "u64 \<Rightarrow> u8 \<Rightarrow> nat \<Rightarrow> u64" where
  "window_counter base_counter window i =
    (let offset = int i - int (unat window) in
     if offset < 0 then sat_sub_word base_counter (of_nat (nat (- offset)))
     else sat_add_word base_counter (of_nat (nat offset)))"

fun verify_window :: "(nat \<Rightarrow> totp_error + u32) \<Rightarrow> u32 \<Rightarrow> u8 \<Rightarrow> nat list \<Rightarrow> totp_error + u8" where
  "verify_window expected_at code any_match [] = Inr any_match"
| "verify_window expected_at code any_match (i # is) =
    rbind (expected_at i) (\<lambda>expected.
      verify_window expected_at code (or any_match (if expected = code then 1 else 0)) is)"

definition totp_verify :: "totp_lib \<Rightarrow> totp_secret \<Rightarrow> u64 \<Rightarrow> u32 \<Rightarrow> u8 \<Rightarrow> totp_error + bool" where
  "totp_verify L totp unix_time_secs code window =
    rbind (map_err (\<lambda>_. InvalidParams) (totp_secret_validate totp)) (\<lambda>_.
    rbind (validate_params (ts_period_secs totp) (ts_digits totp)) (\<lambda>_.
    guard (window > 10) InvalidParams
    (rbind (decode_base32_secret_strict L (ts_secret_b32 totp)) (\<lambda>secret_raw.
      let base_counter = unix_time_secs div ucast (ts_period_secs totp) in
      rbind (verify_window
          (\<lambda>i. code_at L (ts_algorithm totp) secret_raw (ts_digits totp)
             (window_counter base_counter window i)) code 0 [0 ..< 2 * unat window + 1])
        (\<lambda>any_match. Inr (any_match \<noteq> 0))))))"

section \<open>Formatting (totp/format.rs)\<close>

definition format_totp_code :: "u32 \<Rightarrow> u8 \<Rightarrow> totp_error + rstring" where
  "format_totp_code code digits =
    guard (\<not> (6 \<le> digits \<and> digits \<le> 8)) InvalidParams
    (rbind (ok_or InvalidParams (checked_pow_u32 10 (unat digits))) (\<lambda>modulo.
      Inr (fmt_zero_padded (unat digits) (unat (code mod modulo)))))"

definition totp_generate_formatted :: "totp_lib \<Rightarrow> totp_secret \<Rightarrow> u64 \<Rightarrow> totp_error + rstring" where
  "totp_generate_formatted L totp unix_time_secs =
    rbind (totp_generate_from_secret L totp unix_time_secs) (\<lambda>code.
      format_totp_code code (ts_digits totp))"

section \<open>Lemmas\<close>

text \<open>The output lengths of the hashes: 20, 32 and 64 bytes.\<close>
definition hmac_lengths :: "totp_lib \<Rightarrow> bool" where
  "hmac_lengths L \<longleftrightarrow> (\<forall>a k msg mac. hmac L a k msg = Some mac \<longrightarrow>
     length mac = (case a of Sha1 \<Rightarrow> 20 | Sha256 \<Rightarrow> 32 | Sha512 \<Rightarrow> 64))"

lemma hmac_length: "hmac_lengths L \<Longrightarrow> hmac L a k msg = Some mac \<Longrightarrow> 20 \<le> length mac"
  by (cases a) (auto simp: hmac_lengths_def)

lemma digits_cases: "6 \<le> (d :: u8) \<Longrightarrow> d \<le> 8 \<Longrightarrow> d = 6 \<or> d = 7 \<or> d = 8"
proof -
  assume "6 \<le> d" "d \<le> 8"
  then have "unat d = 6 \<or> unat d = 7 \<or> unat d = 8" by (auto simp: word_le_nat_alt)
  then show ?thesis
    using unsigned_word_eqI [of d 6] unsigned_word_eqI [of d 7] unsigned_word_eqI [of d 8] by auto
qed

lemma checked_pow_digits:
  assumes "6 \<le> (d :: u8)" and "d \<le> 8"
  shows "checked_pow_u32 10 (unat d) = Some (of_nat (10 ^ unat d)) \<and> unat (of_nat (10 ^ unat d) :: u32) = 10 ^ unat d"
  using digits_cases [OF assms] by (auto simp: checked_pow_u32_def)

lemma validate_params_ok [simp]:
  "validate_params p d = Inr v \<longleftrightarrow> 10 \<le> p \<and> p \<le> 120 \<and> 6 \<le> d \<and> d \<le> 8"
  by (auto simp: validate_params_def MIN_PERIOD_SECS_def MAX_PERIOD_SECS_def MIN_DIGITS_def MAX_DIGITS_def)

lemma unat_and_mask: "unat (and (w :: 'a::len word) (mask n)) = unat w mod 2 ^ n"
  unfolding take_bit_eq_mask [symmetric] unsigned_take_bit_eq by (rule take_bit_eq_mod)

lemma unat_and_15: "unat (and (b :: u8) 0x0f) = unat b mod 16"
  using unat_and_mask [of b 4] by (simp add: mask_eq_exp_minus_1)

lemma or_push_bit_nat: "y < 2 ^ n \<Longrightarrow> or (push_bit n (x :: nat)) y = x * 2 ^ n + y"
proof -
  assume "y < 2 ^ n"
  then have "take_bit n y = y" by (simp add: take_bit_nat_eq_self)
  then have "and (push_bit n x) y = 0"
    by (metis (no_types, lifting) bit_and_iff bit_eqI bit_push_bit_iff_nat bit_take_bit_iff linorder_not_le bit_0_eq bot_apply bot_bool_def)
  from disjunctive_add_eq_or [OF this] show ?thesis by (simp add: push_bit_eq_mult)
qed

text \<open>The four bytes at the offset, most significant first, without the top bit: RFC 4226.\<close>
definition rfc4226_code :: "bytes \<Rightarrow> nat \<Rightarrow> nat" where
  "rfc4226_code mac d =
    (let k = unat (last mac) mod 16 in
     ((unat (mac ! k) mod 128) * 2 ^ 24 + unat (mac ! (k + 1)) * 2 ^ 16 +
      unat (mac ! (k + 2)) * 2 ^ 8 + unat (mac ! (k + 3))) mod 10 ^ d)"

lemma or_bytes_value:
  fixes w0 w1 w2 w3 :: u32
  assumes "unat w0 < 128" "unat w1 < 256" "unat w2 < 256" "unat w3 < 256"
  shows "unat (or (or (or (push_bit 24 w0) (push_bit 16 w1)) (push_bit 8 w2)) w3) =
    unat w0 * 2 ^ 24 + unat w1 * 2 ^ 16 + unat w2 * 2 ^ 8 + unat w3"
proof -
  have s: "unat (push_bit n w :: u32) = push_bit n (unat w)" if "unat w * 2 ^ n < 2 ^ 32" for n and w :: u32
    unfolding unsigned_push_bit_eq using that by (simp add: push_bit_eq_mult take_bit_nat_eq_self)
  have "or (push_bit 8 (unat w2)) (unat w3) = unat w2 * 2 ^ 8 + unat w3"
    using assms by (intro or_push_bit_nat) simp
  moreover have "or (push_bit 16 (unat w1)) (unat w2 * 2 ^ 8 + unat w3) = unat w1 * 2 ^ 16 + (unat w2 * 2 ^ 8 + unat w3)"
    using assms by (intro or_push_bit_nat) simp
  moreover have "or (push_bit 24 (unat w0)) (unat w1 * 2 ^ 16 + (unat w2 * 2 ^ 8 + unat w3)) =
      unat w0 * 2 ^ 24 + (unat w1 * 2 ^ 16 + (unat w2 * 2 ^ 8 + unat w3))"
    using assms by (intro or_push_bit_nat) simp
  ultimately show ?thesis using assms by (simp add: unsigned_or_eq s or.assoc)
qed

lemma unat_ucast_u8_u32: "unat (ucast (b :: u8) :: u32) = unat b"
  using unat_u8_less [of b] by (simp add: unsigned_ucast_eq take_bit_nat_eq_self)

lemma bin_code_value:
  fixes b0 b1 b2 b3 :: u8
  shows "unat (or (or (or (push_bit 24 (and (ucast b0) 0x7f)) (push_bit 16 (ucast b1)))
      (push_bit 8 (ucast b2))) (ucast b3) :: u32) =
    (unat b0 mod 128) * 2 ^ 24 + unat b1 * 2 ^ 16 + unat b2 * 2 ^ 8 + unat b3"
proof -
  have "unat (and (ucast b0) 0x7f :: u32) = unat b0 mod 128"
    using unat_and_mask [of "ucast b0 :: u32" 7] by (simp add: mask_eq_exp_minus_1 unat_ucast_u8_u32)
  then show ?thesis
    using or_bytes_value [of "and (ucast b0) 0x7f" "ucast b1" "ucast b2" "ucast b3"]
      unat_u8_less [of b1] unat_u8_less [of b2] unat_u8_less [of b3]
    by (simp only: unat_ucast_u8_u32 mod_less_divisor)
qed

text \<open>Truncation of a MAC never fails for the accepted widths, and is the code of the RFC.\<close>

lemma dynamic_truncate_value:
  assumes "20 \<le> length mac" and "6 \<le> d" and "d \<le> 8"
  shows "dynamic_truncate mac d = Inr (of_nat (rfc4226_code mac (unat d)))"
proof -
  have o: "unat (last mac) mod 16 < 16" by simp
  have last: "mac ! (length mac - Suc 0) = last mac" using assms(1) by (subst last_conv_nth) auto
  have eq: "(x :: u32) mod of_nat (10 ^ unat d) = of_nat (unat x mod 10 ^ unat d)" for x
  proof (rule unsigned_word_eqI)
    have "unat x mod 10 ^ unat d < 2 ^ 32"
      using unat_u32_less [of x] mod_less_eq_dividend [of "unat x" "10 ^ unat d"] by linarith
    then show "unat (x mod of_nat (10 ^ unat d)) = unat (of_nat (unat x mod 10 ^ unat d) :: u32)"
      using checked_pow_digits [OF assms(2,3)] by (simp add: unat_mod_distrib unat_of_nat del: of_nat_power)
  qed
  show ?thesis
    using o assms(1) checked_pow_digits [OF assms(2,3)]
    by (simp add: dynamic_truncate_def Let_def unat_and_15 last eq bin_code_value rfc4226_code_def
        del: of_nat_power push_bit_and of_nat_mod)
qed

lemma rfc4226_code_bound: "rfc4226_code mac d < 10 ^ d"
  by (simp add: rfc4226_code_def Let_def)

lemma code_at_value:
  assumes "hmac_lengths L" and "hmac L alg raw (to_be_u64 c) = Some mac" and "6 \<le> d" and "d \<le> 8"
  shows "code_at L alg raw d c = Inr (of_nat (rfc4226_code mac (unat d)))"
  using assms hmac_length [OF assms(1,2)] by (simp add: code_at_def dynamic_truncate_value)

lemma totp_params_range: "totp_params_ok t \<Longrightarrow>
    10 \<le> ts_period_secs t \<and> ts_period_secs t \<le> 120 \<and> 6 \<le> ts_digits t \<and> ts_digits t \<le> 8"
  by (auto simp: totp_params_ok_def)

lemma verify_window_ok:
  assumes "\<And>i. i \<in> set is \<Longrightarrow> \<exists>c. f i = Inr c" and "a = 0 \<or> a = 1"
  shows "verify_window f code a is = Inr (if a = 1 \<or> (\<exists>i\<in>set is. f i = Inr code) then 1 else 0)"
  using assms
proof (induction "is" arbitrary: a)
  case (Cons i "is")
  obtain c where c: "f i = Inr c" using Cons.prems(1) [of i] by auto
  have "verify_window f code (or a (if c = code then 1 else 0)) is =
      Inr (if or a (if c = code then 1 else 0) = 1 \<or> (\<exists>i\<in>set is. f i = Inr code) then 1 else 0)"
    using Cons.prems by (intro Cons.IH) auto
  with c Cons.prems(2) show ?case by auto
qed auto

text \<open>The counters of the window: every counter at most \<open>window\<close> steps away is one of them.\<close>

lemma window_counter_reaches:
  assumes "unat c \<le> unat base + unat w" and "unat base \<le> unat c + unat w"
  shows "\<exists>i < 2 * unat w + 1. window_counter base w i = c"
proof (cases "unat base \<le> unat c")
  case True
  then obtain k where k: "unat c = unat base + k" by (auto simp: le_iff_add)
  have "k < 2 ^ 64" "k \<le> unat w" using k assms unat_u64_less [of c] by linarith+
  moreover have "unat (sat_add_word base (of_nat k)) = unat c"
    using k unat_u64_less [of c] by (simp add: unat_sat_add_word unat_of_nat)
  then have "sat_add_word base (of_nat k) = c" by (rule unsigned_word_eqI)
  ultimately show ?thesis
    by (intro exI [of _ "unat w + k"]) (simp add: window_counter_def)
next
  case False
  then obtain k where k: "unat base = unat c + k" "0 < k"
    by (metis add.right_neutral less_imp_le_nat le_iff_add not_le not_gr_zero)
  have "k < 2 ^ 64" "k \<le> unat w" using k assms unat_u64_less [of base] by linarith+
  moreover have "unat (sat_sub_word base (of_nat k)) = unat c"
    using k unat_u64_less [of base] by (simp add: unat_sat_sub_word unat_of_nat)
  then have "sat_sub_word base (of_nat k) = c" by (rule unsigned_word_eqI)
  ultimately show ?thesis
    using k by (intro exI [of _ "unat w - k"]) (auto simp: window_counter_def of_nat_diff)
qed

lemma totp_verify_eq:
  assumes "hmac_lengths L" and "totp_params_ok t" and "w \<le> 10"
    and "decode_base32_secret_strict L (ts_secret_b32 t) = Inr raw"
    and "\<And>c. \<exists>mac. hmac L (ts_algorithm t) raw (to_be_u64 c) = Some mac"
  shows "totp_verify L t time code w = Inr (\<exists>i < 2 * unat w + 1.
      code_at L (ts_algorithm t) raw (ts_digits t)
        (window_counter (time div ucast (ts_period_secs t)) w i) = Inr code)"
proof -
  note r = totp_params_range [OF assms(2)]
  have v: "totp_secret_validate t = Inr ()" using assms(2) by (simp add: unit_result)
  let ?f = "\<lambda>i. code_at L (ts_algorithm t) raw (ts_digits t)
      (window_counter (time div ucast (ts_period_secs t)) w i)"
  have "\<exists>c. ?f i = Inr c" for i
    using assms(5) [of "window_counter (time div ucast (ts_period_secs t)) w i"] code_at_value [OF assms(1)] r
    by blast
  then have "verify_window ?f code 0 [0..<2 * unat w + 1] =
      Inr (if (0 :: u8) = 1 \<or> (\<exists>i\<in>set [0..<2 * unat w + 1]. ?f i = Inr code) then 1 else 0)"
    by (intro verify_window_ok) auto
  moreover have "validate_params (ts_period_secs t) (ts_digits t) = Inr ()" using r by simp
  ultimately show ?thesis
    using v assms(3,4) by (auto simp: totp_verify_def Let_def not_le simp del: upt_Suc)
qed

lemma totp_generate_eq:
  assumes "hmac_lengths L" and "totp_params_ok t"
    and "decode_base32_secret_strict L (ts_secret_b32 t) = Inr raw"
    and "hmac L (ts_algorithm t) raw (to_be_u64 (time div ucast (ts_period_secs t))) = Some mac"
  shows "totp_generate_from_secret L t time = Inr (of_nat (rfc4226_code mac (unat (ts_digits t))))"
proof -
  note r = totp_params_range [OF assms(2)]
  have "totp_secret_validate t = Inr ()" using assms(2) by (simp add: unit_result)
  moreover have "validate_params (ts_period_secs t) (ts_digits t) = Inr ()" using r by simp
  moreover have "code_at L (ts_algorithm t) raw (ts_digits t) (time div ucast (ts_period_secs t)) =
      Inr (of_nat (rfc4226_code mac (unat (ts_digits t))))"
    using code_at_value [OF assms(1,4)] r by simp
  ultimately show ?thesis
    using assms(3) by (simp add: totp_generate_from_secret_def totp_generate_raw_def)
qed

text \<open>A concrete instance of the crates, for the witnesses.\<close>
definition toy_totp :: totp_lib where
  "toy_totp = \<lparr>hmac = (\<lambda>a k msg. Some (take (case a of Sha1 \<Rightarrow> 20 | Sha256 \<Rightarrow> 32 | Sha512 \<Rightarrow> 64)
       (rev msg @ replicate 64 7))),
     base32_upper_unpadded_decode = (\<lambda>s n. Some (replicate 16 1)),
     base32_upper_decode = (\<lambda>s n. Some (replicate 16 1))\<rparr>"

definition toy_secret :: totp_secret where
  "toy_secret = \<lparr>ts_issuer = None, ts_account_name = None, ts_secret_b32 = replicate 26 65,
     ts_digits = 6, ts_period_secs = 30, ts_algorithm = Sha1\<rparr>"

lemma toy_totp_ok: "hmac_lengths toy_totp" "totp_params_ok toy_secret"
  "hmac toy_totp a k m = Some (take (case a of Sha1 \<Rightarrow> 20 | Sha256 \<Rightarrow> 32 | Sha512 \<Rightarrow> 64) (rev m @ replicate 64 7))"
  by (auto simp: hmac_lengths_def toy_totp_def totp_params_ok_def toy_secret_def is_b32_char_def list_all_iff
      split: totp_algorithm.splits)

lemma toy_decode: "decode_base32_secret_strict toy_totp (ts_secret_b32 toy_secret) = Inr (replicate 16 1)"
proof -
  let ?s = "replicate 26 65 :: rstring"
  have "trim_end_with (\<lambda>c. c = 61) ?s = ?s" by (rule trim_end_with_id) simp
  moreover have "str_len ?s = 26" by (simp add: str_len_def char_len_def sum_list_replicate)
  moreover have "is_ascii ?s" by (simp add: is_ascii_def is_ascii_char_def list_all_iff)
  moreover have "list_all is_b32_char ?s" by (simp add: list_all_iff is_b32_char_def)
  moreover have "\<not> list_ex (\<lambda>c. c = 61) ?s" by (simp add: list_ex_iff)
  moreover have "ts_secret_b32 toy_secret = ?s" by (simp only: toy_secret_def totp_secret.select_convs)
  moreover have "base32_upper_unpadded_decode toy_totp x n = Some (replicate 16 1)" for x n
    by (simp only: toy_totp_def totp_lib.select_convs)
  moreover have "?s \<noteq> []" by simp
  ultimately show ?thesis
    unfolding decode_base32_secret_strict_def Let_def
    by (simp only: MAX_SECRET_B32_LEN_def MIN_SECRET_RAW_LEN_def length_replicate) simp
qed

lemma toy_formats: "\<exists>str. totp_generate_formatted toy_totp toy_secret 59 = Inr str"
  using totp_generate_eq [OF toy_totp_ok(1,2) toy_decode toy_totp_ok(3), of 59]
  by (simp add: totp_generate_formatted_def) (simp add: toy_secret_def format_totp_code_def checked_pow_u32_def)

section \<open>Properties\<close>

text \<open>C28. Code generation is RFC 6238 on every valid entry: for parameters in range and a secret that
  decodes, the code at a time is the RFC 4226 truncation of the MAC of the time step, the
  generation cannot fail, and the code has at most the configured number of digits.\<close>

theorem totp_code_is_rfc:
  assumes "hmac_lengths L" and "totp_params_ok t"
    and "decode_base32_secret_strict L (ts_secret_b32 t) = Inr raw"
    and "hmac L (ts_algorithm t) raw (to_be_u64 (time div ucast (ts_period_secs t))) = Some mac"
  shows "\<exists>code. totp_generate_from_secret L t time = Inr code \<and>
    code = of_nat (rfc4226_code mac (unat (ts_digits t))) \<and> unat code < 10 ^ unat (ts_digits t)"
proof -
  note r = totp_params_range [OF assms(2)]
  let ?n = "rfc4226_code mac (unat (ts_digits t))"
  note g = totp_generate_eq [OF assms]
  have "?n < 10 ^ unat (ts_digits t)" by (rule rfc4226_code_bound)
  moreover have "(10 :: nat) ^ unat (ts_digits t) \<le> 10 ^ 8" using r digits_cases by fastforce
  ultimately have "unat (of_nat ?n :: u32) < 10 ^ unat (ts_digits t)" by (simp add: unat_of_nat)
  with g show ?thesis by simp
qed

theorem totp_code_is_rfc_witness:
  "\<exists>code. totp_generate_from_secret toy_totp toy_secret 59 = Inr code \<and> unat code < 10 ^ 6"
  using totp_code_is_rfc [OF toy_totp_ok(1,2) toy_decode toy_totp_ok(3), of 59]
  by (auto simp: toy_secret_def)

text \<open>C27. A generated code verifies: at any other time at most \<open>window\<close> steps away, for windows up to
  10, \<open>totp_verify\<close> accepts it; and it accepts a code only if that is the code of one of the at
  most \<open>2 * window + 1\<close> counters around the current step, saturating at both ends.\<close>

theorem totp_verify_exactly:
  assumes "hmac_lengths L" and "totp_params_ok t" and "w \<le> 10"
    and "decode_base32_secret_strict L (ts_secret_b32 t) = Inr raw"
    and "\<And>c. \<exists>mac. hmac L (ts_algorithm t) raw (to_be_u64 c) = Some mac"
    and "step = time div ucast (ts_period_secs t)" and "step' = time' div ucast (ts_period_secs t)"
  shows "(totp_verify L t time code w = Inr True \<longleftrightarrow>
      (\<exists>i < 2 * unat w + 1. code_at L (ts_algorithm t) raw (ts_digits t) (window_counter step w i) = Inr code)) \<and>
    (totp_generate_from_secret L t time' = Inr code \<and>
     unat step' \<le> unat step + unat w \<and> unat step \<le> unat step' + unat w \<longrightarrow>
       totp_verify L t time code w = Inr True)"
proof (intro conjI impI)
  note v = totp_verify_eq [OF assms(1-5)]
  show "totp_verify L t time code w = Inr True \<longleftrightarrow>
      (\<exists>i < 2 * unat w + 1. code_at L (ts_algorithm t) raw (ts_digits t) (window_counter step w i) = Inr code)"
    by (simp add: v assms(6))
  assume a: "totp_generate_from_secret L t time' = Inr code \<and>
     unat step' \<le> unat step + unat w \<and> unat step \<le> unat step' + unat w"
  then have "code_at L (ts_algorithm t) raw (ts_digits t) step' = Inr code"
    using assms(4,7) by (auto simp: totp_generate_from_secret_def totp_generate_raw_def)
  with window_counter_reaches [of step' step w] a show "totp_verify L t time code w = Inr True"
    by (auto simp: v assms(6))
qed

theorem totp_verify_exactly_witness:
  "\<exists>code. totp_generate_from_secret toy_totp toy_secret 59 = Inr code \<and>
     totp_verify toy_totp toy_secret 80 code 1 = Inr True"
proof -
  obtain code where c: "totp_generate_from_secret toy_totp toy_secret 59 = Inr code"
    using totp_generate_eq [OF toy_totp_ok(1,2) toy_decode toy_totp_ok(3)] by blast
  have "\<exists>mac. hmac toy_totp (ts_algorithm toy_secret) (replicate 16 1) (to_be_u64 d) = Some mac" for d
    using toy_totp_ok(3) by blast
  moreover have "unat (59 div ucast (ts_period_secs toy_secret) :: u64) = 1"
    "unat (80 div ucast (ts_period_secs toy_secret) :: u64) = 2"
    by (simp_all add: toy_secret_def)
  ultimately have "totp_verify toy_totp toy_secret 80 code 1 = Inr True"
    using totp_verify_exactly [OF toy_totp_ok(1,2) _ toy_decode _ refl refl, of 1 80 code 59] c by simp
  with c show ?thesis by blast
qed

text \<open>The text form of a code has exactly the configured number of characters, all of them decimal
  digits, and reads back as the code that was generated: leading zeros are kept and nothing is
  lost.\<close>

lemma totp_text_exact:
  assumes "totp_generate_formatted L t time = Inr str" and "hmac_lengths L"
  shows "length str = unat (ts_digits t) \<and> list_all is_digit str \<and>
    (\<exists>code. totp_generate_from_secret L t time = Inr code \<and> parse_uint (2 ^ 32 - 1) str = Some (unat code))"
proof -
  obtain code where c: "totp_generate_from_secret L t time = Inr code"
    and f: "format_totp_code code (ts_digits t) = Inr str"
    using assms(1) by (auto simp: totp_generate_formatted_def)
  have r: "6 \<le> ts_digits t" "ts_digits t \<le> 8" using f by (auto simp: format_totp_code_def)
  note p = checked_pow_digits [OF r]
  have str: "str = fmt_zero_padded (unat (ts_digits t)) (unat code mod 10 ^ unat (ts_digits t))"
    using f p by (auto simp: format_totp_code_def unat_mod_distrib)
  from c obtain raw mac where "hmac L (ts_algorithm t) raw (to_be_u64 (time div ucast (ts_period_secs t))) = Some mac"
    and m: "dynamic_truncate mac (ts_digits t) = Inr code"
    by (auto simp: totp_generate_from_secret_def totp_generate_raw_def code_at_def)
  from hmac_length [OF assms(2) this(1)] m have "code = of_nat (rfc4226_code mac (unat (ts_digits t)))"
    using dynamic_truncate_value [of mac "ts_digits t"] r by simp
  moreover have "(10 :: nat) ^ unat (ts_digits t) \<le> 10 ^ 8" using r digits_cases by fastforce
  ultimately have small: "unat code < 10 ^ unat (ts_digits t)"
    using rfc4226_code_bound [of mac "unat (ts_digits t)"] by (simp add: unat_of_nat)
  have "0 < unat (ts_digits t)" using digits_cases [OF r] by auto
  moreover have "unat code \<le> 2 ^ 32 - 1" using unat_u32_less [of code] by simp
  ultimately show ?thesis
    using c small by (auto simp: str fmt_zero_padded_length fmt_zero_padded_digit parse_fmt_zero_padded)
qed

end
