(* ===== verification/Clipboard.thy ===== *)
theory Clipboard
  imports Rust_String
begin

text \<open>
  \<open>clipboard/guard.rs\<close> and \<open>clipboard/ffi.rs\<close>: the clipboard guard, the background task that
  clears a copied secret, and the bridge to the clipboard of the host. The host is
  a value of an unknown type; what the host does is a parameter.
\<close>

section \<open>Backends\<close>

record 'h clipboard_backend =
  be_set :: "rstring \<Rightarrow> 'h \<Rightarrow> 'h"
  be_get :: "'h \<Rightarrow> 'h \<times> rstring option"
  be_clear :: "'h \<Rightarrow> 'h"

definition VV_OK :: int where "VV_OK = 0"
definition VV_ERR_NULL :: int where "VV_ERR_NULL = - 1"
definition VV_ERR_UTF8 :: int where "VV_ERR_UTF8 = - 2"
definition VV_ERR_PANIC :: int where "VV_ERR_PANIC = - 3"
definition VV_ERR_BOUNDS :: int where "VV_ERR_BOUNDS = - 5"
definition MAX_CLIPBOARD_BYTES :: nat where [limits]: "MAX_CLIPBOARD_BYTES = 1024 * 1024"
definition MAX_SECRET_BYTES :: nat where [limits]: "MAX_SECRET_BYTES = 64 * 1024"

text \<open>
  The callbacks of the host. A buffer is its address and its bytes, and a null pointer
  is \<open>None\<close>; every callback returns its code.
\<close>

record 'h clipboard_vtable =
  vt_set :: "(bytes \<Rightarrow> 'h \<Rightarrow> 'h \<times> int) option"
  vt_get :: "('h \<Rightarrow> 'h \<times> int \<times> (nat \<times> bytes) option) option"
  vt_clear :: "('h \<Rightarrow> 'h \<times> int) option"
  vt_free_buf :: "(nat \<Rightarrow> nat \<Rightarrow> 'h \<Rightarrow> 'h \<times> int) option"

definition ffi_set :: "'h clipboard_vtable \<Rightarrow> rstring \<Rightarrow> 'h \<Rightarrow> 'h" where
  "ffi_set vt value h = (case vt_set vt of Some f \<Rightarrow> fst (f (as_bytes value) h) | None \<Rightarrow> h)"

text \<open>The drop of \<open>HostBufGuard\<close> frees the buffer after the result has been computed.\<close>
definition ffi_get :: "'h clipboard_vtable \<Rightarrow> 'h \<Rightarrow> 'h \<times> rstring option" where
  "ffi_get vt h =
    (case (vt_get vt, vt_free_buf vt) of
       (Some get, Some free) \<Rightarrow>
         (let (h1, rc, out) = get h in
          if rc \<noteq> VV_OK then (h1, None)
          else case out of
            None \<Rightarrow> (h1, None)
          | Some (p, bs) \<Rightarrow>
              (fst (free p (length bs) h1),
               if bs = [] \<or> length bs > MAX_CLIPBOARD_BYTES then None else from_utf8 bs))
     | _ \<Rightarrow> (h, None))"

definition ffi_clear :: "'h clipboard_vtable \<Rightarrow> 'h \<Rightarrow> 'h" where
  "ffi_clear vt h = (case vt_clear vt of Some f \<Rightarrow> fst (f h) | None \<Rightarrow> h)"

definition ffi_backend :: "'h clipboard_vtable \<Rightarrow> 'h clipboard_backend" where
  "ffi_backend vt = \<lparr>be_set = ffi_set vt, be_get = ffi_get vt, be_clear = ffi_clear vt\<rparr>"

section \<open>The guard\<close>

text \<open>
  The stages of a clearing task: not polled yet, asleep, and between the comparison that
  matched and the call of \<open>clear\<close>. A task that has ended is no longer in the table.
\<close>

datatype clear_phase = Spawned | Sleeping instant | Matched

record clear_task =
  ct_value :: rstring
  ct_timeout :: duration
  ct_phase :: clear_phase

record 'h clipboard_guard =
  cg_host :: 'h
  cg_task :: "nat option"
  cg_tasks :: "nat \<Rightarrow> clear_task option"
  cg_fresh :: nat
  cg_now :: instant

definition guard_new :: "'h \<Rightarrow> 'h clipboard_guard" where
  "guard_new h = \<lparr>cg_host = h, cg_task = None, cg_tasks = Map.empty, cg_fresh = 0, cg_now = 0\<rparr>"

text \<open>
  \<open>task.abort()\<close> takes effect where the task waits: a task that is past its sleep runs
  to its end.
\<close>
definition abort_clear_task :: "nat \<Rightarrow> 'h clipboard_guard \<Rightarrow> 'h clipboard_guard" where
  "abort_clear_task i g =
    (case cg_tasks g i of
       Some t \<Rightarrow> if ct_phase t = Matched then g else g\<lparr>cg_tasks := (cg_tasks g)(i := None)\<rparr>
     | None \<Rightarrow> g)"

definition cancel :: "'h clipboard_guard \<Rightarrow> 'h clipboard_guard" where
  "cancel g =
    (case cg_task g of
       Some i \<Rightarrow> abort_clear_task i (g\<lparr>cg_task := None\<rparr>)
     | None \<Rightarrow> g)"

definition spawn_clear_task :: "rstring \<Rightarrow> duration \<Rightarrow> 'h clipboard_guard \<Rightarrow> 'h clipboard_guard" where
  "spawn_clear_task value timeout g =
    g\<lparr>cg_task := Some (cg_fresh g),
      cg_tasks := (cg_tasks g)(cg_fresh g \<mapsto> \<lparr>ct_value = value, ct_timeout = timeout, ct_phase = Spawned\<rparr>),
      cg_fresh := cg_fresh g + 1\<rparr>"

definition copy_with_timeout ::
    "'h clipboard_backend \<Rightarrow> rstring \<Rightarrow> duration \<Rightarrow> 'h clipboard_guard \<Rightarrow> 'h clipboard_guard" where
  "copy_with_timeout B secret timeout g =
    (let g1 = g\<lparr>cg_host := be_set B secret (cg_host g)\<rparr>;
         g2 = cancel g1
     in spawn_clear_task secret timeout g2)"

text \<open>
  In a thread that has not entered a tokio runtime \<open>tokio::spawn\<close> panics: the secret has been
  written and the old task aborted by then, and nothing of that is undone.
\<close>
definition copy_without_runtime ::
    "'h clipboard_backend \<Rightarrow> rstring \<Rightarrow> 'h clipboard_guard \<Rightarrow> 'h clipboard_guard" where
  "copy_without_runtime B secret g = cancel (g\<lparr>cg_host := be_set B secret (cg_host g)\<rparr>)"

text \<open>\<open>Drop\<close>: the pending task is aborted, the clipboard is left alone.\<close>
definition guard_drop :: "'h clipboard_guard \<Rightarrow> 'h clipboard_guard" where
  "guard_drop g = cancel g"

section \<open>The clearing task\<close>

text \<open>First poll: the sleep starts.\<close>
definition clear_task_start :: "nat \<Rightarrow> 'h clipboard_guard \<Rightarrow> 'h clipboard_guard" where
  "clear_task_start i g =
    (case cg_tasks g i of
       Some t \<Rightarrow> if ct_phase t = Spawned
         then g\<lparr>cg_tasks := (cg_tasks g)(i \<mapsto> t\<lparr>ct_phase := Sleeping (cg_now g + ct_timeout t)\<rparr>)\<rparr>
         else g
     | None \<Rightarrow> g)"

text \<open>The sleep is over: the content is read and compared.\<close>
definition clear_task_check :: "'h clipboard_backend \<Rightarrow> nat \<Rightarrow> 'h clipboard_guard \<Rightarrow> 'h clipboard_guard" where
  "clear_task_check B i g =
    (case cg_tasks g i of
       Some t \<Rightarrow>
         (case ct_phase t of
            Sleeping d \<Rightarrow>
              if d \<le> cg_now g then
                (let (h, current) = be_get B (cg_host g) in
                 g\<lparr>cg_host := h,
                   cg_tasks := (cg_tasks g)(i := if current = Some (ct_value t)
                     then Some (t\<lparr>ct_phase := Matched\<rparr>) else None)\<rparr>)
              else g
          | _ \<Rightarrow> g)
     | None \<Rightarrow> g)"

text \<open>The content matched: it is cleared and the task ends.\<close>
definition clear_task_clear :: "'h clipboard_backend \<Rightarrow> nat \<Rightarrow> 'h clipboard_guard \<Rightarrow> 'h clipboard_guard" where
  "clear_task_clear B i g =
    (case cg_tasks g i of
       Some t \<Rightarrow> if ct_phase t = Matched
         then g\<lparr>cg_host := be_clear B (cg_host g), cg_tasks := (cg_tasks g)(i := None)\<rparr>
         else g
     | None \<Rightarrow> g)"

text \<open>The poll that follows the sleep, when nothing happens between its two calls.\<close>
definition clear_task_fire :: "'h clipboard_backend \<Rightarrow> nat \<Rightarrow> 'h clipboard_guard \<Rightarrow> 'h clipboard_guard" where
  "clear_task_fire B i g = clear_task_clear B i (clear_task_check B i g)"

section \<open>Events\<close>

datatype 'h clip_event =
  CeCopy rstring duration
| CeCancel
| CeTick duration
| CeStart nat
| CeFire nat
| CeOther "'h \<Rightarrow> 'h"   \<comment> \<open>another program uses the clipboard\<close>
| CeCheck nat
| CeClear nat

fun clip_exec :: "'h clipboard_backend \<Rightarrow> 'h clipboard_guard \<Rightarrow> 'h clip_event \<Rightarrow> 'h clipboard_guard" where
  "clip_exec B g (CeCopy s d) = copy_with_timeout B s d g"
| "clip_exec B g CeCancel = cancel g"
| "clip_exec B g (CeTick d) = g\<lparr>cg_now := cg_now g + d\<rparr>"
| "clip_exec B g (CeStart i) = clear_task_start i g"
| "clip_exec B g (CeFire i) = clear_task_fire B i g"
| "clip_exec B g (CeOther f) = g\<lparr>cg_host := f (cg_host g)\<rparr>"
| "clip_exec B g (CeCheck i) = clear_task_check B i g"
| "clip_exec B g (CeClear i) = clear_task_clear B i g"

abbreviation run_clip :: "'h clipboard_backend \<Rightarrow> 'h clipboard_guard \<Rightarrow> 'h clip_event list \<Rightarrow> 'h clipboard_guard" where
  "run_clip B \<equiv> run (clip_exec B)"

text \<open>Events in which a poll of a task is not interrupted.\<close>
fun whole_poll :: "'h clip_event \<Rightarrow> bool" where
  "whole_poll (CeCheck i) = False"
| "whole_poll (CeClear i) = False"
| "whole_poll _ = True"

fun elapsed :: "'h clip_event list \<Rightarrow> duration" where
  "elapsed [] = 0"
| "elapsed (CeTick d # es) = d + elapsed es"
| "elapsed (_ # es) = elapsed es"

section \<open>The bridge\<close>

text \<open>
  \<open>vv_clipboard_guard_new\<close>: a guard over the given callbacks, or null. The user data is
  opaque, only whether it is null matters.
\<close>
definition vv_clipboard_guard_new ::
    "'h clipboard_vtable \<Rightarrow> bool \<Rightarrow> 'h \<Rightarrow> ('h clipboard_backend \<times> 'h clipboard_guard) option" where
  "vv_clipboard_guard_new vt user_data_is_null h =
    (if user_data_is_null then None
     else if vt_set vt = None \<or> vt_get vt = None \<or> vt_clear vt = None \<or> vt_free_buf vt = None then None
     else Some (ffi_backend vt, guard_new h))"

definition vv_clipboard_guard_free :: "'h clipboard_guard option \<Rightarrow> 'h clipboard_guard option" where
  "vv_clipboard_guard_free handle = map_option guard_drop handle"

definition vv_clipboard_guard_cancel :: "'h clipboard_guard option \<Rightarrow> 'h clipboard_guard option \<times> int" where
  "vv_clipboard_guard_cancel handle =
    (case handle of None \<Rightarrow> (None, VV_ERR_NULL) | Some g \<Rightarrow> (Some (cancel g), VV_OK))"

text \<open>
  The secret is a pointer to \<open>secret_len\<close> readable bytes, or null. The library is built with
  unwinding panics, so a panic ends in \<open>catch_unwind\<close>; \<open>in_runtime\<close> is whether the calling thread
  has entered a tokio runtime, which nothing in the library does for it.
\<close>
definition vv_clipboard_guard_copy_with_timeout ::
    "'h clipboard_backend \<Rightarrow> bool \<Rightarrow> 'h clipboard_guard option \<Rightarrow> bytes option \<Rightarrow> u64
      \<Rightarrow> 'h clipboard_guard option \<times> int" where
  "vv_clipboard_guard_copy_with_timeout B in_runtime handle secret_ptr timeout_ms =
    (case (handle, secret_ptr) of
       (Some g, Some secret) \<Rightarrow>
         if secret = [] \<or> length secret > MAX_SECRET_BYTES then (Some g, VV_ERR_BOUNDS)
         else (case from_utf8 secret of
             Some s \<Rightarrow>
               if in_runtime then (Some (copy_with_timeout B s (dur_millis (unat timeout_ms)) g), VV_OK)
               else (Some (copy_without_runtime B s g), VV_ERR_PANIC)
           | None \<Rightarrow> (Some g, VV_ERR_UTF8))
     | _ \<Rightarrow> (handle, VV_ERR_NULL))"

section \<open>What is relied on of a backend\<close>

abbreviation content :: "'h clipboard_backend \<Rightarrow> 'h \<Rightarrow> rstring option" where
  "content B h \<equiv> snd (be_get B h)"

text \<open>
  Reading does not change the content, \<open>clear\<close> empties it, and the text \<open>s\<close> reads back
  after it was set.
\<close>
definition backend_laws :: "'h clipboard_backend \<Rightarrow> rstring \<Rightarrow> bool" where
  "backend_laws B s \<longleftrightarrow>
     (\<forall>h. content B (be_set B s h) = Some s) \<and>
     (\<forall>h. content B (fst (be_get B h)) = content B h) \<and>
     (\<forall>h. content B (be_clear B h) = None \<or> content B (be_clear B h) = Some [])"

lemma backend_lawsD:
  assumes "backend_laws B s"
  shows "content B (be_set B s h) = Some s" "content B (fst (be_get B h)) = content B h"
    "content B (be_clear B h) = None \<or> content B (be_clear B h) = Some []"
  using assms by (auto simp: backend_laws_def)

lemma abort_clear_task_simps [simp]:
  "cg_host (abort_clear_task i g) = cg_host g" "cg_now (abort_clear_task i g) = cg_now g"
  "cg_task (abort_clear_task i g) = cg_task g" "cg_fresh (abort_clear_task i g) = cg_fresh g"
  by (auto simp: abort_clear_task_def split: option.splits)

lemma cancel_simps [simp]:
  "cg_host (cancel g) = cg_host g" "cg_now (cancel g) = cg_now g" "cg_fresh (cancel g) = cg_fresh g"
  "cg_task (cancel g) = None"
  by (auto simp: cancel_def split: option.splits)

lemma copy_simps [simp]:
  "cg_host (copy_with_timeout B s d g) = be_set B s (cg_host g)"
  "cg_now (copy_with_timeout B s d g) = cg_now g"
  "cg_task (copy_with_timeout B s d g) = Some (cg_fresh g)"
  "cg_tasks (copy_with_timeout B s d g) (cg_fresh g) = Some \<lparr>ct_value = s, ct_timeout = d, ct_phase = Spawned\<rparr>"
  by (simp_all add: copy_with_timeout_def spawn_clear_task_def Let_def)

lemma clear_task_fire_eq:
  assumes "cg_tasks g i = Some t" and "ct_phase t = Sleeping d" and "d \<le> cg_now g"
  shows "clear_task_fire B i g = g\<lparr>cg_host := if content B (cg_host g) = Some (ct_value t)
      then be_clear B (fst (be_get B (cg_host g))) else fst (be_get B (cg_host g)),
    cg_tasks := (cg_tasks g)(i := None)\<rparr>"
  using assms by (auto simp: clear_task_fire_def clear_task_check_def clear_task_clear_def case_prod_beta)

lemma clear_task_fire_idle:
  assumes "\<forall>t. cg_tasks g i = Some t \<longrightarrow> ct_phase t \<noteq> Matched \<and> (\<forall>d. ct_phase t = Sleeping d \<longrightarrow> cg_now g < d)"
  shows "clear_task_fire B i g = g"
proof (cases "cg_tasks g i")
  case (Some t)
  with assms show ?thesis
    by (cases "ct_phase t") (auto simp: clear_task_fire_def clear_task_check_def clear_task_clear_def)
qed (simp add: clear_task_fire_def clear_task_check_def clear_task_clear_def)

section \<open>One task at a time\<close>

text \<open>
  Between polls, the only task there can be is the one whose handle the guard keeps.
\<close>
definition sole_task :: "'h clipboard_guard \<Rightarrow> bool" where
  "sole_task g \<longleftrightarrow> cg_tasks g = Map.empty \<or>
     (\<exists>i t. cg_task g = Some i \<and> cg_tasks g = [i \<mapsto> t] \<and> ct_phase t \<noteq> Matched)"

lemma sole_cases:
  assumes "sole_task g"
  obtains "cg_tasks g = Map.empty"
  | i t where "cg_task g = Some i" "cg_tasks g = [i \<mapsto> t]" "ct_phase t \<noteq> Matched"
  using assms unfolding sole_task_def by blast

lemma sole_single: "cg_task g = Some i \<Longrightarrow> cg_tasks g = [i \<mapsto> t] \<Longrightarrow> ct_phase t \<noteq> Matched \<Longrightarrow> sole_task g"
  by (auto simp: sole_task_def)

lemma sole_cancel: "sole_task g \<Longrightarrow> cg_tasks (cancel g) = Map.empty"
  by (erule sole_cases) (auto simp: cancel_def abort_clear_task_def split: option.splits)

lemma sole_copy:
  assumes "sole_task g"
  shows "cg_tasks (copy_with_timeout B s d g) = [cg_fresh g \<mapsto> \<lparr>ct_value = s, ct_timeout = d, ct_phase = Spawned\<rparr>]"
proof -
  have "sole_task (g\<lparr>cg_host := h\<rparr>)" for h using assms by (simp add: sole_task_def)
  then show ?thesis
    by (simp add: copy_with_timeout_def spawn_clear_task_def Let_def sole_cancel)
qed

lemma sole_start:
  assumes "sole_task g"
  shows "sole_task (clear_task_start i g)"
  using assms
proof (cases rule: sole_cases)
  case (2 j t)
  have "clear_task_start i g = g \<or>
      clear_task_start i g = g\<lparr>cg_tasks := [j \<mapsto> t\<lparr>ct_phase := Sleeping (cg_now g + ct_timeout t)\<rparr>]\<rparr>"
    using 2 by (auto simp: clear_task_start_def)
  with assms 2 show ?thesis by (auto simp: sole_task_def fun_eq_iff)
qed (simp add: clear_task_start_def sole_task_def)

lemma sole_fire:
  assumes "sole_task g"
  shows "sole_task (clear_task_fire B i g)"
proof (cases "\<exists>t d. cg_tasks g i = Some t \<and> ct_phase t = Sleeping d \<and> d \<le> cg_now g")
  case True
  then obtain t d where *: "cg_tasks g i = Some t" "ct_phase t = Sleeping d" "d \<le> cg_now g" by blast
  then have "cg_tasks g = [i \<mapsto> t]" using assms by (auto elim!: sole_cases split: if_splits)
  with * show ?thesis by (simp add: clear_task_fire_eq sole_task_def)
next
  case False
  then have "clear_task_fire B i g = g"
    using assms by (intro clear_task_fire_idle) (auto elim!: sole_cases simp: not_le split: if_splits)
  with assms show ?thesis by simp
qed

interpretation sole: step_invariant "clip_exec B" "\<lambda>g e. whole_poll e" sole_task for B :: "'h clipboard_backend"
proof unfold_locales
  show "sole_task (clip_exec B g e)" if "sole_task g" "whole_poll e" for g e
  proof (cases e)
    case (CeStart i)
    with that show ?thesis by (simp add: sole_start)
  next
    case CeCancel
    with that show ?thesis by (simp add: sole_task_def [of "cancel g"] sole_cancel)
  next
    case (CeCopy s d)
    with that show ?thesis by (auto intro: sole_single sole_copy)
  next
    case (CeFire i)
    with that show ?thesis by (simp add: sole_fire)
  qed (use that in \<open>auto simp: sole_task_def\<close>)
qed

lemma sole_new: "sole_task (guard_new h)"
  by (simp add: sole_task_def guard_new_def)

section \<open>A copy keeps its time\<close>

lemma cancel_keeps_tasks: "cg_tasks (cancel g) i = Some t \<Longrightarrow> cg_tasks g i = Some t"
  by (auto simp: cancel_def abort_clear_task_def split: option.splits if_splits)

text \<open>The copied text is there, and every task that is left is one of its copy.\<close>
definition holds :: "'h clipboard_backend \<Rightarrow> rstring \<Rightarrow> duration \<Rightarrow> instant \<Rightarrow> 'h clipboard_guard \<Rightarrow> bool" where
  "holds B s d t0 g \<longleftrightarrow> content B (cg_host g) = Some s \<and> t0 \<le> cg_now g \<and>
     (\<forall>i t. cg_tasks g i = Some t \<longrightarrow> ct_timeout t = d \<and>
        (ct_phase t = Spawned \<or> (\<exists>e. ct_phase t = Sleeping e \<and> t0 + d \<le> e)))"

fun keeps_copy :: "'h clip_event \<Rightarrow> bool" where
  "keeps_copy (CeCopy s d) = False"
| "keeps_copy (CeOther f) = False"
| "keeps_copy e = whole_poll e"

interpretation held: step_invariant "clip_exec B"
    "\<lambda>g e. keeps_copy e \<and> cg_now (clip_exec B g e) < t0 + d" "holds B s d t0"
  for B :: "'h clipboard_backend" and t0 d s
proof unfold_locales
  show "holds B s d t0 (clip_exec B g e)"
    if h: "holds B s d t0 g" and ok: "keeps_copy e \<and> cg_now (clip_exec B g e) < t0 + d" for g e
  proof (cases e)
    case CeCancel
    with h show ?thesis by (auto simp: holds_def dest!: cancel_keeps_tasks)
  next
    case (CeStart i)
    with h show ?thesis by (auto simp: holds_def clear_task_start_def split: option.splits)
  next
    case (CeFire i)
    have "cg_now (clear_task_fire B i g) = cg_now g"
      by (auto simp: clear_task_fire_def clear_task_check_def clear_task_clear_def
          split: option.splits clear_phase.splits prod.splits)
    with ok CeFire have "cg_now g < t0 + d" by simp
    with h have "clear_task_fire B i g = g"
      by (intro clear_task_fire_idle) (fastforce simp: holds_def)
    with h CeFire show ?thesis by simp
  qed (use h ok in \<open>auto simp: holds_def\<close>)
qed

lemma clip_now_keeps: "keeps_copy e \<Longrightarrow> cg_now (clip_exec B g e) = cg_now g + elapsed [e]"
  by (cases e) (auto simp: clear_task_start_def clear_task_fire_def clear_task_check_def clear_task_clear_def
      split: option.splits clear_phase.splits prod.splits)

lemma elapsed_Cons: "elapsed (e # es) = elapsed [e] + elapsed es"
  by (cases e) auto

lemma run_within_elapsed:
  "list_all keeps_copy es \<Longrightarrow> cg_now g + elapsed es < t \<Longrightarrow>
   run_within (\<lambda>g e. keeps_copy e \<and> cg_now (clip_exec B g e) < t) (clip_exec B) g es"
proof (induction es arbitrary: g)
  case (Cons e es)
  from Cons.prems(2) have "cg_now g + elapsed [e] + elapsed es < t"
    using elapsed_Cons [of e es] by linarith
  then have "cg_now (clip_exec B g e) + elapsed es < t" using Cons.prems(1) by (simp add: clip_now_keeps)
  with Cons show ?case by auto
qed simp

section \<open>A copy is cleared in time\<close>

text \<open>Events that leave task \<open>i\<close> to its sleep.\<close>
fun leaves :: "nat \<Rightarrow> 'h clip_event \<Rightarrow> bool" where
  "leaves i (CeCopy s d) = False"
| "leaves i CeCancel = False"
| "leaves i (CeFire j) = (j \<noteq> i)"
| "leaves i (CeCheck j) = (j \<noteq> i)"
| "leaves i e = True"

definition asleep :: "nat \<Rightarrow> rstring \<Rightarrow> duration \<Rightarrow> 'h clipboard_guard \<Rightarrow> bool" where
  "asleep i s d g \<longleftrightarrow> (\<exists>t e. cg_tasks g i = Some t \<and> ct_value t = s \<and> ct_phase t = Sleeping e \<and> e \<le> cg_now g + d)"

definition copied :: "nat \<Rightarrow> rstring \<Rightarrow> duration \<Rightarrow> 'h clipboard_guard \<Rightarrow> bool" where
  "copied i s d g \<longleftrightarrow> asleep i s d g \<or>
     cg_tasks g i = Some \<lparr>ct_value = s, ct_timeout = d, ct_phase = Spawned\<rparr>"

lemmas clip_step_defs = clear_task_start_def clear_task_fire_def clear_task_check_def clear_task_clear_def

lemma leaves_step:
  assumes "leaves i e"
  shows "cg_now (clip_exec B g e) = cg_now g + elapsed [e]"
    and "cg_tasks g i = Some t \<Longrightarrow> ct_phase t = Sleeping d \<Longrightarrow> cg_tasks (clip_exec B g e) i = Some t"
  using assms by (cases e; auto simp: clip_step_defs split: option.splits clear_phase.splits prod.splits)+

lemma asleep_run:
  "list_all (leaves i) es \<Longrightarrow> cg_tasks g i = Some t \<Longrightarrow> ct_phase t = Sleeping d \<Longrightarrow>
   cg_tasks (run_clip B g es) i = Some t \<and> cg_now (run_clip B g es) = cg_now g + elapsed es"
proof (induction es arbitrary: g)
  case (Cons e es)
  then show ?case using leaves_step [where i = i and e = e and g = g and B = B] elapsed_Cons [of e es] by simp
qed simp

interpretation kept: step_invariant "clip_exec B" "\<lambda>g e. leaves i e" "copied i s d"
  for B :: "'h clipboard_backend" and i s d
proof unfold_locales
  show "copied i s d (clip_exec B g e)" if "copied i s d g" "leaves i e" for g e
  proof (cases "asleep i s d g")
    case True
    then obtain t u where "cg_tasks g i = Some t" "ct_value t = s" "ct_phase t = Sleeping u" "u \<le> cg_now g + d"
      by (auto simp: asleep_def)
    with leaves_step [where i = i and e = e and g = g and B = B, OF that(2)] show ?thesis by (auto simp: copied_def asleep_def)
  next
    case False
    with that(1) have "cg_tasks g i = Some \<lparr>ct_value = s, ct_timeout = d, ct_phase = Spawned\<rparr>"
      by (simp add: copied_def)
    with that(2) show ?thesis
      by (cases e) (auto simp: copied_def asleep_def clip_step_defs split: option.splits clear_phase.splits prod.splits)
  qed
qed

lemma copied_start: "copied i s d g \<Longrightarrow> asleep i s d (clear_task_start i g)"
  by (auto simp: copied_def asleep_def clear_task_start_def)

section \<open>A clear that has been decided\<close>

fun not_ended :: "nat \<Rightarrow> 'h clip_event \<Rightarrow> bool" where
  "not_ended i (CeFire j) = (j \<noteq> i)"
| "not_ended i (CeClear j) = (j \<noteq> i)"
| "not_ended i e = True"

definition decided :: "nat \<Rightarrow> 'h clipboard_guard \<Rightarrow> bool" where
  "decided i g \<longleftrightarrow> i < cg_fresh g \<and> (\<exists>t. cg_tasks g i = Some t \<and> ct_phase t = Matched)"

lemma decided_cancel: "decided i g \<Longrightarrow> decided i (cancel g)"
  by (auto simp: decided_def cancel_def abort_clear_task_def split: option.splits)

interpretation past_check: step_invariant "clip_exec B" "\<lambda>g e. not_ended i e" "decided i"
  for B :: "'h clipboard_backend" and i
proof unfold_locales
  show "decided i (clip_exec B g e)" if "decided i g" "not_ended i e" for g e
  proof (cases e)
    case (CeCopy s d)
    have "decided i (cancel (g\<lparr>cg_host := be_set B s (cg_host g)\<rparr>))"
      by (rule decided_cancel) (use that in \<open>simp add: decided_def\<close>)
    with CeCopy show ?thesis
      by (auto simp: copy_with_timeout_def spawn_clear_task_def Let_def decided_def)
  next
    case CeCancel
    with that show ?thesis by (simp add: decided_cancel)
  qed (use that in \<open>auto simp: decided_def clip_step_defs split: option.splits clear_phase.splits prod.splits\<close>)
qed

section \<open>A copy without a task\<close>

definition abandoned :: "'h clipboard_backend \<Rightarrow> rstring \<Rightarrow> 'h clipboard_guard \<Rightarrow> bool" where
  "abandoned B s g \<longleftrightarrow> content B (cg_host g) = Some s \<and> cg_tasks g = Map.empty"

interpretation left_alone: step_invariant "clip_exec B" "\<lambda>g e. keeps_copy e" "abandoned B s"
  for B :: "'h clipboard_backend" and s
proof unfold_locales
  show "abandoned B s (clip_exec B g e)" if "abandoned B s g" "keeps_copy e" for g e
    using that by (cases e) (auto simp: abandoned_def clip_step_defs cancel_def abort_clear_task_def
        split: option.splits)
qed

section \<open>Buffers of the host\<close>

text \<open>
  \<open>bufs\<close> are the addresses of the buffers the host has handed out: a successful read
  returns a new one or null, \<open>free_buf\<close> gives back one that is out, nothing else
  changes them.
\<close>
definition buffer_contract :: "'h clipboard_vtable \<Rightarrow> ('h \<Rightarrow> nat set) \<Rightarrow> bool" where
  "buffer_contract vt bufs \<longleftrightarrow>
     (\<forall>f bs h. vt_set vt = Some f \<longrightarrow> bufs (fst (f bs h)) = bufs h) \<and>
     (\<forall>f h. vt_clear vt = Some f \<longrightarrow> bufs (fst (f h)) = bufs h) \<and>
     (\<forall>f h. vt_get vt = Some f \<longrightarrow> (case f h of (h', rc, out) \<Rightarrow>
        (case out of
           Some (p, bs) \<Rightarrow> if rc = VV_OK then p \<notin> bufs h \<and> bufs h' = insert p (bufs h) else bufs h' = bufs h
         | None \<Rightarrow> bufs h' = bufs h))) \<and>
     (\<forall>f p n h. vt_free_buf vt = Some f \<longrightarrow> p \<in> bufs h \<longrightarrow> bufs (fst (f p n h)) = bufs h - {p})"

lemma ffi_get_bufs:
  assumes "buffer_contract vt bufs"
  shows "bufs (fst (ffi_get vt h)) = bufs h"
proof (cases "vt_get vt = None \<or> vt_free_buf vt = None")
  case False
  then obtain get free where f: "vt_get vt = Some get" "vt_free_buf vt = Some free" by auto
  obtain h1 rc out where g: "get h = (h1, rc, out)" by (cases "get h") auto
  have fr: "p \<in> bufs h1 \<Longrightarrow> bufs (fst (free p n h1)) = bufs h1 - {p}" for p n
    using assms f(2) by (simp add: buffer_contract_def)
  have c: "case get h of (h', rc, out) \<Rightarrow> (case out of
      Some (p, bs) \<Rightarrow> if rc = VV_OK then p \<notin> bufs h \<and> bufs h' = insert p (bufs h) else bufs h' = bufs h
    | None \<Rightarrow> bufs h' = bufs h)"
    using assms f(1) by (simp add: buffer_contract_def)
  show ?thesis
  proof (cases out)
    case None
    with c f g show ?thesis by (simp add: ffi_get_def)
  next
    case (Some pb)
    obtain p bs where "pb = (p, bs)" by (cases pb)
    with Some c f g fr [of p "length bs"] show ?thesis by (auto simp: ffi_get_def)
  qed
qed (auto simp: ffi_get_def split: option.splits)

lemma ffi_bufs:
  assumes "buffer_contract vt bufs"
  shows "bufs (be_set (ffi_backend vt) s h) = bufs h" "bufs (be_clear (ffi_backend vt) h) = bufs h"
    "bufs (fst (be_get (ffi_backend vt) h)) = bufs h"
  using assms ffi_get_bufs [OF assms]
  by (auto simp: ffi_backend_def ffi_set_def ffi_clear_def buffer_contract_def split: option.splits)

text \<open>Other programs have their own buffers.\<close>
fun own_buffers :: "('h \<Rightarrow> nat set) \<Rightarrow> 'h clipboard_guard \<Rightarrow> 'h clip_event \<Rightarrow> bool" where
  "own_buffers bufs g (CeOther f) = (bufs (f (cg_host g)) = bufs (cg_host g))"
| "own_buffers bufs g _ = True"

lemma buffers_step:
  assumes "buffer_contract vt bufs" and "own_buffers bufs g e"
  shows "bufs (cg_host (clip_exec (ffi_backend vt) g e)) = bufs (cg_host g)"
  using assms(2) ffi_bufs [OF assms(1)]
  by (cases e) (auto simp: clip_step_defs copy_with_timeout_def spawn_clear_task_def Let_def
      case_prod_beta split: option.splits clear_phase.splits)

interpretation bridged: step_invariant "clip_exec (ffi_backend vt)"
    "\<lambda>g e. buffer_contract vt bufs \<and> own_buffers bufs g e" "\<lambda>g. bufs (cg_host g) = S"
  for vt :: "'h clipboard_vtable" and bufs S
  by unfold_locales (auto simp: buffers_step)

lemma run_within_mono:
  "run_within ok exec s es \<Longrightarrow> A \<Longrightarrow> run_within (\<lambda>s e. A \<and> ok s e) exec s es"
  by (induction es arbitrary: s) auto

section \<open>A host to run on\<close>

type_synonym demo_host = "bytes option \<times> nat list"

definition demo_vtable :: "demo_host clipboard_vtable" where
  "demo_vtable = \<lparr>vt_set = Some (\<lambda>bs (c, l). ((Some bs, l), 0)),
     vt_get = Some (\<lambda>(c, l). case c of None \<Rightarrow> ((c, l), 0, None)
       | Some bs \<Rightarrow> ((c, Suc (sum_list l) # l), 0, Some (Suc (sum_list l), bs))),
     vt_clear = Some (\<lambda>(c, l). ((None, l), 0)),
     vt_free_buf = Some (\<lambda>p n (c, l). ((c, filter (\<lambda>q. q \<noteq> p) l), 0))\<rparr>"

definition demo_bufs :: "demo_host \<Rightarrow> nat set" where "demo_bufs h = set (snd h)"

lemma demo_contract: "buffer_contract demo_vtable demo_bufs"
proof -
  have "Suc (sum_list l) \<notin> set l" for l :: "nat list"
    using member_le_sum_list [of "Suc (sum_list l)" l] by auto
  then show ?thesis
    by (auto simp: buffer_contract_def demo_vtable_def demo_bufs_def VV_OK_def split: option.splits)
qed

lemma demo_content: "content (ffi_backend demo_vtable) (c, l) = (case c of None \<Rightarrow> None
    | Some bs \<Rightarrow> if bs = [] \<or> length bs > MAX_CLIPBOARD_BYTES then None else from_utf8 bs)"
  by (auto simp: ffi_backend_def ffi_get_def demo_vtable_def VV_OK_def split: option.splits)

lemma demo_get_keeps: "fst (fst (be_get (ffi_backend demo_vtable) (c, l))) = c"
  by (auto simp: ffi_backend_def ffi_get_def demo_vtable_def VV_OK_def split: option.splits)

lemma as_bytes_Nil_iff [simp]: "as_bytes s = [] \<longleftrightarrow> s = []"
  using length_as_bytes [of s] by (cases "as_bytes s = []") auto

lemma demo_laws:
  assumes "scalars s" and "s \<noteq> []" and "str_len s \<le> MAX_CLIPBOARD_BYTES"
  shows "backend_laws (ffi_backend demo_vtable) s"
  unfolding backend_laws_def
proof (intro conjI allI)
  fix h :: demo_host
  obtain c l where h: "h = (c, l)" by (cases h)
  show "content (ffi_backend demo_vtable) (be_set (ffi_backend demo_vtable) s h) = Some s"
    using assms by (simp add: h ffi_backend_def ffi_set_def demo_vtable_def ffi_get_def VV_OK_def length_as_bytes
        from_utf8_as_bytes)
  show "content (ffi_backend demo_vtable) (be_clear (ffi_backend demo_vtable) h) = None \<or>
      content (ffi_backend demo_vtable) (be_clear (ffi_backend demo_vtable) h) = Some []"
    by (simp add: h ffi_backend_def ffi_clear_def demo_vtable_def ffi_get_def VV_OK_def)
  obtain c' l' where g: "fst (be_get (ffi_backend demo_vtable) h) = (c', l')" by (cases "fst (be_get (ffi_backend demo_vtable) h)")
  then have "c' = c" using demo_get_keeps [of c l] h by simp
  with g h show "content (ffi_backend demo_vtable) (fst (be_get (ffi_backend demo_vtable) h)) =
      content (ffi_backend demo_vtable) h"
    by (simp add: demo_content)
qed

section \<open>Properties\<close>

text \<open>C24. A copied secret stays on the clipboard for its whole timeout, as long as every poll of a timer runs
  from its comparison to its clear without another step in between: whatever copies and timers came
  before, no earlier timer clears it, nor does cancelling or polling any task; only another program
  or another copy replaces it before then. (A timer that was interrupted between the two, on another
  thread, is the subject of C26: that one can clear the new secret.)\<close>

theorem copied_secret_keeps_its_time:
  assumes "backend_laws B s" and "list_all whole_poll past" and "list_all keeps_copy es" and "elapsed es < d"
  shows "content B (cg_host (run_clip B (guard_new h) (past @ CeCopy s d # es))) = Some s"
proof -
  let ?g = "run_clip B (guard_new h) past"
  have "sole_task ?g" using assms(2) by (intro sole.run_inv_all sole_new) (simp add: list_all_iff)
  then have "holds B s d (cg_now ?g) (copy_with_timeout B s d ?g)"
    using backend_lawsD(1) [OF assms(1)] by (simp add: holds_def sole_copy)
  then have "holds B s d (cg_now ?g) (run_clip B (copy_with_timeout B s d ?g) es)"
    using assms(3,4) by (intro held.run_inv run_within_elapsed) auto
  then show ?thesis by (simp add: run_append holds_def)
qed

theorem copied_secret_keeps_its_time_witness:
  "content (ffi_backend demo_vtable) (cg_host (run_clip (ffi_backend demo_vtable) (guard_new (None, []))
     ([CeCopy [97] 5, CeStart 0, CeTick 5] @ CeCopy [98] 9 # [CeFire 0, CeStart 1, CeTick 8, CeFire 1]))) = Some [98]"
  by (rule copied_secret_keeps_its_time)
    (simp_all add: demo_laws is_scalar_def char_len_def MAX_CLIPBOARD_BYTES_def)

text \<open>C25. A copied secret is cleared in time: once its task has been polled and the timeout has passed,
  the poll that follows removes the secret, whatever the clock, other programs and other tasks
  did in between, unless the copy was cancelled or replaced; and if the clipboard holds
  anything else by then, that is left alone.\<close>

theorem copied_secret_is_cleared:
  assumes "backend_laws B s" and "list_all (leaves i) es1" and "list_all (leaves i) es2" and "d \<le> elapsed es2"
    and "i = cg_fresh g"
    and "g' = run_clip B g (CeCopy s d # es1 @ CeStart i # es2)"
  shows "cg_tasks (clear_task_fire B i g') i = None \<and>
    (content B (cg_host g') = Some s \<longrightarrow>
       content B (cg_host (clear_task_fire B i g')) = None \<or> content B (cg_host (clear_task_fire B i g')) = Some []) \<and>
    (content B (cg_host g') \<noteq> Some s \<longrightarrow>
       content B (cg_host (clear_task_fire B i g')) = content B (cg_host g'))"
proof -
  let ?g1 = "run_clip B (copy_with_timeout B s d g) es1"
  have "copied i s d (copy_with_timeout B s d g)" by (simp add: copied_def assms(5))
  then have "copied i s d ?g1" using assms(2) by (intro kept.run_inv_all) (auto simp: list_all_iff)
  then obtain t e where t: "cg_tasks (clear_task_start i ?g1) i = Some t" "ct_value t = s"
    "ct_phase t = Sleeping e" "e \<le> cg_now (clear_task_start i ?g1) + d"
    using copied_start by (fastforce simp: asleep_def)
  have "g' = run_clip B (clear_task_start i ?g1) es2" by (simp add: assms(6) run_append)
  with asleep_run [OF assms(3) t(1,3), of B] t(4) assms(4)
  have "cg_tasks g' i = Some t" "e \<le> cg_now g'" by auto
  from clear_task_fire_eq [OF this(1) t(3) this(2), of B] show ?thesis
    using backend_lawsD [OF assms(1)] t(2) by auto
qed

theorem copied_secret_is_cleared_witness:
  "content (ffi_backend demo_vtable) (cg_host (clear_task_fire (ffi_backend demo_vtable) 0
     (run_clip (ffi_backend demo_vtable) (guard_new (None, [])) (CeCopy [97] 5 # [CeTick 2] @ CeStart 0 # [CeTick 5])))) \<noteq> Some [97]"
  using copied_secret_is_cleared [of "ffi_backend demo_vtable" "[97]" 0 "[CeTick 2]" "[CeTick 5]" 5 "guard_new (None, [])", OF _ _ _ _ _ refl]
  by (auto simp: demo_laws is_scalar_def char_len_def MAX_CLIPBOARD_BYTES_def guard_new_def [of "(None, [])"])

text \<open>C26. The comparison and the clear are two calls, and nothing stops the second: once a task has found
  the secret, the next thing it does empties the clipboard, whatever another program or a newer
  copy has put there in between, and neither a cancel nor a newer copy aborts it.\<close>

theorem decided_clear_hits_anything:
  assumes "backend_laws B s" and "cg_tasks g i = Some t" and "ct_value t = s" and "ct_phase t = Sleeping e"
    and "e \<le> cg_now g" and "i < cg_fresh g" and "content B (cg_host g) = Some s"
    and "list_all (not_ended i) es"
  shows "content B (cg_host (run_clip B g (CeCheck i # es @ [CeClear i]))) = None \<or>
    content B (cg_host (run_clip B g (CeCheck i # es @ [CeClear i]))) = Some []"
proof -
  have "decided i (clear_task_check B i g)"
    using assms by (auto simp: decided_def clear_task_check_def case_prod_beta)
  then have "decided i (run_clip B (clear_task_check B i g) es)"
    using assms(8) by (intro past_check.run_inv_all) (auto simp: list_all_iff)
  then show ?thesis
    using backend_lawsD(3) [OF assms(1), of "cg_host (run_clip B (clear_task_check B i g) es)"]
    by (auto simp: decided_def run_append clear_task_clear_def)
qed

theorem decided_clear_hits_anything_witness:
  "content (ffi_backend demo_vtable) (cg_host (run_clip (ffi_backend demo_vtable)
     (run_clip (ffi_backend demo_vtable) (guard_new (None, [])) [CeCopy [97] 5, CeStart 0, CeTick 5])
     (CeCheck 0 # [CeCopy [98] 60, CeOther (\<lambda>(c, l). (Some [120, 121], l))] @ [CeClear 0]))) \<noteq> Some [120, 121]"
proof -
  let ?g = "run_clip (ffi_backend demo_vtable) (guard_new (None, [])) [CeCopy [97] 5, CeStart 0, CeTick 5]"
  have l: "backend_laws (ffi_backend demo_vtable) [97]"
    by (simp add: demo_laws is_scalar_def char_len_def MAX_CLIPBOARD_BYTES_def)
  have g: "cg_tasks ?g 0 = Some \<lparr>ct_value = [97], ct_timeout = 5, ct_phase = Sleeping 5\<rparr>" "cg_now ?g = 5"
    "cg_fresh ?g = 1" "cg_host ?g = be_set (ffi_backend demo_vtable) [97] (None, [])"
    by (simp_all add: clip_step_defs copy_with_timeout_def spawn_clear_task_def Let_def cancel_def guard_new_def)
  show ?thesis
    using decided_clear_hits_anything [OF l g(1), of 5 "[CeCopy [98] 60, CeOther (\<lambda>(c, l). (Some [120, 121], l))]"]
      g(2-4) backend_lawsD(1) [OF l] by fastforce
qed

text \<open>C38. Finding. A host that copies through the C interface from a thread of its own, outside any tokio
  runtime, gets \<open>VV_ERR_PANIC\<close> with the secret already on its clipboard: no task will clear it, and
  it stays there however much time passes and whatever timers and cancellations run, until something
  else is copied (polls of earlier timers running uninterrupted from comparison to clear).\<close>

theorem copy_outside_runtime_never_cleared:
  assumes "backend_laws B s" and "list_all whole_poll past" and "list_all keeps_copy later"
    and "from_utf8 secret = Some s" and "secret \<noteq> []" and "length secret \<le> MAX_SECRET_BYTES"
  shows "\<exists>g. vv_clipboard_guard_copy_with_timeout B False (Some (run_clip B (guard_new h) past)) (Some secret) ms =
      (Some g, VV_ERR_PANIC) \<and> content B (cg_host (run_clip B g later)) = Some s"
proof -
  let ?g = "run_clip B (guard_new h) past"
  let ?c = "copy_without_runtime B s ?g"
  have "sole_task ?g" using assms(2) by (intro sole.run_inv_all sole_new) (simp add: list_all_iff)
  then have "sole_task (?g\<lparr>cg_host := be_set B s (cg_host ?g)\<rparr>)" by (simp add: sole_task_def)
  then have "abandoned B s ?c"
    using backend_lawsD(1) [OF assms(1)] by (simp add: abandoned_def copy_without_runtime_def sole_cancel)
  then have "abandoned B s (run_clip B ?c later)"
    using assms(3) by (intro left_alone.run_inv_all) (auto simp: list_all_iff)
  then show ?thesis
    using assms(4-6) by (auto simp: vv_clipboard_guard_copy_with_timeout_def abandoned_def)
qed

theorem copy_outside_runtime_never_cleared_witness:
  "\<exists>g. vv_clipboard_guard_copy_with_timeout (ffi_backend demo_vtable) False
      (Some (run_clip (ffi_backend demo_vtable) (guard_new (None, [])) [CeCopy [98] 5])) (Some [97]) 30000 = (Some g, - 3) \<and>
    content (ffi_backend demo_vtable) (cg_host (run_clip (ffi_backend demo_vtable) g [CeStart 0, CeTick (10 ^ 15), CeFire 0])) = Some [97]"
proof -
  have "from_utf8 [97] = Some [97]" by code_simp
  then show ?thesis
    using copy_outside_runtime_never_cleared [of "ffi_backend demo_vtable" "[97]" "[CeCopy [98] 5]"
        "[CeStart 0, CeTick (10 ^ 15), CeFire 0]" "[97]" "(None, [])" 30000]
    by (simp add: demo_laws is_scalar_def char_len_def MAX_CLIPBOARD_BYTES_def MAX_SECRET_BYTES_def VV_ERR_PANIC_def)
qed

text \<open>The bridge gives every buffer back: over any run of a guard made from callbacks that keep their
  contract, each buffer the host hands out is freed exactly once, also when its text is empty,
  too long or not UTF-8, so the host is left with the buffers it had.\<close>

lemma bridge_returns_buffers:
  assumes "vv_clipboard_guard_new vt False h = Some (B, g)" and "buffer_contract vt bufs"
    and "run_within (own_buffers bufs) (clip_exec B) g es"
  shows "bufs (cg_host (run_clip B g es)) = bufs h"
proof -
  have B: "B = ffi_backend vt" and h: "cg_host g = h"
    using assms(1) by (auto simp: vv_clipboard_guard_new_def guard_new_def split: if_splits)
  have "run_within (\<lambda>g e. buffer_contract vt bufs \<and> own_buffers bufs g e) (clip_exec B) g es"
    by (rule run_within_mono [OF assms(3)]) (rule assms(2))
  from bridged.run_inv [of bufs g "bufs h", OF _ this [unfolded B]] show ?thesis
    by (simp add: B h)
qed

end
