(* ===== verification/Copy_Ops.thy ===== *)
theory Copy_Ops
  imports Entry_Ops Totp Clipboard
begin

text \<open>
  The operations that put a secret on the clipboard: \<open>copy_entry_secret\<close> and
  \<open>copy_entry_totp\<close> of \<open>core/entries.rs\<close> and \<open>totp/clipboard.rs\<close>. Here the lock
  manager, the TOTP engine and the clipboard guard meet.
\<close>

section \<open>The operations\<close>

definition DEFAULT_OTP_CLIPBOARD_TIMEOUT_SECS :: nat where "DEFAULT_OTP_CLIPBOARD_TIMEOUT_SECS = 30"

definition totp_generate_and_copy_to_clipboard ::
    "totp_lib \<Rightarrow> 'h clipboard_backend \<Rightarrow> totp_secret \<Rightarrow> u64 \<Rightarrow> duration option \<Rightarrow>
     'h clipboard_guard \<Rightarrow> 'h clipboard_guard \<times> (totp_error + unit)" where
  "totp_generate_and_copy_to_clipboard L B totp unix_time_secs timeout clipboard =
    (case totp_generate_formatted L totp unix_time_secs of
       Inl e \<Rightarrow> (clipboard, Inl e)
     | Inr formatted \<Rightarrow>
         (let timeout = (case timeout of Some d \<Rightarrow> d | None \<Rightarrow> dur_secs DEFAULT_OTP_CLIPBOARD_TIMEOUT_SECS) in
          (copy_with_timeout B formatted timeout clipboard, Inr ())))"

definition copy_entry_secret_for_operation ::
    "json_lib \<Rightarrow> lock_manager \<Rightarrow> 'h clipboard_backend \<Rightarrow> uuid \<Rightarrow> sensitive_operation \<Rightarrow> duration \<Rightarrow>
     'h clipboard_guard \<Rightarrow> 'h clipboard_guard \<times> (entry_error + unit)" where
  "copy_entry_secret_for_operation J m B i operation timeout clipboard =
    (case reveal_entry_secret_for_operation J m i operation of
       Inl e \<Rightarrow> (clipboard, Inl e)
     | Inr secret \<Rightarrow> (copy_with_timeout B secret timeout clipboard, Inr ()))"

definition copy_entry_secret ::
    "json_lib \<Rightarrow> lock_manager \<Rightarrow> 'h clipboard_backend \<Rightarrow> uuid \<Rightarrow> duration \<Rightarrow>
     'h clipboard_guard \<Rightarrow> 'h clipboard_guard \<times> (entry_error + unit)" where
  "copy_entry_secret J m B i timeout clipboard =
    copy_entry_secret_for_operation J m B i CopySecret timeout clipboard"

definition copy_entry_totp_for_operation ::
    "totp_lib \<Rightarrow> json_lib \<Rightarrow> lock_manager \<Rightarrow> 'h clipboard_backend \<Rightarrow> uuid \<Rightarrow> sensitive_operation \<Rightarrow> u64 \<Rightarrow>
     duration option \<Rightarrow> 'h clipboard_guard \<Rightarrow> 'h clipboard_guard \<times> (entry_error + unit)" where
  "copy_entry_totp_for_operation L J m B i operation unix_time_secs timeout clipboard =
    (case authorize_sensitive_operation m operation of
       Inl e \<Rightarrow> (clipboard, Inl e)
     | Inr _ \<Rightarrow>
         (case get_entry J m i of
            Inl e \<Rightarrow> (clipboard, Inl e)
          | Inr entry \<Rightarrow>
              (case vw_totp entry of
                 None \<Rightarrow> (clipboard, Inl InvalidType)
               | Some totp \<Rightarrow>
                   (let (clipboard', r) =
                      totp_generate_and_copy_to_clipboard L B totp unix_time_secs timeout clipboard
                    in (clipboard', map_err (\<lambda>_. InvalidData) r)))))"

definition copy_entry_totp ::
    "totp_lib \<Rightarrow> json_lib \<Rightarrow> lock_manager \<Rightarrow> 'h clipboard_backend \<Rightarrow> uuid \<Rightarrow> u64 \<Rightarrow>
     duration option \<Rightarrow> 'h clipboard_guard \<Rightarrow> 'h clipboard_guard \<times> (entry_error + unit)" where
  "copy_entry_totp L J m B i unix_time_secs timeout clipboard =
    copy_entry_totp_for_operation L J m B i CopyTotp unix_time_secs timeout clipboard"

section \<open>Lemmas\<close>

text \<open>Either an error and an untouched guard, or success and one copy.\<close>

lemma copy_secret_cases:
  "copy_entry_secret_for_operation J m B i op timeout g = (g', r) \<Longrightarrow>
    (\<exists>e. r = Inl e \<and> g' = g \<and> reveal_entry_secret_for_operation J m i op = Inl e) \<or>
    (\<exists>s. r = Inr () \<and> g' = copy_with_timeout B s timeout g \<and> reveal_entry_secret_for_operation J m i op = Inr s)"
  by (auto simp: copy_entry_secret_for_operation_def split: sum.splits)

lemma copy_totp_cases:
  assumes "copy_entry_totp_for_operation L J m B i op time timeout g = (g', r)"
  shows "(\<exists>e. r = Inl e \<and> g' = g) \<or>
    (\<exists>v t str. r = Inr () \<and> is_ok (authorize_sensitive_operation m op) \<and> get_entry J m i = Inr v \<and>
       vw_totp v = Some t \<and> totp_generate_formatted L t time = Inr str \<and>
       g' = copy_with_timeout B str (case timeout of Some d \<Rightarrow> d | None \<Rightarrow> dur_secs 30) g)"
  using assms
  by (auto simp: copy_entry_totp_for_operation_def totp_generate_and_copy_to_clipboard_def Let_def
      DEFAULT_OTP_CLIPBOARD_TIMEOUT_SECS_def split: sum.splits option.splits prod.splits)

lemma get_entry_totp:
  "get_entry J m i = Inr v \<Longrightarrow>
    \<exists>p e. get_payload J m = Some p \<and> entry_map p i = Some e \<and> vw_totp v = es_totp (ve_secret e)"
  by (auto simp: get_entry_map to_view_def split: option.splits)

text \<open>A clipboard in memory and a vault with a code, for the witnesses.\<close>
definition mem_backend :: "rstring option clipboard_backend" where
  "mem_backend = \<lparr>be_set = (\<lambda>s h. Some s), be_get = (\<lambda>h. (h, h)), be_clear = (\<lambda>h. None)\<rparr>"

definition code_entry :: vault_entry where
  "code_entry = \<lparr>ve_meta = \<lparr>em_id = 9, em_entry_type = Totp\<rparr>,
     ve_secret = \<lparr>es_title = lit ''t'', es_note = None, es_username = None,
       es_secret = replicate 26 65, es_extra = None, es_totp = Some toy_secret\<rparr>\<rparr>"

abbreviation code_payload :: vault_payload where "code_payload \<equiv> \<lparr>vp_entries = [code_entry]\<rparr>"

lemma mem_content: "content mem_backend (be_set mem_backend s h) = Some s"
  by (simp add: mem_backend_def)

lemma code_payload_ok: "payload_ok code_payload"
  using toy_totp_ok(2) by (simp add: payload_ok_def entry_ok_iff code_entry_def)

lemma unlocked_authorized: "is_ok (authorize_sensitive_operation (unlocked_with bs) op)"
  by (simp add: authorize_session unlocked_with_def unlock_state open_session_def)

lemma code_entry_found: "entry_map code_payload 9 = Some code_entry"
  "es_secret (ve_secret code_entry) = replicate 26 65" "es_totp (ve_secret code_entry) = Some toy_secret"
  by (simp_all add: entry_map_def code_entry_def)

section \<open>Properties\<close>

text \<open>Copying follows revealing: a secret copy succeeds exactly when the session is authorised for
  the operation and the entry has a secret; then the clipboard holds exactly that secret, with a
  pending task that clears it after the requested time, and on any error neither the clipboard
  nor the pending task has changed.\<close>

lemma copy_secret_exactly:
  assumes "copy_entry_secret_for_operation J m B i op timeout g = (g', r)"
    and "\<And>s h. content B (be_set B s h) = Some s"
  shows "(r = Inr () \<longleftrightarrow> is_ok (authorize_sensitive_operation m op) \<and>
      (\<exists>p e. get_payload J m = Some p \<and> entry_map p i = Some e \<and> es_secret (ve_secret e) \<noteq> [])) \<and>
    (r = Inr () \<longrightarrow> (\<exists>p e. get_payload J m = Some p \<and> entry_map p i = Some e \<and>
       content B (cg_host g') = Some (es_secret (ve_secret e)) \<and>
       (\<exists>j. cg_task g' = Some j \<and> cg_tasks g' j = Some \<lparr>ct_value = es_secret (ve_secret e),
          ct_timeout = timeout, ct_phase = Spawned\<rparr>))) \<and>
    (r \<noteq> Inr () \<longrightarrow> g' = g)"
proof -
  note reveal = reveal_iff [of J m i op]
  from copy_secret_cases [OF assms(1)] show ?thesis
  proof (elim disjE exE conjE)
    fix s assume r: "r = Inr ()" and g': "g' = copy_with_timeout B s timeout g"
      and s: "reveal_entry_secret_for_operation J m i op = Inr s"
    from s obtain p e where e: "is_ok (authorize_sensitive_operation m op)" "get_payload J m = Some p"
      "entry_map p i = Some e" "s = es_secret (ve_secret e)" "s \<noteq> []" using reveal by blast
    then show ?thesis using r g' assms(2) by auto
  next
    fix e assume "r = Inl e" "g' = g" and no: "reveal_entry_secret_for_operation J m i op = Inl e"
    moreover have "reveal_entry_secret_for_operation J m i op \<noteq> Inr v" for v using no by simp
    ultimately show ?thesis using reveal by auto
  qed
qed

text \<open>No code without authorisation: when \<open>copy_entry_totp\<close> succeeds, the session was authorised,
  the entry carries a TOTP secret and the clipboard holds the code of the requested time at its
  full width, to be cleared after the given time or 30 seconds; otherwise the guard is as before.\<close>

lemma copy_totp_exactly:
  assumes "copy_entry_totp_for_operation L J m B i op time timeout g = (g', r)"
    and "\<And>s h. content B (be_set B s h) = Some s"
  shows "(\<exists>err. r = Inl err \<and> g' = g) \<or>
    (r = Inr () \<and> is_ok (authorize_sensitive_operation m op) \<and>
      (\<exists>p e t str. get_payload J m = Some p \<and> entry_map p i = Some e \<and> es_totp (ve_secret e) = Some t \<and>
         totp_generate_formatted L t time = Inr str \<and> content B (cg_host g') = Some str \<and>
         cg_task g' = Some (cg_fresh g) \<and>
         cg_tasks g' (cg_fresh g) = Some \<lparr>ct_value = str,
           ct_timeout = (case timeout of Some d \<Rightarrow> d | None \<Rightarrow> dur_secs 30), ct_phase = Spawned\<rparr>))"
  using copy_totp_cases [OF assms(1)]
proof (elim disjE exE conjE)
  fix v t str
  assume *: "r = Inr ()" "is_ok (authorize_sensitive_operation m op)" "get_entry J m i = Inr v"
    "vw_totp v = Some t" "totp_generate_formatted L t time = Inr str"
    "g' = copy_with_timeout B str (case timeout of Some d \<Rightarrow> d | None \<Rightarrow> dur_secs 30) g"
  from get_entry_totp [OF *(3)] *(4) obtain p e where "get_payload J m = Some p" "entry_map p i = Some e"
    "es_totp (ve_secret e) = Some t" by metis
  with * assms(2) show ?thesis by auto
qed auto

end
