(* ===== verification/Biometrics.thy ===== *)
theory Biometrics
  imports Samples Lock_Runs
begin

text \<open>
  \<open>core/biometrics.rs\<close> and \<open>biometrics/\<close>: the host unseals a stored master key, the core
  decrypts with it and opens a session of the weaker, biometric strength. What the
  host does is a parameter.
\<close>

section \<open>The backend of the host\<close>

datatype biometric_error = BioPolicyDenied | BioUnavailable | BioAuthFailed | BioInvalidResponse | BioNotSupported

definition BIO_OK :: int where "BIO_OK = 0"
definition BIO_ERR_UNAVAILABLE :: int where "BIO_ERR_UNAVAILABLE = - 2"
definition BIO_ERR_AUTH :: int where "BIO_ERR_AUTH = - 3"
definition MASTER_KEY_LEN :: nat where "MASTER_KEY_LEN = 32"
definition MAX_VAULT_ID_LEN :: nat where "MAX_VAULT_ID_LEN = 128"

record 'h biometric_backend =
  bb_is_available :: "'h \<Rightarrow> 'h \<times> bool"
  bb_unseal_master_key :: "bytes \<Rightarrow> 'h \<Rightarrow> 'h \<times> (biometric_error + key_material)"

text \<open>The callbacks: a buffer is its address and its bytes, a null pointer is \<open>None\<close>.\<close>
record 'h biometrics_vtable =
  bv_is_available :: "('h \<Rightarrow> 'h \<times> int) option"
  bv_unseal_master_key :: "(bytes \<Rightarrow> 'h \<Rightarrow> 'h \<times> int \<times> (nat \<times> bytes) option) option"
  bv_free_buf :: "(nat \<Rightarrow> nat \<Rightarrow> 'h \<Rightarrow> 'h \<times> int) option"

definition ffi_is_available :: "'h biometrics_vtable \<Rightarrow> 'h \<Rightarrow> 'h \<times> bool" where
  "ffi_is_available vt h =
    (case bv_is_available vt of None \<Rightarrow> (h, False)
     | Some f \<Rightarrow> (let (h', rc) = f h in (h', rc = BIO_OK)))"

text \<open>The drop of \<open>HostBufGuard\<close> frees a buffer on every path after the call.\<close>
definition ffi_unseal_master_key ::
    "'h biometrics_vtable \<Rightarrow> bytes \<Rightarrow> 'h \<Rightarrow> 'h \<times> (biometric_error + key_material)" where
  "ffi_unseal_master_key vt vault_id h =
    (case bv_unseal_master_key vt of
       None \<Rightarrow> (h, Inl BioInvalidResponse)
     | Some unseal \<Rightarrow>
         (case bv_free_buf vt of
            None \<Rightarrow> (h, Inl BioInvalidResponse)
          | Some free \<Rightarrow>
              if vault_id = [] \<or> length vault_id > MAX_VAULT_ID_LEN then (h, Inl BioInvalidResponse)
              else
                (let (h1, rc, out) = unseal vault_id h;
                     h2 = (case out of Some (p, bs) \<Rightarrow> fst (free p (length bs) h1) | None \<Rightarrow> h1)
                 in (h2,
                     if rc = BIO_ERR_UNAVAILABLE then Inl BioUnavailable
                     else if rc = BIO_ERR_AUTH then Inl BioAuthFailed
                     else if rc \<noteq> BIO_OK then Inl BioInvalidResponse
                     else (case out of
                         Some (p, bs) \<Rightarrow> guard (length bs \<noteq> MASTER_KEY_LEN) BioInvalidResponse (Inr bs)
                       | None \<Rightarrow> Inl BioInvalidResponse)))))"

text \<open>\<open>FfiBiometricBackend::new\<close> and \<open>vv_biometrics_backend_new\<close>\<close>
definition ffi_biometric_backend_new ::
    "'h biometrics_vtable \<Rightarrow> bool \<Rightarrow> biometric_error + 'h biometric_backend" where
  "ffi_biometric_backend_new vt user_data_is_null =
    guard user_data_is_null BioInvalidResponse
    (guard (bv_is_available vt = None \<or> bv_unseal_master_key vt = None \<or> bv_free_buf vt = None) BioInvalidResponse
    (Inr \<lparr>bb_is_available = ffi_is_available vt, bb_unseal_master_key = ffi_unseal_master_key vt\<rparr>))"

definition vv_biometrics_backend_new :: "'h biometrics_vtable \<Rightarrow> bool \<Rightarrow> 'h biometric_backend option" where
  "vv_biometrics_backend_new vt user_data_is_null =
    (case ffi_biometric_backend_new vt user_data_is_null of Inl _ \<Rightarrow> None | Inr b \<Rightarrow> Some b)"

section \<open>Unlocking\<close>

definition unlock_vault_to_plaintext_json_with_master_key ::
    "crypto_lib \<Rightarrow> parsed_vault_file \<Rightarrow> key_material \<Rightarrow> biometric_error + secret_bytes" where
  "unlock_vault_to_plaintext_json_with_master_key C parsed master_key =
    guard (pv_mode parsed \<noteq> Encrypted) BioAuthFailed
    (guard (vh_duress (pv_header parsed) \<noteq> None) BioNotSupported
    (map_err (\<lambda>_. BioAuthFailed) (decrypt_xchacha20poly1305 C master_key (ch_nonce (vh_crypto (pv_header parsed)))
       (pv_payload parsed) (pv_header_bytes parsed))))"

definition unlock_with_master_key ::
    "crypto_lib \<Rightarrow> runtime_inspection_state \<Rightarrow> lock_manager \<Rightarrow> policy_context \<Rightarrow> parsed_vault_file
      \<Rightarrow> key_material \<Rightarrow> duration \<Rightarrow> lock_manager \<times> (biometric_error + unit)" where
  "unlock_with_master_key C probe m policy parsed master_key timeout =
    (if \<not> allow_biometric_unlock policy then (m, Inl BioPolicyDenied)
     else case unlock_vault_to_plaintext_json_with_master_key C parsed master_key of
       Inl e \<Rightarrow> (m, Inl e)
     | Inr plaintext_json \<Rightarrow>
         (unlock_with_plaintext_json_with_strength probe m plaintext_json timeout Biometric, Inr ()))"

definition unlock_with_biometrics ::
    "crypto_lib \<Rightarrow> runtime_inspection_state \<Rightarrow> lock_manager \<Rightarrow> policy_context \<Rightarrow> parsed_vault_file
      \<Rightarrow> 'h biometric_backend \<Rightarrow> 'h \<Rightarrow> bytes \<Rightarrow> duration \<Rightarrow> lock_manager \<times> 'h \<times> (biometric_error + unit)" where
  "unlock_with_biometrics C probe m policy parsed backend h vault_id timeout =
    (if \<not> allow_biometric_unlock policy then (m, h, Inl BioPolicyDenied)
     else (let (h1, available) = bb_is_available backend h in
       if \<not> available then (m, h1, Inl BioUnavailable)
       else (let (h2, mk) = bb_unseal_master_key backend vault_id h1 in
         case mk of
           Inl e \<Rightarrow> (m, h2, Inl e)
         | Inr key \<Rightarrow>
             (let (m', r) = unlock_with_master_key C probe m policy parsed key timeout in (m', h2, r)))))"

section \<open>Lemmas\<close>

lemma master_key_unlock_Inr:
  "unlock_vault_to_plaintext_json_with_master_key C parsed key = Inr pj \<longleftrightarrow>
     pv_mode parsed = Encrypted \<and> vh_duress (pv_header parsed) = None \<and>
     decrypt_xchacha20poly1305 C key (ch_nonce (vh_crypto (pv_header parsed))) (pv_payload parsed)
       (pv_header_bytes parsed) = Inr pj"
  by (auto simp: unlock_vault_to_plaintext_json_with_master_key_def)

lemma biometrics_cases:
  assumes "unlock_with_biometrics C probe m policy parsed backend h vault_id timeout = (m', h', r)"
  shows "(\<exists>e. r = Inl e \<and> m' = m) \<or>
    (\<exists>key pj. r = Inr () \<and> allow_biometric_unlock policy \<and> snd (bb_is_available backend h) \<and>
       snd (bb_unseal_master_key backend vault_id (fst (bb_is_available backend h))) = Inr key \<and>
       unlock_vault_to_plaintext_json_with_master_key C parsed key = Inr pj \<and>
       m' = unlock_with_plaintext_json_with_context m pj timeout Biometric Primary probe)"
  using assms
  by (auto simp: unlock_with_biometrics_def unlock_with_master_key_def unlock_with_plaintext_json_with_strength_def
      Let_def split: if_splits prod.splits sum.splits)

text \<open>The same plaintext as the password flow, when the sealed key is the one the password derives.\<close>

lemma master_key_is_password:
  assumes "unlock_vault_to_plaintext_json_with_outcome J C parsed pw = Inr (Primary, pj)"
    and "vh_duress (pv_header parsed) = None" and "ch_kdf (vh_crypto (pv_header parsed)) = Argon2id k t l"
    and "derive_master_key_from_password C pw (ch_salt (vh_crypto (pv_header parsed))) k t l = Inr key"
  shows "unlock_vault_to_plaintext_json_with_master_key C parsed key = Inr pj"
  using assms by (auto simp: unlock_vault_to_plaintext_json_with_outcome_def master_key_unlock_Inr split: if_splits)

definition bio_buffer_contract :: "'h biometrics_vtable \<Rightarrow> ('h \<Rightarrow> nat set) \<Rightarrow> bool" where
  "bio_buffer_contract vt bufs \<longleftrightarrow>
     (\<forall>f i h. bv_unseal_master_key vt = Some f \<longrightarrow> (case f i h of (h', rc, out) \<Rightarrow>
        (case out of Some (p, bs) \<Rightarrow> p \<notin> bufs h \<and> bufs h' = insert p (bufs h) | None \<Rightarrow> bufs h' = bufs h))) \<and>
     (\<forall>f p n h. bv_free_buf vt = Some f \<longrightarrow> p \<in> bufs h \<longrightarrow> bufs (fst (f p n h)) = bufs h - {p}) \<and>
     (\<forall>f h. bv_is_available vt = Some f \<longrightarrow> bufs (fst (f h)) = bufs h)"

lemma ffi_unseal_bufs:
  assumes "bio_buffer_contract vt bufs"
  shows "bufs (fst (ffi_unseal_master_key vt i h)) = bufs h"
proof (cases "bv_unseal_master_key vt = None \<or> bv_free_buf vt = None \<or> i = [] \<or> length i > MAX_VAULT_ID_LEN")
  case False
  then obtain unseal free where f: "bv_unseal_master_key vt = Some unseal" "bv_free_buf vt = Some free"
    and i: "i \<noteq> []" "length i \<le> MAX_VAULT_ID_LEN" by auto
  obtain h1 rc out where u: "unseal i h = (h1, rc, out)" by (cases "unseal i h") auto
  have c: "case unseal i h of (h', rc, out) \<Rightarrow>
      (case out of Some (p, bs) \<Rightarrow> p \<notin> bufs h \<and> bufs h' = insert p (bufs h) | None \<Rightarrow> bufs h' = bufs h)"
    and fr: "p \<in> bufs h1 \<Longrightarrow> bufs (fst (free p n h1)) = bufs h1 - {p}" for p n
    using assms f by (simp_all add: bio_buffer_contract_def)
  show ?thesis
  proof (cases out)
    case None
    with c f i u show ?thesis by (simp add: ffi_unseal_master_key_def)
  next
    case (Some pb)
    obtain p bs where "pb = (p, bs)" by (cases pb)
    with Some c f i u fr [of p "length bs"] show ?thesis by (auto simp: ffi_unseal_master_key_def Let_def)
  qed
qed (auto simp: ffi_unseal_master_key_def split: option.splits)

abbreviation trusted :: policy_context where
  "trusted \<equiv> \<lparr>pc_outcome = Primary, pc_runtime_state = NotDebugged\<rparr>"

text \<open>A host with one key, for the witnesses: the state is the list of buffers that are out.\<close>
definition key_vtable :: "bytes \<Rightarrow> (nat list) biometrics_vtable" where
  "key_vtable key = \<lparr>bv_is_available = Some (\<lambda>l. (l, 0)),
     bv_unseal_master_key = Some (\<lambda>i l. (Suc (sum_list l) # l, 0, Some (Suc (sum_list l), key))),
     bv_free_buf = Some (\<lambda>p n l. (filter (\<lambda>q. q \<noteq> p) l, 0))\<rparr>"

lemma key_vtable_ok: "bio_buffer_contract (key_vtable key) set"
proof -
  have "Suc (sum_list l) \<notin> set l" for l :: "nat list"
    using member_le_sum_list [of "Suc (sum_list l)" l] by auto
  then show ?thesis by (auto simp: bio_buffer_contract_def key_vtable_def)
qed

section \<open>Properties\<close>

text \<open>C8. A biometric unlock opens exactly what the password opens, and never more than a convenience
  session: when the sealed key is the one the password derives, it opens the same payload; and in
  the session it opens no sensitive operation is ever authorised, whatever calls and timer steps
  follow, until a new unlock.\<close>

theorem biometric_unlock_is_weaker:
  assumes "allow_biometric_unlock policy" and "snd (bb_is_available backend h)"
    and "snd (bb_unseal_master_key backend vault_id (fst (bb_is_available backend h))) = Inr key"
    and "ch_kdf (vh_crypto (pv_header parsed)) = Argon2id k t l"
    and "derive_master_key_from_password C pw (ch_salt (vh_crypto (pv_header parsed))) k t l = Inr key"
    and "vh_duress (pv_header parsed) = None"
    and "unlock_vault_to_plaintext_json_with_outcome J C parsed pw = Inr (Primary, pj)"
    and "list_all (\<lambda>e. \<not> is_unlock e) evs"
  shows "\<exists>m' h'. unlock_with_biometrics C probe m policy parsed backend h vault_id timeout = (m', h', Inr ()) \<and>
    get_payload J m' = decode_payload_from_plaintext_json J pj \<and>
    (\<forall>op. \<not> is_ok (authorize_sensitive_operation (run_manager m' evs) op))"
proof -
  let ?m = "unlock_with_plaintext_json_with_context m pj timeout Biometric Primary probe"
  have "unlock_vault_to_plaintext_json_with_master_key C parsed key = Inr pj"
    by (rule master_key_is_password [OF assms(7,6,4,5)])
  then have u: "\<exists>h'. unlock_with_biometrics C probe m policy parsed backend h vault_id timeout = (?m, h', Inr ())"
    using assms(1-3) by (simp add: unlock_with_biometrics_def unlock_with_master_key_def
        unlock_with_plaintext_json_with_strength_def case_prod_beta Let_def del: allow_trusted)
  have "session_all (\<lambda>s. us_unlock_outcome s = Primary \<and> us_auth_strength s = Biometric) (run_manager ?m evs)"
    by (rule origin.run_inv_all) (use assms(8) in \<open>auto simp: session_all_def unlock_state open_session_def list_all_iff\<close>)
  then have "\<not> is_ok (authorize_sensitive_operation (run_manager ?m evs) op)" for op
    by (auto simp: authorize_session session_all_def split: vault_state.splits)
  moreover have "get_payload J ?m = decode_payload_from_plaintext_json J pj"
    by (simp add: get_payload_def unlock_state open_session_def)
  ultimately show ?thesis using u by blast
qed

theorem biometric_unlock_is_weaker_witness:
  "\<exists>parsed backend m'. snd (snd (unlock_with_biometrics toy_cipher NotDebugged manager_new trusted parsed
       backend () [1] 60)) = Inr () \<and>
     fst (unlock_with_biometrics toy_cipher NotDebugged manager_new trusted parsed backend () [1] 60) = m' \<and>
     get_payload (demo_json demo_header) m' = Some demo_payload \<and>
     \<not> is_ok (authorize_sensitive_operation (run_manager m' [EvClear]) RevealSecret)"
proof -
  obtain hb pt ct where c: "vh_duress (vf_header demo_vault) = None" "vf_storage demo_vault = SEncrypted ct"
    "json_of_header (demo_json demo_header) (vf_header demo_vault) = Some hb"
    "payload_to_vec (demo_json demo_header) demo_payload = Some pt"
    and e: "encrypt_with_crypto_header toy_cipher hb (vh_crypto (vf_header demo_vault)) pt (lit ''pw'') = Inr ct"
    by (rule create_encrypted_ok [OF demo_create])
  let ?p = "\<lparr>pv_format_version = 1, pv_header = vf_header demo_vault, pv_header_bytes = hb,
    pv_mode = Encrypted, pv_payload = ct\<rparr>"
  have u: "unlock_vault_to_plaintext_json_with_outcome (demo_json demo_header) toy_cipher ?p (lit ''pw'') = Inr (Primary, pt)"
    using c decrypt_encrypt_branch [OF toy_cipher_correct e] by (intro legacy_unlock_decrypt) simp_all
  obtain k t l key where k: "ch_kdf (vh_crypto (vf_header demo_vault)) = Argon2id k t l"
    "derive_master_key_from_password toy_cipher (lit ''pw'') (ch_salt (vh_crypto (vf_header demo_vault))) k t l = Inr key"
    using e by (auto simp: encrypt_with_crypto_header_def split: kdf_params.splits)
  let ?b = "\<lparr>bb_is_available = (\<lambda>h. (h, True)), bb_unseal_master_key = (\<lambda>i h. (h, Inr key))\<rparr> :: unit biometric_backend"
  have pl: "decode_payload_from_plaintext_json (demo_json demo_header) pt = Some demo_payload"
    using payload_from_to_vec [OF _ c(4)] by (simp add: decode_payload_from_plaintext_json_def)
  have t: "allow_biometric_unlock trusted" by (simp add: trusted_posture_def)
  show ?thesis
    using biometric_unlock_is_weaker [where parsed = ?p and backend = ?b and key = key and evs = "[EvClear]", OF t _ _ _ _ _ u,
        of "()" "[1]" k t l NotDebugged manager_new 60] k c(1) pl
    by (intro exI [of _ ?p] exI [of _ ?b]) auto
qed

text \<open>A failed biometric unlock changes nothing: an error leaves the manager, its session and its timer
  as they were; in particular a duress vault is refused even with a key that decrypts it, so the
  decoy can only be reached through its password.\<close>

lemma failed_biometric_unlock_is_inert:
  assumes "unlock_with_biometrics C probe m policy parsed backend h vault_id timeout = (m', h', r)"
    and "r \<noteq> Inr () \<or> vh_duress (pv_header parsed) \<noteq> None \<or> \<not> allow_biometric_unlock policy"
  shows "m' = m \<and> (\<exists>e. r = Inl e)"
  using biometrics_cases [OF assms(1)] assms(2) by (auto simp: master_key_unlock_Inr)

text \<open>Every buffer the host returns while unsealing is freed exactly once, whatever code comes with it and
  whatever its length.\<close>

lemma unseal_returns_buffers:
  assumes "vv_biometrics_backend_new vt False = Some backend" and "bio_buffer_contract vt bufs"
  shows "bufs (fst (bb_unseal_master_key backend vault_id h)) = bufs h \<and>
    bufs (fst (bb_is_available backend h)) = bufs h"
proof -
  have b: "bb_unseal_master_key backend = ffi_unseal_master_key vt" "bb_is_available backend = ffi_is_available vt"
    using assms(1) by (auto simp: vv_biometrics_backend_new_def ffi_biometric_backend_new_def split: if_splits)
  have "bufs (fst (ffi_is_available vt h)) = bufs h"
    using assms(2) by (auto simp: ffi_is_available_def bio_buffer_contract_def case_prod_beta split: option.splits)
  with ffi_unseal_bufs [OF assms(2)] show ?thesis by (simp add: b)
qed

end
