(* ===== verification/Otpauth.thy ===== *)
theory Otpauth
  imports Totp
begin

text \<open>
  \<open>otpauth/totp.rs\<close>, \<open>otpauth/export.rs\<close>, \<open>otpauth/error.rs\<close> and \<open>entries/import.rs\<close>: the
  strict parser of \<open>otpauth://totp/...\<close> URIs, the exporter, and the import of an entry
  from a URI. The crates \<open>url\<close> and \<open>percent_encoding\<close> are the fields of a record.
\<close>

section \<open>The crates\<close>

text \<open>What the parser reads of a \<open>url::Url\<close>; the query pairs are decoded.\<close>
record parsed_url =
  url_scheme :: rstring
  url_host_str :: "rstring option"
  url_path :: rstring
  url_query_pairs :: "(rstring \<times> rstring) list"

record url_lib =
  url_parse :: "rstring \<Rightarrow> parsed_url option"
  \<comment> \<open>\<open>percent_decode_str(..).decode_utf8()\<close>\<close>
  percent_decode_utf8 :: "rstring \<Rightarrow> rstring option"
  \<comment> \<open>\<open>utf8_percent_encode(.., NON_ALPHANUMERIC)\<close>\<close>
  utf8_percent_encode :: "rstring \<Rightarrow> rstring"

datatype otpauth_error = OtpParseError | OtpInvalidUri | OtpInvalidParams | OtpPolicyDenied

section \<open>Parsing (otpauth/totp.rs)\<close>

definition MAX_OTP_AUTH_URI_LEN :: nat where [limits]: "MAX_OTP_AUTH_URI_LEN = 4096"
definition MAX_QUERY_PAIRS :: nat where [limits]: "MAX_QUERY_PAIRS = 64"

definition split_label :: "rstring \<Rightarrow> rstring option \<times> rstring option \<times> rstring" where
  "split_label label0 =
    (let label = trim label0 in
     case split_once 58 label of
       Some (issuer0, account0) \<Rightarrow>
         (let issuer = trim issuer0;
              account = trim account0;
              issuer_opt = (if issuer \<noteq> [] then Some issuer else None);
              account_opt = (if account \<noteq> [] then Some account else None)
          in (issuer_opt, account_opt, case issuer_opt of Some t \<Rightarrow> t | None \<Rightarrow> label))
     | None \<Rightarrow> (None, None, label))"

definition is_cyrillic :: "rchar \<Rightarrow> bool" where
  "is_cyrillic u \<longleftrightarrow> (0x0400 \<le> u \<and> u \<le> 0x04FF) \<or> (0x0500 \<le> u \<and> u \<le> 0x052F)"

definition is_greek :: "rchar \<Rightarrow> bool" where
  "is_greek u \<longleftrightarrow> 0x0370 \<le> u \<and> u \<le> 0x03FF"

definition reject_script_mixing :: "rstring \<Rightarrow> entry_error + unit" where
  "reject_script_mixing s =
    guard (list_ex is_ascii_alphanumeric s \<and> (list_ex is_cyrillic s \<or> list_ex is_greek s))
      SuspiciousUnicode (Inr ())"

definition map_entry_error :: "entry_error \<Rightarrow> otpauth_error" where
  "map_entry_error e = OtpInvalidParams"

text \<open>The variables the loop over the query pairs assigns.\<close>
record otp_query =
  q_secret_b32 :: "rstring option"
  q_issuer_param :: "rstring option"
  q_algorithm :: totp_algorithm
  q_digits :: u8
  q_period_secs :: u32

definition default_query :: otp_query where
  "default_query = \<lparr>q_secret_b32 = None, q_issuer_param = None, q_algorithm = Sha1,
     q_digits = 6, q_period_secs = 30\<rparr>"

definition parse_algorithm :: "rstring \<Rightarrow> totp_algorithm option" where
  "parse_algorithm v =
    (if v = lit ''SHA1'' then Some Sha1 else if v = lit ''SHA256'' then Some Sha256
     else if v = lit ''SHA512'' then Some Sha512 else None)"

definition read_pair :: "rstring \<Rightarrow> rstring \<Rightarrow> otp_query \<Rightarrow> otpauth_error + otp_query" where
  "read_pair k v q =
    (if k = lit ''secret'' then Inr (q\<lparr>q_secret_b32 := Some v\<rparr>)
     else if k = lit ''issuer'' then Inr (q\<lparr>q_issuer_param := Some v\<rparr>)
     else if k = lit ''algorithm'' then
       rbind (ok_or OtpInvalidParams (parse_algorithm v)) (\<lambda>a. Inr (q\<lparr>q_algorithm := a\<rparr>))
     else if k = lit ''digits'' then
       rbind (ok_or OtpInvalidParams (parse_uint (2 ^ 8 - 1) v))
         (\<lambda>d. Inr (q\<lparr>q_digits := of_nat d\<rparr>))
     else if k = lit ''period'' then
       rbind (ok_or OtpInvalidParams (parse_uint (2 ^ 32 - 1) v))
         (\<lambda>p. Inr (q\<lparr>q_period_secs := of_nat p\<rparr>))
     else Inr q)"

fun read_pairs :: "(rstring \<times> rstring) list \<Rightarrow> nat \<Rightarrow> otp_query \<Rightarrow> otpauth_error + otp_query" where
  "read_pairs [] pairs_seen q = Inr q"
| "read_pairs ((k, v) # ps) pairs_seen q =
    guard (pairs_seen + 1 > MAX_QUERY_PAIRS) OtpInvalidParams
      (rbind (read_pair k v q) (read_pairs ps (pairs_seen + 1)))"

text \<open>\<open>validate(..).map_err(..)?; reject_script_mixing(..).map_err(..)?;\<close>\<close>
definition check_shown :: "(rstring \<Rightarrow> entry_error + unit) \<Rightarrow> rstring \<Rightarrow> otpauth_error + unit" where
  "check_shown validate s =
    rbind (map_err map_entry_error (validate s)) (\<lambda>_.
      map_err map_entry_error (reject_script_mixing s))"

fun check_shown_opt ::
    "(rstring \<Rightarrow> entry_error + unit) \<Rightarrow> rstring option \<Rightarrow> otpauth_error + unit" where
  "check_shown_opt validate None = Inr ()"
| "check_shown_opt validate (Some s) = check_shown validate s"

text \<open>\<open>Option::or\<close>\<close>
fun option_or :: "'a option \<Rightarrow> 'a option \<Rightarrow> 'a option" where
  "option_or None y = y"
| "option_or (Some x) y = Some x"

definition parse_totp_otpauth_uri ::
    "url_lib \<Rightarrow> policy_context \<Rightarrow> rstring \<Rightarrow> otpauth_error + rstring \<times> totp_secret" where
  "parse_totp_otpauth_uri U policy uri =
    guard (\<not> allow_otpauth_import policy) OtpInvalidParams
    (guard (uri = [] \<or> str_len uri > MAX_OTP_AUTH_URI_LEN) OtpInvalidUri
    (rbind (ok_or OtpInvalidUri (url_parse U uri)) (\<lambda>url.
     guard (url_scheme url \<noteq> lit ''otpauth'') OtpInvalidUri
     (guard (url_host_str url \<noteq> Some (lit ''totp'')) OtpInvalidUri
     (let raw_path = dropWhile (\<lambda>c. c = 47) (url_path url) in
      guard (raw_path = []) OtpInvalidUri
      (rbind (ok_or OtpInvalidUri (percent_decode_utf8 U raw_path)) (\<lambda>decoded_label.
       case split_label decoded_label of (issuer_from_label, account_from_label, title) \<Rightarrow>
       rbind (read_pairs (url_query_pairs url) 0 default_query) (\<lambda>q.
       rbind (ok_or OtpInvalidParams (q_secret_b32 q)) (\<lambda>secret_b32.
       let issuer_final = option_or (q_issuer_param q) issuer_from_label in
       rbind (check_shown validate_title title) (\<lambda>_.
       rbind (check_shown_opt validate_username account_from_label) (\<lambda>_.
       rbind (check_shown_opt validate_title issuer_final) (\<lambda>_.
       let totp = \<lparr>ts_issuer = issuer_final, ts_account_name = account_from_label,
                   ts_secret_b32 = secret_b32, ts_digits = q_digits q,
                   ts_period_secs = q_period_secs q, ts_algorithm = q_algorithm q\<rparr> in
       rbind (map_err map_entry_error (totp_secret_validate totp)) (\<lambda>_.
         Inr (title, totp))))))))))))))"

section \<open>Export (otpauth/export.rs)\<close>

text \<open>\<open>join\<close> of strings with a one-character separator.\<close>
fun join_with :: "rchar \<Rightarrow> rstring list \<Rightarrow> rstring" where
  "join_with c [] = []"
| "join_with c [s] = s"
| "join_with c (s # t # r) = s @ c # join_with c (t # r)"

definition query_string :: "url_lib \<Rightarrow> (rstring \<times> rstring) list \<Rightarrow> rstring" where
  "query_string U query =
    join_with 38 (map (\<lambda>(k, v). utf8_percent_encode U k @ 61 # utf8_percent_encode U v) query)"

definition label_text :: "rstring \<Rightarrow> rstring option \<Rightarrow> rstring option \<Rightarrow> rstring" where
  "label_text title issuer account =
    (case (issuer, account) of (Some iss, Some acc) \<Rightarrow> iss @ 58 # acc | _ \<Rightarrow> title)"

fun algorithm_name :: "totp_algorithm \<Rightarrow> rstring" where
  "algorithm_name Sha1 = lit ''SHA1''"
| "algorithm_name Sha256 = lit ''SHA256''"
| "algorithm_name Sha512 = lit ''SHA512''"

definition export_totp_otpauth_uri ::
    "url_lib \<Rightarrow> rstring \<Rightarrow> totp_secret \<Rightarrow> otpauth_error + rstring" where
  "export_totp_otpauth_uri U title totp =
    rbind (map_err (\<lambda>_. OtpInvalidParams) (totp_secret_validate totp)) (\<lambda>_.
    let issuer = ts_issuer totp;
        account = ts_account_name totp;
        label_path = utf8_percent_encode U (label_text title issuer account)
    in rbind (map_err (\<lambda>_. OtpInvalidParams) (canonicalize_base32_for_export (ts_secret_b32 totp)))
      (\<lambda>secret.
       let query = [(lit ''secret'', secret), (lit ''algorithm'', algorithm_name (ts_algorithm totp)),
             (lit ''digits'', dec_digits (unat (ts_digits totp))),
             (lit ''period'', dec_digits (unat (ts_period_secs totp)))]
             @ (case issuer of None \<Rightarrow> [] | Some iss \<Rightarrow> [(lit ''issuer'', iss)])
       in Inr (lit ''otpauth://totp/'' @ label_path @ 63 # query_string U query)))"

section \<open>Import of an entry (entries/import.rs)\<close>

definition import_totp_from_otpauth_uri_with_policy ::
    "url_lib \<Rightarrow> policy_context \<Rightarrow> uuid \<Rightarrow> rstring \<Rightarrow> rstring option \<Rightarrow> entry_error + vault_entry" where
  "import_totp_from_otpauth_uri_with_policy U policy new_id uri note =
    rbind (map_err (\<lambda>_. InvalidType) (parse_totp_otpauth_uri U policy uri)) (\<lambda>(title, totp).
      new_totp new_id title totp note)"

section \<open>Lemmas: the parser\<close>

definition unmixed :: "rstring \<Rightarrow> bool" where
  "unmixed s \<longleftrightarrow> \<not> (list_ex is_ascii_alphanumeric s \<and> (list_ex is_cyrillic s \<or> list_ex is_greek s))"

lemma reject_script_mixing_ok [simp]: "is_ok (reject_script_mixing s) \<longleftrightarrow> unmixed s"
  by (simp add: reject_script_mixing_def unmixed_def)

lemma is_ok_map_err [simp]: "is_ok (map_err f x) \<longleftrightarrow> is_ok x"
  by (cases x) auto

lemma check_shown_ok [simp]:
  "is_ok (check_shown validate s) \<longleftrightarrow> is_ok (validate s) \<and> unmixed s"
  by (simp add: check_shown_def)

lemma check_shown_opt_ok [simp]:
  "is_ok (check_shown_opt validate x) \<longleftrightarrow>
    (case x of None \<Rightarrow> True | Some s \<Rightarrow> is_ok (validate s) \<and> unmixed s)"
  by (cases x) auto

text \<open>The texts a successful parse returns, and the condition it puts on them.\<close>
definition shown_ok :: "rstring \<Rightarrow> totp_secret \<Rightarrow> bool" where
  "shown_ok title t \<longleftrightarrow> safe_text 256 title \<and> unmixed title \<and>
     (case ts_account_name t of None \<Rightarrow> True | Some a \<Rightarrow> safe_text 320 a \<and> unmixed a) \<and>
     (case ts_issuer t of None \<Rightarrow> True | Some i \<Rightarrow> safe_text 256 i \<and> unmixed i)"

lemma parse_otpauth_iff:
  "parse_totp_otpauth_uri U policy uri = Inr (title, t) \<longleftrightarrow>
    allow_otpauth_import policy \<and> uri \<noteq> [] \<and> str_len uri \<le> 4096 \<and>
    (\<exists>url label il q. url_parse U uri = Some url \<and> url_scheme url = lit ''otpauth'' \<and>
      url_host_str url = Some (lit ''totp'') \<and> dropWhile (\<lambda>c. c = 47) (url_path url) \<noteq> [] \<and>
      percent_decode_utf8 U (dropWhile (\<lambda>c. c = 47) (url_path url)) = Some label \<and>
      split_label label = (il, ts_account_name t, title) \<and>
      read_pairs (url_query_pairs url) 0 default_query = Inr q \<and>
      q_secret_b32 q = Some (ts_secret_b32 t) \<and> ts_issuer t = option_or (q_issuer_param q) il \<and>
      ts_digits t = q_digits q \<and> ts_period_secs t = q_period_secs q \<and>
      ts_algorithm t = q_algorithm q) \<and>
    shown_ok title t \<and> totp_params_ok t" (is "?parse \<longleftrightarrow> ?checks")
proof
  assume ?parse
  then show ?checks
    by (auto simp: parse_totp_otpauth_uri_def Let_def unit_result limits
          shown_ok_def case_prod_unfold prod_eq_iff not_less
        split: if_splits cong: option.case_cong simp del: dropWhile_eq_Nil_conv)
next
  assume ?checks
  then show ?parse
    by (cases t) (auto simp: parse_totp_otpauth_uri_def Let_def unit_result limits
          shown_ok_def
        cong: option.case_cong simp del: dropWhile_eq_Nil_conv)
qed

section \<open>Lemmas: export\<close>

text \<open>
  The documented behaviour of the crates the round trip relies on: percent-encoding a
  string and decoding it gives the string back, and a URI whose label and query are
  percent-encoded down to letters and digits parses into these parts. The empty label and
  the encodings of \<open>.\<close> and \<open>..\<close> are left out: the URL standard removes them from a path.
\<close>

definition dot_label :: "rstring \<Rightarrow> bool" where
  "dot_label s \<longleftrightarrow> s = [] \<or> s = lit ''.'' \<or> s = lit ''..''"

definition url_lib_correct :: "url_lib \<Rightarrow> bool" where
  "url_lib_correct U \<longleftrightarrow>
    (\<forall>s. scalars s \<longrightarrow> percent_decode_utf8 U (utf8_percent_encode U s) = Some s \<and>
       47 \<notin> set (utf8_percent_encode U s) \<and> (utf8_percent_encode U s = [] \<longrightarrow> s = [])) \<and>
    (\<forall>label query. scalars label \<longrightarrow> \<not> dot_label label \<longrightarrow> query \<noteq> [] \<longrightarrow>
       list_all (\<lambda>(k, v). k \<noteq> [] \<and> scalars k \<and> scalars v) query \<longrightarrow>
       url_parse U (lit ''otpauth://totp/'' @ utf8_percent_encode U label @ 63 # query_string U query) =
         Some \<lparr>url_scheme = lit ''otpauth'', url_host_str = Some (lit ''totp''),
               url_path = 47 # utf8_percent_encode U label, url_query_pairs = query\<rparr>)"

definition bare_secret :: "totp_secret \<Rightarrow> rstring" where
  "bare_secret t = trim_end_with (\<lambda>c. c = 61) (ts_secret_b32 t)"

lemma scalars_ascii: "is_ascii s \<Longrightarrow> scalars s"
  by (auto simp: is_ascii_def is_ascii_char_def is_scalar_def list_all_iff)

lemma scalars_digits [simp]: "scalars (dec_digits n)"
  using dec_digits_digit [of n] by (auto simp: list_all_iff is_digit_def is_scalar_def)

lemma scalars_algorithm [simp]: "scalars (algorithm_name a)"
  by (cases a) (simp_all add: lit_def is_scalar_def)

lemma b32_bare: "totp_params_ok t \<Longrightarrow> list_all is_b32_char (bare_secret t)"
  using set_trim_end [of "\<lambda>c. c = 61" "ts_secret_b32 t"]
  by (auto simp: totp_params_ok_def bare_secret_def list_all_iff)

lemma length_trim_end: "length (trim_end_with p s) \<le> length s"
  using length_dropWhile_le [of p "rev s"] by (simp add: trim_end_with_def)

lemma canonicalize_b32:
  assumes "totp_params_ok t"
  shows "canonicalize_base32_for_export (ts_secret_b32 t) =
    (if bare_secret t = [] then Inl InvalidSecret else Inr (bare_secret t))"
proof -
  let ?s = "ts_secret_b32 t"
  have b: "list_all is_b32_char ?s" and n: "?s \<noteq> []" "length ?s \<le> 1024"
    using assms by (auto simp: totp_params_ok_def)
  have "filter (\<lambda>c. \<not> is_whitespace c \<and> c \<noteq> 45) ?s = ?s"
    using b by (auto simp: filter_id_conv list_all_iff is_b32_char_def is_whitespace_def)
  moreover have "map to_ascii_uppercase ?s = ?s"
    using b by (intro map_idI) (auto simp: list_all_iff is_b32_char_def to_ascii_uppercase_def)
  ultimately show ?thesis
    using n b32_is_ascii [OF b] str_len_ascii [OF b32_is_ascii [OF b]]
    by (simp add: canonicalize_base32_for_export_def MAX_SECRET_B32_LEN_def bare_secret_def Let_def)
qed

text \<open>The query the exporter writes, and what the parser reads of it.\<close>

definition export_query :: "totp_secret \<Rightarrow> (rstring \<times> rstring) list" where
  "export_query t = [(lit ''secret'', bare_secret t), (lit ''algorithm'', algorithm_name (ts_algorithm t)),
      (lit ''digits'', dec_digits (unat (ts_digits t))),
      (lit ''period'', dec_digits (unat (ts_period_secs t)))]
      @ (case ts_issuer t of None \<Rightarrow> [] | Some iss \<Rightarrow> [(lit ''issuer'', iss)])"

definition export_uri :: "url_lib \<Rightarrow> rstring \<Rightarrow> totp_secret \<Rightarrow> rstring" where
  "export_uri U title t = lit ''otpauth://totp/'' @
     utf8_percent_encode U (label_text title (ts_issuer t) (ts_account_name t)) @ 63 #
     query_string U (export_query t)"

lemma export_otpauth_eq:
  assumes "totp_params_ok t"
  shows "export_totp_otpauth_uri U title t =
    (if bare_secret t = [] then Inl OtpInvalidParams else Inr (export_uri U title t))"
proof -
  have "totp_secret_validate t = Inr ()" using assms by (simp add: unit_result)
  then show ?thesis
    by (simp add: export_totp_otpauth_uri_def canonicalize_b32 [OF assms] Let_def
        export_uri_def export_query_def)
qed

lemma parse_algorithm_name: "parse_algorithm (algorithm_name a) = Some a"
  by (cases a) (simp_all add: parse_algorithm_def lit_def)

lemmas query_keys = read_pair_def lit_def MAX_QUERY_PAIRS_def default_query_def

lemma read_export_query:
  "read_pairs (export_query t) 0 default_query =
    Inr \<lparr>q_secret_b32 = Some (bare_secret t), q_issuer_param = ts_issuer t,
         q_algorithm = ts_algorithm t, q_digits = ts_digits t, q_period_secs = ts_period_secs t\<rparr>"
proof -
  have d: "parse_uint 255 (dec_digits (unat (ts_digits t))) = Some (unat (ts_digits t))"
    using unat_u8_less [of "ts_digits t"] by (intro parse_dec_digits) simp
  have p: "parse_uint 4294967295 (dec_digits (unat (ts_period_secs t))) = Some (unat (ts_period_secs t))"
    using unat_u32_less [of "ts_period_secs t"] by (intro parse_dec_digits) simp
  show ?thesis
    by (cases "ts_issuer t")
       (simp_all add: export_query_def query_keys parse_algorithm_name [unfolded lit_def] d p)
qed

definition text_scalars :: "rstring \<Rightarrow> totp_secret \<Rightarrow> bool" where
  "text_scalars title t \<longleftrightarrow> scalars title \<and> pred_option scalars (ts_issuer t) \<and>
     pred_option scalars (ts_account_name t)"

definition reimported :: "totp_secret \<Rightarrow> rstring option \<Rightarrow> rstring option \<Rightarrow> totp_secret" where
  "reimported t il al = t\<lparr>ts_issuer := option_or (ts_issuer t) il, ts_account_name := al,
     ts_secret_b32 := bare_secret t\<rparr>"

lemma reimported_params: "totp_params_ok t \<Longrightarrow> bare_secret t \<noteq> [] \<Longrightarrow> totp_params_ok (reimported t il al)"
  using b32_bare [of t] length_trim_end [of "\<lambda>c. c = 61" "ts_secret_b32 t"]
  by (auto simp: totp_params_ok_def reimported_def bare_secret_def)

lemma scalars_label: "text_scalars title t \<Longrightarrow> scalars (label_text title (ts_issuer t) (ts_account_name t))"
  by (auto simp: text_scalars_def label_text_def is_scalar_def split: option.splits)

lemma scalars_query:
  "text_scalars title t \<Longrightarrow> totp_params_ok t \<Longrightarrow>
    list_all (\<lambda>(k, v). k \<noteq> [] \<and> scalars k \<and> scalars v) (export_query t)"
  using scalars_ascii [OF b32_is_ascii [OF b32_bare [of t]]]
  by (auto simp: export_query_def text_scalars_def lit_def is_scalar_def split: option.splits)

text \<open>The exported URI read back: all that is left to the parser is the check of the shown texts.\<close>

lemma parse_exported:
  assumes U: "url_lib_correct U" and t: "totp_params_ok t" "bare_secret t \<noteq> []"
    and text_ok: "text_scalars title t"
    and label: "\<not> dot_label (label_text title (ts_issuer t) (ts_account_name t))"
    and split: "split_label (label_text title (ts_issuer t) (ts_account_name t)) = (il, al, shown)"
    and shown: "shown_ok shown (reimported t il al)"
    and import: "allow_otpauth_import policy" "str_len (export_uri U title t) \<le> 4096"
  shows "parse_totp_otpauth_uri U policy (export_uri U title t) = Inr (shown, reimported t il al)"
proof -
  let ?l = "label_text title (ts_issuer t) (ts_account_name t)"
  let ?e = "utf8_percent_encode U ?l"
  let ?url = "\<lparr>url_scheme = lit ''otpauth'', url_host_str = Some (lit ''totp''), url_path = 47 # ?e,
      url_query_pairs = export_query t\<rparr>"
  have l: "scalars ?l" by (rule scalars_label [OF text_ok])
  have e: "percent_decode_utf8 U ?e = Some ?l" "47 \<notin> set ?e" "?e \<noteq> []"
    using U l label by (auto simp: url_lib_correct_def dot_label_def)
  have "export_query t \<noteq> []" by (simp add: export_query_def)
  then have "url_parse U (export_uri U title t) = Some ?url"
    using U l label scalars_query [OF text_ok t(1)] unfolding export_uri_def url_lib_correct_def by blast
  moreover have "dropWhile (\<lambda>c. c = 47) (url_path ?url) = ?e"
    using e(2,3) by (cases ?e) auto
  moreover have "export_uri U title t \<noteq> []" by (simp add: export_uri_def lit_def)
  ultimately show ?thesis
    using import split shown e reimported_params [OF t] read_export_query [of t]
    unfolding parse_otpauth_iff by (auto simp: reimported_def simp del: dropWhile.simps dropWhile_eq_Nil_conv)
qed

text \<open>A label that comes back as it is: no colon, no surrounding blanks, fit to be shown.\<close>
definition plain_label :: "nat \<Rightarrow> rstring \<Rightarrow> bool" where
  "plain_label n s \<longleftrightarrow> safe_text n s \<and> unmixed s \<and> trim s = s"

lemma trim_ends:
  assumes "trim s = s" and "s \<noteq> []"
  shows "\<not> is_whitespace (hd s) \<and> \<not> is_whitespace (last s)"
proof -
  have "length s \<le> length (dropWhile is_whitespace s)"
    using length_trim_end [of is_whitespace "dropWhile is_whitespace s"] assms(1) by (metis trim_def)
  moreover have "length (takeWhile is_whitespace s) + length (dropWhile is_whitespace s) = length s"
    by (metis length_append takeWhile_dropWhile_id)
  ultimately have "length (takeWhile is_whitespace s) = 0" by linarith
  then have "takeWhile is_whitespace s = []" by (simp only: length_0_conv)
  then have h: "\<not> is_whitespace (hd s)" using assms(2) by (cases s) (auto split: if_splits)
  then have "dropWhile is_whitespace s = s" using assms(2) by (cases s) auto
  with assms h show ?thesis
    using trim_end_with_last [of is_whitespace s] by (simp add: trim_def)
qed

lemma split_plain: "trim s = s \<Longrightarrow> 58 \<notin> set s \<Longrightarrow> split_label s = (None, None, s)"
  by (simp add: split_label_def split_once_None [THEN iffD2])

lemma split_pair:
  assumes "trim i = i" "i \<noteq> []" "58 \<notin> set i" and "trim a = a" "a \<noteq> []"
  shows "split_label (i @ 58 # a) = (Some i, Some a, i)"
proof -
  have "trim (i @ 58 # a) = i @ 58 # a"
    using trim_ends [OF assms(1,2)] trim_ends [OF assms(4,5)] assms(2,5) by (intro trim_id) simp
  then show ?thesis
    using assms by (simp add: split_label_def split_once_append [OF assms(3)])
qed

section \<open>How long an exported URI is\<close>

text \<open>Percent-encoding writes at most three characters for a byte.\<close>
definition url_encode_bound :: "url_lib \<Rightarrow> bool" where
  "url_encode_bound U \<longleftrightarrow> (\<forall>s. str_len (utf8_percent_encode U s) \<le> 3 * str_len s)"

lemma join_with_len: "str_len (join_with 38 xs) \<le> sum_list (map (\<lambda>s. str_len s + 1) xs)"
  by (induction "38 :: nat" xs rule: join_with.induct) (auto simp: char_len_def)

lemma query_string_len:
  assumes "url_encode_bound U"
  shows "str_len (query_string U q) \<le> sum_list (map (\<lambda>(k, v). 3 * str_len k + 3 * str_len v + 2) q)"
proof -
  let ?f = "\<lambda>(k, v). utf8_percent_encode U k @ 61 # utf8_percent_encode U v"
  have e: "str_len (utf8_percent_encode U s) \<le> 3 * str_len s" for s
    using assms by (simp add: url_encode_bound_def)
  have "str_len (?f kv) + 1 \<le> (case kv of (k, v) \<Rightarrow> 3 * str_len k + 3 * str_len v + 2)" for kv
    using e [of "fst kv"] e [of "snd kv"] by (cases kv) (simp add: char_len_def)
  then have "sum_list (map (\<lambda>s. str_len s + 1) (map ?f q)) \<le>
      sum_list (map (\<lambda>(k, v). 3 * str_len k + 3 * str_len v + 2) q)"
    by (simp add: o_def sum_list_mono)
  with join_with_len [of "map ?f q"] show ?thesis unfolding query_string_def by linarith
qed

lemma export_uri_len:
  assumes "url_encode_bound U"
  shows "str_len (export_uri U title t) \<le> 16 + 3 * str_len (label_text title (ts_issuer t) (ts_account_name t)) +
    sum_list (map (\<lambda>(k, v). 3 * str_len k + 3 * str_len v + 2) (export_query t))"
proof -
  let ?l = "label_text title (ts_issuer t) (ts_account_name t)"
  have "str_len (utf8_percent_encode U ?l) \<le> 3 * str_len ?l" using assms by (simp add: url_encode_bound_def)
  moreover have "str_len (lit ''otpauth://totp/'') = 15" by code_simp
  ultimately show ?thesis
    using query_string_len [OF assms, of "export_query t"] by (simp add: export_uri_def char_len_def)
qed

section \<open>A concrete instance of the crates\<close>

definition hex_digit :: "nat \<Rightarrow> rchar" where "hex_digit n = (if n < 10 then 48 + n else 55 + n)"
definition hex_value :: "rchar \<Rightarrow> nat" where "hex_value c = (if c < 58 then c - 48 else c - 55)"

definition pct_byte :: "u8 \<Rightarrow> rstring" where
  "pct_byte b = (if is_ascii_alphanumeric (unat b) then [unat b]
     else [37, hex_digit (unat b div 16), hex_digit (unat b mod 16)])"

definition pct_encode :: "rstring \<Rightarrow> rstring" where
  "pct_encode s = concat (map pct_byte (as_bytes s))"

fun unpct :: "rstring \<Rightarrow> bytes" where
  "unpct [] = []"
| "unpct (c # r) =
    (if c = 37 then (case r of h # l # r' \<Rightarrow> byte (hex_value h * 16 + hex_value l) # unpct r' | _ \<Rightarrow> [])
     else byte c # unpct r)"

fun pieces :: "rchar \<Rightarrow> rstring \<Rightarrow> rstring \<Rightarrow> rstring list" where
  "pieces d acc [] = [rev acc]"
| "pieces d acc (c # s) = (if c = d then rev acc # pieces d [] s else pieces d (c # acc) s)"

definition lossy :: "rstring \<Rightarrow> rstring" where
  "lossy s = (case from_utf8 (unpct s) of Some r \<Rightarrow> r | None \<Rightarrow> [])"

definition read_query :: "rstring \<Rightarrow> (rstring \<times> rstring) list" where
  "read_query q = map (\<lambda>s. case split_once 61 s of Some (k, v) \<Rightarrow> (lossy k, lossy v) | None \<Rightarrow> (lossy s, []))
     (pieces 38 [] q)"

text \<open>The segments the URL standard removes, written plainly or percent-encoded.\<close>
definition dot_segment :: "rstring \<Rightarrow> bool" where
  "dot_segment s \<longleftrightarrow> unpct s = [46] \<or> unpct s = [46, 46]"

definition std_parse :: "rstring \<Rightarrow> parsed_url option" where
  "std_parse uri =
    (case split_once 58 uri of
       Some (scheme, a # b # authority) \<Rightarrow>
         (case split_once 47 authority of
            Some (host, rest) \<Rightarrow>
              (let (label, query) = (case split_once 63 rest of
                     Some (l, q) \<Rightarrow> (l, read_query q) | None \<Rightarrow> (rest, []))
               in if a = 47 \<and> b = 47
                  then Some \<lparr>url_scheme = scheme, url_host_str = Some host,
                    url_path = 47 # (if dot_segment label then [] else label), url_query_pairs = query\<rparr>
                  else None)
          | None \<Rightarrow> None)
     | _ \<Rightarrow> None)"

definition std_url :: url_lib where
  "std_url = \<lparr>url_parse = std_parse, percent_decode_utf8 = (\<lambda>s. from_utf8 (unpct s)),
     utf8_percent_encode = pct_encode\<rparr>"

lemma unpct_byte: "unpct (pct_byte b @ r) = b # unpct r"
proof -
  have b: "unat b < 256" by (rule unat_u8_less)
  have hx: "hex_value (hex_digit n) = n" if "n < 16" for n
    using that by (simp add: hex_value_def hex_digit_def)
  have "hex_value (hex_digit (unat b div 16)) * 16 + hex_value (hex_digit (unat b mod 16)) = unat b"
    using b by (simp add: hx)
  then show ?thesis
    by (simp add: pct_byte_def is_ascii_alphanumeric_def is_digit_def)
qed

lemma unpct_encode: "unpct (pct_encode s) = as_bytes s"
proof -
  have "unpct (concat (map pct_byte bs)) = bs" for bs
    by (induction bs) (simp_all add: unpct_byte)
  then show ?thesis by (simp add: pct_encode_def)
qed

lemma hex_digit_alnum: "n < 16 \<Longrightarrow> is_ascii_alphanumeric (hex_digit n)"
  by (auto simp: hex_digit_def is_ascii_alphanumeric_def is_digit_def)

lemma pct_encode_chars: "c \<in> set (pct_encode s) \<Longrightarrow> c = 37 \<or> is_ascii_alphanumeric c"
proof -
  have "c = 37 \<or> is_ascii_alphanumeric c" if "c \<in> set (pct_byte b)" for b
    using that unat_u8_less [of b]
    by (auto simp: pct_byte_def split: if_splits intro: hex_digit_alnum)
  then show "c \<in> set (pct_encode s) \<Longrightarrow> c = 37 \<or> is_ascii_alphanumeric c"
    by (auto simp: pct_encode_def)
qed

lemma pct_encode_not [simp]:
  "38 \<notin> set (pct_encode s)" "61 \<notin> set (pct_encode s)" "63 \<notin> set (pct_encode s)" "47 \<notin> set (pct_encode s)"
  using pct_encode_chars [of _ s] by (fastforce simp: is_ascii_alphanumeric_def is_digit_def)+

lemma pieces_join:
  "xs \<noteq> [] \<Longrightarrow> list_all (\<lambda>s. d \<notin> set s) xs \<Longrightarrow> pieces d [] (join_with d xs) = xs"
proof (induction d xs rule: join_with.induct)
  have step: "d \<notin> set s \<Longrightarrow> pieces d acc (s @ d # r) = (rev acc @ s) # pieces d [] r"
    and stop: "d \<notin> set s \<Longrightarrow> pieces d acc s = [rev acc @ s]" for d acc s r
    by (induction s arbitrary: acc) auto
  { case (2 c s) then show ?case by (simp add: stop) }
  { case (3 c s t r) then show ?case by (simp add: step) }
qed simp

lemma lossy_encode [simp]: "scalars s \<Longrightarrow> lossy (pct_encode s) = s"
  by (simp add: lossy_def unpct_encode from_utf8_as_bytes)

lemma read_query_string:
  assumes "query \<noteq> []" and "list_all (\<lambda>(k, v). k \<noteq> [] \<and> scalars k \<and> scalars v) query"
  shows "read_query (query_string std_url query) = query"
proof -
  have "pieces 38 [] (query_string std_url query) =
      map (\<lambda>(k, v). pct_encode k @ 61 # pct_encode v) query"
    unfolding query_string_def using assms(1)
    by (subst pieces_join) (auto simp: std_url_def list_all_iff)
  moreover have "map (\<lambda>s. case split_once 61 s of Some (k, v) \<Rightarrow> (lossy k, lossy v) | None \<Rightarrow> (lossy s, []))
      (map (\<lambda>(k, v). pct_encode k @ 61 # pct_encode v) query) = query"
    using assms(2) by (induction query) (auto simp: split_once_append)
  ultimately show ?thesis by (simp only: read_query_def)
qed

lemma dot_segment_encode: "scalars s \<Longrightarrow> dot_segment (pct_encode s) \<longleftrightarrow> s = lit ''.'' \<or> s = lit ''..''"
proof -
  have "as_bytes (lit ''.'') = [46]" "as_bytes (lit ''..'') = [46, 46]" "scalars (lit ''.'')" "scalars (lit ''..'')"
    by (simp_all add: as_bytes_def utf8_char_def lit_def byte_def is_scalar_def)
  then have "as_bytes s = [46] \<longleftrightarrow> s = lit ''.''" "as_bytes s = [46, 46] \<longleftrightarrow> s = lit ''..''" if "scalars s"
    using from_utf8_as_bytes [OF that] by (metis from_utf8_as_bytes option.inject)+
  then show "scalars s \<Longrightarrow> dot_segment (pct_encode s) \<longleftrightarrow> s = lit ''.'' \<or> s = lit ''..''"
    by (simp add: dot_segment_def unpct_encode)
qed

text \<open>A URI taken apart: scheme, host, label and the rest.\<close>
lemma std_parse_parts:
  assumes "58 \<notin> set scheme" and "47 \<notin> set host" and "63 \<notin> set label"
  shows "std_parse (scheme @ 58 # 47 # 47 # host @ 47 # label @ 63 # q) =
      Some \<lparr>url_scheme = scheme, url_host_str = Some host,
        url_path = 47 # (if dot_segment label then [] else label), url_query_pairs = read_query q\<rparr>"
    and "std_parse (scheme @ 58 # 47 # 47 # host @ 47 # label) =
      Some \<lparr>url_scheme = scheme, url_host_str = Some host,
        url_path = 47 # (if dot_segment label then [] else label), url_query_pairs = []\<rparr>"
  using assms split_once_None [of 63 label] by (simp_all add: std_parse_def split_once_append Let_def)

lemma std_parse_exported:
  assumes "scalars label" and "query \<noteq> []" and "list_all (\<lambda>(k, v). k \<noteq> [] \<and> scalars k \<and> scalars v) query"
  shows "url_parse std_url (lit ''otpauth://totp/'' @ utf8_percent_encode std_url label @ 63 # query_string std_url query) =
    Some \<lparr>url_scheme = lit ''otpauth'', url_host_str = Some (lit ''totp''),
      url_path = 47 # (if label = lit ''.'' \<or> label = lit ''..'' then [] else utf8_percent_encode std_url label),
      url_query_pairs = query\<rparr>"
proof -
  have "lit ''otpauth://totp/'' = lit ''otpauth'' @ 58 # 47 # 47 # lit ''totp'' @ [47]" by (simp add: lit_def)
  then have u: "lit ''otpauth://totp/'' @ r = lit ''otpauth'' @ 58 # 47 # 47 # lit ''totp'' @ 47 # r" for r by simp
  have "58 \<notin> set (lit ''otpauth'')" "47 \<notin> set (lit ''totp'')" by (simp_all add: lit_def)
  from std_parse_parts(1) [OF this, of "pct_encode label" "query_string std_url query"] show ?thesis
    unfolding u using read_query_string [OF assms(2,3)] dot_segment_encode [OF assms(1)] by (simp add: std_url_def)
qed

lemma std_url_correct: "url_lib_correct std_url"
proof -
  have "s = []" if "pct_encode s = []" "scalars s" for s
    using that unpct_encode [of s] from_utf8_as_bytes [of s] by (cases s) auto
  then show ?thesis
    unfolding url_lib_correct_def using std_parse_exported
    by (auto simp: dot_label_def std_url_def unpct_encode from_utf8_as_bytes)
qed

definition uri_totp :: totp_secret where
  "uri_totp = \<lparr>ts_issuer = Some (lit ''Acme''), ts_account_name = Some (lit ''bob''),
     ts_secret_b32 = replicate 26 65 @ [61], ts_digits = 6, ts_period_secs = 30, ts_algorithm = Sha256\<rparr>"

definition colon_totp :: totp_secret where
  "colon_totp = uri_totp\<lparr>ts_issuer := Some (lit ''A'' @ 58 # lit ''B'')\<rparr>"

lemma pct_encode_len: "str_len (pct_encode s) \<le> 3 * str_len s"
proof -
  have "is_ascii (pct_encode s)"
    using pct_encode_chars [of _ s]
    by (fastforce simp: is_ascii_def is_ascii_char_def list_all_iff is_ascii_alphanumeric_def is_digit_def)
  moreover have "length (concat (map pct_byte bs)) \<le> 3 * length bs" for bs
    by (induction bs) (auto simp: pct_byte_def)
  ultimately show ?thesis by (metis str_len_ascii pct_encode_def length_as_bytes)
qed

lemma std_url_bound: "url_encode_bound std_url"
  using pct_encode_len by (simp add: url_encode_bound_def std_url_def)

lemma uri_bare: "bare_secret uri_totp = replicate 26 65" "bare_secret colon_totp = replicate 26 65"
  by code_simp+

lemma uri_len:
  "str_len (export_uri std_url (lit ''Work'') uri_totp) \<le> 4096"
  "str_len (export_uri std_url (lit ''Work'') colon_totp) \<le> 4096"
proof -
  have "str_len (export_uri std_url (lit ''Work'') t) \<le> 4096" if "t = uri_totp \<or> t = colon_totp" for t
  proof -
    let ?l = "label_text (lit ''Work'') (ts_issuer t) (ts_account_name t)"
    have "3 * str_len ?l \<le> 100"
      "sum_list (map (\<lambda>(k, v). 3 * str_len k + 3 * str_len v + 2) (export_query t)) \<le> 1000"
      using that by (elim disjE; hypsubst; code_simp)+
    then show ?thesis
      using export_uri_len [OF std_url_bound, of "lit ''Work''" t] by linarith
  qed
  then show "str_len (export_uri std_url (lit ''Work'') uri_totp) \<le> 4096"
    and "str_len (export_uri std_url (lit ''Work'') colon_totp) \<le> 4096" by simp_all
qed

lemma uri_totp_ok: "totp_params_ok uri_totp" "totp_params_ok colon_totp"
  "text_scalars (lit ''Work'') uri_totp" "text_scalars (lit ''Work'') colon_totp"
  by (simp_all add: totp_params_ok_def text_scalars_def uri_totp_def colon_totp_def lit_def is_scalar_def
      is_b32_char_def list_all_iff)

lemmas shown_text = safe_text_def displayable_def is_control_def is_bidi_control_def is_zero_width_def
  char_len_def unmixed_def is_ascii_alphanumeric_def is_digit_def is_cyrillic_def is_greek_def

lemma uri_plain: "plain_label 256 (lit ''Acme'')" "plain_label 320 (lit ''bob'')"
  "plain_label 256 (lit ''A'')" "plain_label 320 (lit ''B'' @ 58 # lit ''bob'')"
proof -
  have "trim (lit ''Acme'') = lit ''Acme''" "trim (lit ''bob'') = lit ''bob''" "trim (lit ''A'') = lit ''A''"
    "trim (lit ''B'' @ 58 # lit ''bob'') = lit ''B'' @ 58 # lit ''bob''"
    by (intro trim_id; simp add: lit_def is_whitespace_def)+
  then show "plain_label 256 (lit ''Acme'')" "plain_label 320 (lit ''bob'')"
    "plain_label 256 (lit ''A'')" "plain_label 320 (lit ''B'' @ 58 # lit ''bob'')"
    by (simp_all add: plain_label_def) (simp_all add: lit_def shown_text)
qed

abbreviation full_access :: policy_context where
  "full_access \<equiv> \<lparr>pc_outcome = Primary, pc_runtime_state = NotDebugged\<rparr>"

definition uri_back :: totp_secret where
  "uri_back = reimported uri_totp (Some (lit ''Acme'')) (Some (lit ''bob''))"

lemma uri_parses:
  "parse_totp_otpauth_uri std_url full_access (export_uri std_url (lit ''Work'') uri_totp) =
    Inr (lit ''Acme'', uri_back)"
proof -
  have l: "label_text (lit ''Work'') (ts_issuer uri_totp) (ts_account_name uri_totp) = lit ''Acme:bob''"
    by (simp add: label_text_def uri_totp_def lit_def)
  have s: "split_label (lit ''Acme:bob'') = (Some (lit ''Acme''), Some (lit ''bob''), lit ''Acme'')"
    using split_pair [of "lit ''Acme''" "lit ''bob''"] uri_plain by (simp add: lit_def plain_label_def)
  have "\<not> dot_label (lit ''Acme:bob'')" "shown_ok (lit ''Acme'') (reimported uri_totp (Some (lit ''Acme'')) (Some (lit ''bob'')))"
    "bare_secret uri_totp \<noteq> []" "allow_otpauth_import full_access"
    by (simp_all add: dot_label_def shown_ok_def reimported_def uri_bare trusted_posture_def)
       (simp_all add: uri_totp_def lit_def shown_text)
  with parse_exported [OF std_url_correct uri_totp_ok(1) _ uri_totp_ok(3) _ _ _ _ uri_len(1), of _ _ _ full_access]
  show ?thesis using l s by (simp add: uri_back_def)
qed

lemma uri_back_ok: "totp_params_ok uri_back" "ts_secret_b32 uri_back = replicate 26 65"
  using reimported_params [OF uri_totp_ok(1)] uri_bare by (simp_all add: uri_back_def reimported_def)

lemma uri_back_entry: "is_ok (new_totp i (lit ''Acme'') uri_back None)"
  using uri_back_ok by (simp add: new_totp_def Let_def entry_ok_iff MAX_TITLE_LEN_def) (simp add: lit_def shown_text)

section \<open>Properties\<close>

definition exportable :: "rstring \<Rightarrow> totp_secret \<Rightarrow> bool" where
  "exportable title t \<longleftrightarrow> totp_params_ok t \<and> bare_secret t \<noteq> [] \<and> text_scalars title t \<and>
    (case (ts_issuer t, ts_account_name t) of
       (Some i, Some a) \<Rightarrow> plain_label 256 i \<and> 58 \<notin> set i \<and> plain_label 320 a
     | (iss, _) \<Rightarrow> plain_label 256 title \<and> 58 \<notin> set title \<and> \<not> dot_label title \<and>
         (case iss of None \<Rightarrow> True | Some i \<Rightarrow> safe_text 256 i \<and> unmixed i))"

text \<open>What survives the trip: with issuer and account the title is replaced by the issuer, without an
  issuer the account is dropped, and the padding of the secret goes.\<close>

definition exported_title :: "rstring \<Rightarrow> totp_secret \<Rightarrow> rstring" where
  "exported_title title t =
    (case (ts_issuer t, ts_account_name t) of (Some i, Some a) \<Rightarrow> i | _ \<Rightarrow> title)"

definition exported_totp :: "totp_secret \<Rightarrow> totp_secret" where
  "exported_totp t = t\<lparr>ts_account_name := (if ts_issuer t = None then None else ts_account_name t),
     ts_secret_b32 := bare_secret t\<rparr>"

lemma exported_reads_back:
  assumes "url_lib_correct U" and "exportable title t" and "allow_otpauth_import policy"
    and "str_len (export_uri U title t) \<le> 4096"
  shows "parse_totp_otpauth_uri U policy (export_uri U title t) = Inr (exported_title title t, exported_totp t)"
proof -
  let ?l = "label_text title (ts_issuer t) (ts_account_name t)"
  have t: "totp_params_ok t" "bare_secret t \<noteq> []" "text_scalars title t"
    using assms(2) by (auto simp: exportable_def)
  define il where "il = (if ts_account_name t = None then None else ts_issuer t)"
  define al where "al = (if ts_issuer t = None then None else ts_account_name t)"
  have s: "split_label ?l = (il, al, exported_title title t)"
    and dot: "\<not> dot_label ?l" and shown: "shown_ok (exported_title title t) (reimported t il al)"
    using assms(2)
    by (auto simp: exportable_def label_text_def exported_title_def il_def al_def plain_label_def
        safe_text_def split_plain split_pair dot_label_def lit_def shown_ok_def reimported_def
        append_eq_Cons_conv split: option.splits)
  have "reimported t il al = exported_totp t"
    by (cases "ts_issuer t"; cases "ts_account_name t")
       (simp_all add: reimported_def exported_totp_def il_def al_def)
  then show ?thesis
    using parse_exported [OF assms(1) t dot s shown assms(3,4)] by simp
qed

text \<open>C32. Export then import is exact on every entry whose texts are plain labels: the URI that
  \<open>export_totp_otpauth_uri\<close> writes parses back to the same algorithm, digits, period, issuer and
  secret (without its padding) whenever it fits the length limit. What comes back is not always
  what went in: the title is replaced by the issuer when the entry has an account, and an account
  without an issuer is not exported at all.\<close>

theorem otpauth_roundtrip:
  assumes "url_lib_correct U" and "exportable title t" and "allow_otpauth_import policy"
  shows "\<exists>uri. export_totp_otpauth_uri U title t = Inr uri \<and>
    (str_len uri \<le> 4096 \<longrightarrow>
      parse_totp_otpauth_uri U policy uri = Inr (exported_title title t, exported_totp t))"
proof -
  have t: "totp_params_ok t" "bare_secret t \<noteq> []" using assms(2) by (simp_all add: exportable_def)
  show ?thesis using exported_reads_back [OF assms] by (simp add: export_otpauth_eq [OF t(1)] t(2))
qed

theorem otpauth_roundtrip_witness:
  "\<exists>uri. export_totp_otpauth_uri std_url (lit ''Work'') uri_totp = Inr uri \<and>
    parse_totp_otpauth_uri std_url \<lparr>pc_outcome = Primary, pc_runtime_state = NotDebugged\<rparr> uri =
      Inr (lit ''Acme'', uri_totp\<lparr>ts_secret_b32 := replicate 26 65\<rparr>)"
proof -
  have "ts_issuer uri_totp = Some (lit ''Acme'')" "ts_account_name uri_totp = Some (lit ''bob'')"
    by (simp_all add: uri_totp_def)
  then have e: "exportable (lit ''Work'') uri_totp"
    using uri_totp_ok uri_bare uri_plain by (simp add: exportable_def lit_def)
  have "allow_otpauth_import \<lparr>pc_outcome = Primary, pc_runtime_state = NotDebugged\<rparr>"
    by (simp add: trusted_posture_def)
  from otpauth_roundtrip [OF std_url_correct e this] show ?thesis
    using uri_len(1) uri_bare(1) export_otpauth_eq [OF uri_totp_ok(1), of std_url "lit ''Work''"]
    by (auto simp: exported_title_def exported_totp_def) (simp_all add: uri_totp_def)
qed

text \<open>C33. An imported entry is well formed: whatever URI comes in, an entry that
  \<open>import_totp_from_otpauth_uri_with_policy\<close> returns is a TOTP entry in range with the identifier
  drawn for it, its title, issuer and account are displayable, bounded and not of mixed scripts, and
  the session was allowed to import.\<close>

theorem otpauth_import_sound:
  assumes "import_totp_from_otpauth_uri_with_policy U policy new_id uri note = Inr e"
  shows "allow_otpauth_import policy \<and> entry_ok e \<and> text_ok e \<and> entry_type_of e = Totp \<and>
    entry_id e = new_id \<and> es_note (ve_secret e) = note \<and>
    (\<exists>t. es_totp (ve_secret e) = Some t \<and> shown_ok (es_title (ve_secret e)) t)"
proof -
  obtain title t where p: "parse_totp_otpauth_uri U policy uri = Inr (title, t)"
    and n: "new_totp new_id title t note = Inr e"
    using assms by (auto simp: import_totp_from_otpauth_uri_with_policy_def)
  show ?thesis
    using p n unfolding parse_otpauth_iff
    by (auto simp: new_totp_def text_ok_def Let_def unit_result split: option.splits)
qed

theorem otpauth_import_sound_witness:
  "\<exists>e. import_totp_from_otpauth_uri_with_policy std_url
      full_access 7
      (export_uri std_url (lit ''Work'') uri_totp) None = Inr e \<and> entry_ok e \<and> entry_id e = 7"
proof -
  have "is_ok (new_totp 7 (lit ''Acme'') (uri_back) None)"
    using uri_back_entry by blast
  then obtain e where "import_totp_from_otpauth_uri_with_policy std_url full_access 7
      (export_uri std_url (lit ''Work'') uri_totp) None = Inr e"
    using uri_parses by (auto simp: import_totp_from_otpauth_uri_with_policy_def is_ok_iff)
  from this otpauth_import_sound [OF this] show ?thesis by blast
qed

text \<open>An issuer with a colon is read back wrong: for an issuer of the form \<open>i:j\<close> the exported label
  \<open>i:j:account\<close> is split at the first colon, so the entry that comes back has the title \<open>i\<close> and the
  account \<open>j:account\<close>, although the issuer parameter keeps the issuer.\<close>

lemma colon_issuer_shifts_account:
  assumes "url_lib_correct U" and "totp_params_ok t" and "bare_secret t \<noteq> []" and "text_scalars title t"
    and "ts_issuer t = Some (i @ 58 # j)" and "ts_account_name t = Some a"
    and "plain_label 256 i" and "58 \<notin> set i" and "safe_text 256 (i @ 58 # j)" and "unmixed (i @ 58 # j)"
    and "plain_label 320 (j @ 58 # a)" and "allow_otpauth_import policy"
  shows "\<exists>uri. export_totp_otpauth_uri U title t = Inr uri \<and>
    (str_len uri \<le> 4096 \<longrightarrow>
      parse_totp_otpauth_uri U policy uri =
        Inr (i, t\<lparr>ts_account_name := Some (j @ 58 # a), ts_secret_b32 := bare_secret t\<rparr>))"
proof -
  let ?l = "label_text title (ts_issuer t) (ts_account_name t)"
  have l: "?l = i @ 58 # (j @ 58 # a)" using assms(5,6) by (simp add: label_text_def)
  have s: "split_label ?l = (Some i, Some (j @ 58 # a), i)"
    unfolding l using assms(7,8,11) by (intro split_pair) (auto simp: plain_label_def safe_text_def)
  have dot: "\<not> dot_label ?l" unfolding l by (auto simp: dot_label_def lit_def append_eq_Cons_conv)
  have r: "reimported t (Some i) (Some (j @ 58 # a)) =
      t\<lparr>ts_account_name := Some (j @ 58 # a), ts_secret_b32 := bare_secret t\<rparr>"
    using assms(5) by (simp add: reimported_def)
  have "shown_ok i (reimported t (Some i) (Some (j @ 58 # a)))"
    using assms(5,7,9-11) by (simp add: shown_ok_def reimported_def plain_label_def)
  from parse_exported [OF assms(1-4) dot s this assms(12)] show ?thesis
    using export_otpauth_eq [OF assms(2)] assms(3) by (auto simp: r)
qed

end
