(* ===== verification/Interop.thy ===== *)
theory Interop
  imports Otpauth Entry_Ops
begin

text \<open>
  \<open>import/interop.rs\<close>, \<open>import/e2e_interop.rs\<close>, \<open>core/import.rs\<close> and \<open>import/error.rs\<close>: the
  import of a plaintext list of \<open>otpauth://\<close> URIs into a quarantine, and the commit of a
  quarantine into the unlocked vault. SHA-256 and the identifiers of \<open>Uuid::new_v4\<close> are
  parameters.
\<close>

section \<open>Types\<close>

datatype import_error =
  ImpPolicyDenied | ImpAuthFailed | ImpInvalidFormat | ImpPayloadTooLarge | ImpInvalidData

definition MAX_INTEROP_IMPORT_BYTES :: nat where [limits]: "MAX_INTEROP_IMPORT_BYTES = 16 * 1024 * 1024"
definition MAX_INTEROP_ENTRIES :: nat where [limits]: "MAX_INTEROP_ENTRIES = 100000"
definition MAX_INTEROP_LINE_LEN :: nat where [limits]: "MAX_INTEROP_LINE_LEN = 8 * 1024"
definition MAX_INTEROP_AGG_TEXT_BYTES :: nat where [limits]: "MAX_INTEROP_AGG_TEXT_BYTES = 2 * 1024 * 1024"

datatype import_intent = UserConfirmed

datatype interop_format = OtpAuthTotpUriList | Other

record quarantined_import =
  qi_format :: interop_format
  qi_payload :: vault_payload

record totp_dedup_key =
  issuer_h :: bytes
  account_h :: bytes
  secret_h :: bytes

record interop_lib =
  il_url :: url_lib
  il_totp :: totp_lib
  \<comment> \<open>\<open>Sha256::digest\<close>\<close>
  il_sha256 :: "bytes \<Rightarrow> bytes"
  \<comment> \<open>the identifier of the \<open>i\<close>-th entry that is built\<close>
  il_new_v4 :: "nat \<Rightarrow> uuid"

section \<open>The list parser (import/interop.rs)\<close>

text \<open>The variables of the loop over the lines; \<open>ls_seen\<close> is the set of keys.\<close>
record list_state =
  ls_entries :: "vault_entry list"
  ls_seen :: "totp_dedup_key list"
  ls_agg_text_bytes :: nat

definition opt_len :: "rstring option \<Rightarrow> nat" where
  "opt_len x = (case x of None \<Rightarrow> 0 | Some s \<Rightarrow> str_len s)"

definition opt_bytes :: "rstring option \<Rightarrow> bytes" where
  "opt_bytes x = (case x of None \<Rightarrow> [] | Some s \<Rightarrow> as_bytes s)"

definition dedup_key :: "interop_lib \<Rightarrow> totp_secret \<Rightarrow> totp_dedup_key" where
  "dedup_key I totp = \<lparr>issuer_h = il_sha256 I (opt_bytes (ts_issuer totp)),
     account_h = il_sha256 I (opt_bytes (ts_account_name totp)),
     secret_h = il_sha256 I (as_bytes (ts_secret_b32 totp))\<rparr>"

text \<open>The body of the loop for a line that is not too long.\<close>
definition parse_line ::
    "interop_lib \<Rightarrow> policy_context \<Rightarrow> rstring \<Rightarrow> list_state \<Rightarrow> import_error + list_state" where
  "parse_line I policy line st =
    (let uri = trim line in
     if uri = [] then Inr st
     else guard (str_len uri > MAX_OTP_AUTH_URI_LEN) ImpInvalidFormat
      (rbind (map_err (\<lambda>_. ImpInvalidFormat) (parse_totp_otpauth_uri (il_url I) policy uri)) (\<lambda>(title, totp).
       let agg = sat_add_usize (sat_add_usize (sat_add_usize (ls_agg_text_bytes st) (str_len title))
             (opt_len (ts_issuer totp))) (opt_len (ts_account_name totp)) in
       guard (agg > MAX_INTEROP_AGG_TEXT_BYTES) ImpPayloadTooLarge
       (rbind (map_err (\<lambda>_. ImpInvalidFormat) (canonicalize_base32_for_export (ts_secret_b32 totp)))
         (\<lambda>canonical_secret_b32.
       rbind (map_err (\<lambda>_. ImpInvalidFormat) (decode_base32_secret_strict (il_totp I) canonical_secret_b32)) (\<lambda>_.
       let totp' = totp\<lparr>ts_secret_b32 := canonical_secret_b32\<rparr>;
           key = dedup_key I totp' in
       if key \<in> set (ls_seen st) then Inr (st\<lparr>ls_agg_text_bytes := agg\<rparr>)
       else rbind (map_err (\<lambda>_. ImpInvalidData)
              (new_totp (il_new_v4 I (length (ls_entries st))) title totp' None)) (\<lambda>entry.
            Inr \<lparr>ls_entries = ls_entries st @ [entry], ls_seen = key # ls_seen st,
                 ls_agg_text_bytes = agg\<rparr>)))))))"

fun parse_lines ::
    "interop_lib \<Rightarrow> policy_context \<Rightarrow> nat \<Rightarrow> rstring list \<Rightarrow> list_state \<Rightarrow> import_error + list_state" where
  "parse_lines I policy idx [] st = Inr st"
| "parse_lines I policy idx (line # ls) st =
    guard (idx \<ge> MAX_INTEROP_ENTRIES) ImpPayloadTooLarge
    (guard (str_len line > MAX_INTEROP_LINE_LEN) ImpPayloadTooLarge
    (rbind (parse_line I policy line st) (parse_lines I policy (idx + 1) ls)))"

definition parse_otpauth_totp_list ::
    "interop_lib \<Rightarrow> policy_context \<Rightarrow> bytes \<Rightarrow> import_error + vault_payload" where
  "parse_otpauth_totp_list I policy input =
    rbind (ok_or ImpInvalidFormat (from_utf8 input)) (\<lambda>s.
    rbind (parse_lines I policy 0 (str_lines s)
        \<lparr>ls_entries = [], ls_seen = [], ls_agg_text_bytes = 0\<rparr>) (\<lambda>st.
      Inr \<lparr>vp_entries = ls_entries st\<rparr>))"

fun check_entries :: "vault_entry list \<Rightarrow> import_error + unit" where
  "check_entries [] = Inr ()"
| "check_entries (entry # es) =
    guard (entry_type_of entry \<noteq> Totp) ImpInvalidData
    (rbind (ok_or ImpInvalidData (es_totp (ve_secret entry))) (\<lambda>totp.
     rbind (map_err (\<lambda>_. ImpInvalidData) (totp_secret_validate totp)) (\<lambda>_.
     guard (es_secret (ve_secret entry) \<noteq> ts_secret_b32 totp) ImpInvalidData
       (check_entries es))))"

definition validate_payload_invariants :: "vault_payload \<Rightarrow> import_error + unit" where
  "validate_payload_invariants payload =
    guard (length (vp_entries payload) > MAX_INTEROP_ENTRIES) ImpPayloadTooLarge
      (check_entries (vp_entries payload))"

definition import_interop_quarantine ::
    "interop_lib \<Rightarrow> policy_context \<Rightarrow> import_intent \<Rightarrow> interop_format \<Rightarrow> bytes
      \<Rightarrow> import_error + quarantined_import" where
  "import_interop_quarantine I policy intent format input =
    guard (\<not> allow_plaintext_import policy) ImpPolicyDenied
    (case intent of UserConfirmed \<Rightarrow>
     guard (input = [] \<or> length input > MAX_INTEROP_IMPORT_BYTES) ImpPayloadTooLarge
     (rbind (case format of
               OtpAuthTotpUriList \<Rightarrow> parse_otpauth_totp_list I policy input
             | Other \<Rightarrow> Inl ImpInvalidFormat) (\<lambda>payload.
      rbind (validate_payload_invariants payload) (\<lambda>_.
        Inr \<lparr>qi_format = format, qi_payload = payload\<rparr>))))"

text \<open>The entry point of \<open>import/e2e_interop.rs\<close> for the parsing step alone.\<close>
definition interop_import_to_quarantine ::
    "interop_lib \<Rightarrow> policy_context \<Rightarrow> import_intent \<Rightarrow> interop_format \<Rightarrow> bytes
      \<Rightarrow> import_error + quarantined_import" where
  "interop_import_to_quarantine I policy intent format input = import_interop_quarantine I policy intent format input"

section \<open>Commit (import/interop.rs, core/import.rs, import/e2e_interop.rs)\<close>

definition commit_quarantined_import_into_payload ::
    "policy_context \<Rightarrow> quarantined_import \<Rightarrow> vault_payload \<Rightarrow> vault_payload \<times> (import_error + unit)" where
  "commit_quarantined_import_into_payload policy quarantined existing =
    (if \<not> allow_plaintext_import policy then (existing, Inl ImpPolicyDenied)
     else
       let incoming = vp_entries (qi_payload quarantined) in
       if sat_add_usize (length (vp_entries existing)) (length incoming) > MAX_INTEROP_ENTRIES
       then (existing, Inl ImpPayloadTooLarge)
       else (existing\<lparr>vp_entries := vp_entries existing @ incoming\<rparr>, Inr ()))"

definition commit_quarantine_import ::
    "json_lib \<Rightarrow> lock_manager \<Rightarrow> policy_context \<Rightarrow> quarantined_import
      \<Rightarrow> lock_manager \<times> (import_error + unit)" where
  "commit_quarantine_import J m policy quarantined =
    (case with_unlocked_payload_mut J m (commit_quarantined_import_into_payload policy quarantined) of
       (m', None) \<Rightarrow> (m', Inl ImpPolicyDenied)
     | (m', Some r) \<Rightarrow> (m', r))"

definition interop_import_and_commit_into_unlocked_vault ::
    "interop_lib \<Rightarrow> json_lib \<Rightarrow> policy_context \<Rightarrow> lock_manager \<Rightarrow> import_intent \<Rightarrow> interop_format \<Rightarrow> bytes
      \<Rightarrow> lock_manager \<times> (import_error + unit)" where
  "interop_import_and_commit_into_unlocked_vault I J policy m intent format input =
    (case import_interop_quarantine I policy intent format input of
       Inl e \<Rightarrow> (m, Inl e)
     | Inr quarantined \<Rightarrow> commit_quarantine_import J m policy quarantined)"

record interop_import_report =
  ir_format :: interop_format
  ir_imported_entries :: nat
  ir_total_entries_after_commit :: nat

definition interop_import_commit_report ::
    "interop_lib \<Rightarrow> json_lib \<Rightarrow> policy_context \<Rightarrow> lock_manager \<Rightarrow> import_intent \<Rightarrow> interop_format \<Rightarrow> bytes
      \<Rightarrow> lock_manager \<times> (import_error + interop_import_report)" where
  "interop_import_commit_report I J policy m intent format input =
    (case import_interop_quarantine I policy intent format input of
       Inl e \<Rightarrow> (m, Inl e)
     | Inr quarantined \<Rightarrow>
         (case commit_quarantine_import J m policy quarantined of
            (m', Inl e) \<Rightarrow> (m', Inl e)
          | (m', Inr _) \<Rightarrow>
              (m', rbind (ok_or ImpPolicyDenied (with_unlocked_payload J m' (\<lambda>p. length (vp_entries p))))
                (\<lambda>total. Inr \<lparr>ir_format = format,
                    ir_imported_entries = length (vp_entries (qi_payload quarantined)),
                    ir_total_entries_after_commit = total\<rparr>))))"

section \<open>Lemmas: the list parser\<close>

text \<open>The account a line stands for: its title and its parameters with the canonical secret.\<close>
definition line_totp :: "interop_lib \<Rightarrow> policy_context \<Rightarrow> rstring \<Rightarrow> (rstring \<times> totp_secret) option" where
  "line_totp I policy line =
    (if trim line = [] then None
     else case parse_totp_otpauth_uri (il_url I) policy (trim line) of
            Inl _ \<Rightarrow> None
          | Inr (title, t) \<Rightarrow>
              (case canonicalize_base32_for_export (ts_secret_b32 t) of
                 Inl _ \<Rightarrow> None
               | Inr c \<Rightarrow> Some (title, t\<lparr>ts_secret_b32 := c\<rparr>)))"

definition line_key :: "interop_lib \<Rightarrow> policy_context \<Rightarrow> rstring \<Rightarrow> totp_dedup_key option" where
  "line_key I policy line = map_option (\<lambda>(title, t). dedup_key I t) (line_totp I policy line)"

definition entry_key :: "interop_lib \<Rightarrow> vault_entry \<Rightarrow> totp_dedup_key option" where
  "entry_key I e = map_option (dedup_key I) (es_totp (ve_secret e))"

text \<open>An entry built from a line, its secret one that decodes.\<close>
definition built_from :: "interop_lib \<Rightarrow> policy_context \<Rightarrow> rstring \<Rightarrow> vault_entry \<Rightarrow> bool" where
  "built_from I policy line e \<longleftrightarrow> (\<exists>title t i. line_totp I policy line = Some (title, t) \<and>
     is_ok (decode_base32_secret_strict (il_totp I) (ts_secret_b32 t)) \<and> new_totp i title t None = Inr e)"

text \<open>The account of a secret, a missing text being the empty one, and the key as a function of it.\<close>
definition account_of :: "totp_secret \<Rightarrow> bytes \<times> bytes \<times> bytes" where
  "account_of t = (opt_bytes (ts_issuer t), opt_bytes (ts_account_name t), as_bytes (ts_secret_b32 t))"

definition line_account :: "interop_lib \<Rightarrow> policy_context \<Rightarrow> rstring \<Rightarrow> (bytes \<times> bytes \<times> bytes) option" where
  "line_account I policy line = map_option (\<lambda>(title, t). account_of t) (line_totp I policy line)"

definition entry_account :: "vault_entry \<Rightarrow> (bytes \<times> bytes \<times> bytes) option" where
  "entry_account e = map_option account_of (es_totp (ve_secret e))"

text \<open>The texts of a list that are hashed.\<close>
definition list_texts :: "interop_lib \<Rightarrow> policy_context \<Rightarrow> rstring list \<Rightarrow> bytes set" where
  "list_texts I policy ls =
    (\<Union>(issuer, account, secret)\<in>set (List.map_filter (line_account I policy) ls). {issuer, account, secret})"

definition account_digests :: "interop_lib \<Rightarrow> bytes \<times> bytes \<times> bytes \<Rightarrow> totp_dedup_key" where
  "account_digests I = (\<lambda>(issuer, account, secret). \<lparr>issuer_h = il_sha256 I issuer,
     account_h = il_sha256 I account, secret_h = il_sha256 I secret\<rparr>)"

lemma key_of_account: "dedup_key I t = account_digests I (account_of t)"
  by (simp add: dedup_key_def account_digests_def account_of_def)

lemma entry_key_account: "entry_key I e = map_option (account_digests I) (entry_account e)"
  by (cases "es_totp (ve_secret e)") (simp_all add: entry_key_def entry_account_def key_of_account)

lemma keys_of_accounts:
  "List.map_filter (line_key I policy) ls = map (account_digests I) (List.map_filter (line_account I policy) ls)"
  by (induction ls) (auto simp: List.map_filter_def line_key_def line_account_def key_of_account)

lemma account_texts:
  "(a, b, c) \<in> set (List.map_filter (line_account I policy) ls) \<Longrightarrow>
    a \<in> list_texts I policy ls \<and> b \<in> list_texts I policy ls \<and> c \<in> list_texts I policy ls"
  using UN_upper [of "(a, b, c)" "set (List.map_filter (line_account I policy) ls)" "\<lambda>(i, x, k). {i, x, k}"]
  by (simp add: list_texts_def)

lemma digests_inj:
  assumes "inj_on (il_sha256 I) (list_texts I policy ls)"
  shows "inj_on (account_digests I) (set (List.map_filter (line_account I policy) ls))"
proof (rule inj_onI)
  fix x y assume xy: "x \<in> set (List.map_filter (line_account I policy) ls)"
    "y \<in> set (List.map_filter (line_account I policy) ls)" "account_digests I x = account_digests I y"
  obtain a b c where x: "x = (a, b, c)" by (cases x)
  obtain a' b' c' where y: "y = (a', b', c')" by (cases y)
  note t = account_texts [OF xy(1) [unfolded x]] account_texts [OF xy(2) [unfolded y]]
  from xy(3) have "il_sha256 I a = il_sha256 I a'" "il_sha256 I b = il_sha256 I b'" "il_sha256 I c = il_sha256 I c'"
    by (simp_all add: account_digests_def x y)
  with t show "x = y" unfolding x y using inj_onD [OF assms] by blast
qed

lemma remdups_map_inj_on: "inj_on f (set xs) \<Longrightarrow> remdups (map f xs) = map f (remdups xs)"
  by (induction xs) (auto simp: inj_on_def)

lemma parse_line_cases:
  assumes "parse_line I policy line st = Inr st'"
  obtains "trim line = []" "line_key I policy line = None" "st' = st"
  | title t where "trim line \<noteq> []" "line_totp I policy line = Some (title, t)"
      "dedup_key I t \<in> set (ls_seen st)" "ls_entries st' = ls_entries st" "ls_seen st' = ls_seen st"
  | title t e where "trim line \<noteq> []" "line_totp I policy line = Some (title, t)"
      "is_ok (decode_base32_secret_strict (il_totp I) (ts_secret_b32 t))"
      "dedup_key I t \<notin> set (ls_seen st)" "new_totp (il_new_v4 I (length (ls_entries st))) title t None = Inr e"
      "ls_entries st' = ls_entries st @ [e]" "ls_seen st' = dedup_key I t # ls_seen st"
  using assms
  by (cases st) (auto simp: parse_line_def line_totp_def line_key_def Let_def rbind_pair_Inr_iff is_ok_iff split: if_splits)

lemma new_totp_totp: "new_totp i title t note = Inr e \<Longrightarrow> es_totp (ve_secret e) = Some t \<and> entry_id e = i"
  by (auto simp: new_totp_def Let_def)

lemma in_map_filter: "l \<in> set ls \<Longrightarrow> f l = Some a \<Longrightarrow> a \<in> set (List.map_filter f ls)"
  unfolding List.map_filter_def set_map by (rule image_eqI [of _ _ l]) simp_all

lemma built_account:
  "built_from I policy l e \<Longrightarrow> l \<in> set ls \<Longrightarrow> entry_account e \<in> Some ` set (List.map_filter (line_account I policy) ls)"
proof -
  assume b: "built_from I policy l e" and l: "l \<in> set ls"
  obtain title t i where "line_totp I policy l = Some (title, t)" "new_totp i title t None = Inr e"
    using b by (auto simp: built_from_def)
  then have "line_account I policy l = Some (account_of t)" "entry_account e = Some (account_of t)"
    using new_totp_totp by (simp_all add: line_account_def entry_account_def)
  moreover from in_map_filter [where f = "line_account I policy", OF l this(1)]
  have "account_of t \<in> set (List.map_filter (line_account I policy) ls)" .
  ultimately show ?thesis by simp
qed

text \<open>The loop, after the lines \<open>done\<close>: the keys seen are the distinct keys of these lines.\<close>

definition list_inv :: "interop_lib \<Rightarrow> policy_context \<Rightarrow> rstring list \<Rightarrow> list_state \<Rightarrow> bool" where
  "list_inv I policy ls st \<longleftrightarrow>
    ls_seen st = remdups (rev (List.map_filter (line_key I policy) ls)) \<and>
    map (entry_key I) (ls_entries st) = map Some (rev (ls_seen st)) \<and>
    map (\<lambda>e. entry_id e) (ls_entries st) = map (il_new_v4 I) [0 ..< length (ls_entries st)] \<and>
    (\<forall>e\<in>set (ls_entries st). \<exists>l\<in>set ls. built_from I policy l e) \<and>
    (\<forall>l\<in>set ls. trim l \<noteq> [] \<longrightarrow> line_totp I policy l \<noteq> None)"

lemma list_inv_step:
  assumes "list_inv I policy ls st" and "parse_line I policy line st = Inr st'"
  shows "list_inv I policy (ls @ [line]) st'"
  using assms(2)
proof (cases rule: parse_line_cases)
  case 1
  with assms(1) show ?thesis by (auto simp: list_inv_def List.map_filter_def)
next
  case (2 title t)
  then have "line_key I policy line = Some (dedup_key I t)" by (simp add: line_key_def)
  with 2 assms(1) show ?thesis by (auto simp: list_inv_def List.map_filter_def)
next
  case (3 title t e)
  then have k: "line_key I policy line = Some (dedup_key I t)" by (simp add: line_key_def)
  have "built_from I policy line e" using 3 by (auto simp: built_from_def)
  moreover have "entry_key I e = Some (dedup_key I t)" "entry_id e = il_new_v4 I (length (ls_entries st))"
    using new_totp_totp [OF 3(5)] by (simp_all add: entry_key_def)
  ultimately show ?thesis
    using 3 k assms(1) by (auto simp: list_inv_def List.map_filter_def)
qed

lemma parse_lines_inv:
  "list_inv I policy seen_lines st \<Longrightarrow> parse_lines I policy (length seen_lines) ls st = Inr st' \<Longrightarrow>
    list_inv I policy (seen_lines @ ls) st' \<and>
    (ls \<noteq> [] \<longrightarrow> length seen_lines + length ls \<le> MAX_INTEROP_ENTRIES)"
proof (induction ls arbitrary: seen_lines st)
  case (Cons l ls)
  from Cons.prems(2) obtain st1 where s: "parse_line I policy l st = Inr st1"
    and r: "parse_lines I policy (length (seen_lines @ [l])) ls st1 = Inr st'"
    and n: "length seen_lines < MAX_INTEROP_ENTRIES"
    by (auto split: if_splits)
  from Cons.IH [OF list_inv_step [OF Cons.prems(1) s] r] n show ?case by (cases ls) auto
qed simp

lemma check_entries_ok:
  "is_ok (check_entries es) \<longleftrightarrow> (\<forall>e\<in>set es. entry_type_of e = Totp \<and>
     (\<exists>t. es_totp (ve_secret e) = Some t \<and> totp_params_ok t \<and> es_secret (ve_secret e) = ts_secret_b32 t))"
proof (induction es)
  case (Cons e es)
  then show ?case by (cases "es_totp (ve_secret e)") auto
qed simp

text \<open>Everything a successful import has established.\<close>

lemma quarantine_accepts:
  assumes "import_interop_quarantine I policy intent format input = Inr q"
  obtains s where "from_utf8 input = Some s" "length input \<le> MAX_INTEROP_IMPORT_BYTES"
    "allow_plaintext_import policy" "qi_format q = OtpAuthTotpUriList"
    "list_inv I policy (str_lines s) \<lparr>ls_entries = vp_entries (qi_payload q),
       ls_seen = remdups (rev (List.map_filter (line_key I policy) (str_lines s))), ls_agg_text_bytes = 0\<rparr>"
    "is_ok (check_entries (vp_entries (qi_payload q)))" "length (vp_entries (qi_payload q)) \<le> MAX_INTEROP_ENTRIES"
proof -
  from assms obtain s st where s: "from_utf8 input = Some s"
    and p: "parse_lines I policy 0 (str_lines s) \<lparr>ls_entries = [], ls_seen = [], ls_agg_text_bytes = 0\<rparr> = Inr st"
    and q: "qi_payload q = \<lparr>vp_entries = ls_entries st\<rparr>" "qi_format q = OtpAuthTotpUriList"
    and c: "is_ok (validate_payload_invariants (qi_payload q))" "allow_plaintext_import policy"
      "length input \<le> MAX_INTEROP_IMPORT_BYTES"
    by (auto simp: import_interop_quarantine_def parse_otpauth_totp_list_def is_ok_iff
        split: import_intent.splits interop_format.splits if_splits)
  have "list_inv I policy [] \<lparr>ls_entries = [], ls_seen = [], ls_agg_text_bytes = 0\<rparr>"
    by (simp add: list_inv_def List.map_filter_def)
  from parse_lines_inv [OF this, of "str_lines s" st] p
  have "list_inv I policy (str_lines s) st" by simp
  then have "list_inv I policy (str_lines s) \<lparr>ls_entries = ls_entries st,
       ls_seen = remdups (rev (List.map_filter (line_key I policy) (str_lines s))), ls_agg_text_bytes = 0\<rparr>"
    by (auto simp: list_inv_def)
  with that s q c show thesis by (auto simp: validate_payload_invariants_def split: if_splits)
qed

section \<open>Lemmas: the commit\<close>

text \<open>The commit is an append on the payload behind the session.\<close>

lemma commit_quarantine_eq:
  assumes "get_payload J m = Some p" and "storable J p" and "allow_plaintext_import policy"
    and "storable J (p\<lparr>vp_entries := vp_entries p @ vp_entries (qi_payload q)\<rparr>)"
  shows "\<exists>m'. if length (vp_entries p) + length (vp_entries (qi_payload q)) > MAX_INTEROP_ENTRIES
    then commit_quarantine_import J m policy q = (m', Inl ImpPayloadTooLarge) \<and> get_payload J m' = Some p
    else commit_quarantine_import J m policy q = (m', Inr ()) \<and>
      get_payload J m' = Some (p\<lparr>vp_entries := vp_entries p @ vp_entries (qi_payload q)\<rparr>)"
proof -
  let ?n = "length (vp_entries p) + length (vp_entries (qi_payload q)) > MAX_INTEROP_ENTRIES"
  let ?p = "p\<lparr>vp_entries := vp_entries p @ vp_entries (qi_payload q)\<rparr>"
  have c: "commit_quarantined_import_into_payload policy q p =
      (if ?n then (p, Inl ImpPayloadTooLarge) else (?p, Inr ()))"
    using assms(3) by (auto simp: commit_quarantined_import_into_payload_def sat_add_usize_def limits
         Let_def)
  show ?thesis
  proof (cases ?n)
    case True
    with c manager_modify_open [OF assms(1) _ assms(2)] show ?thesis
      by (fastforce simp: commit_quarantine_import_def)
  next
    case False
    with c manager_modify_open [OF assms(1) _ assms(4)] show ?thesis
      by (fastforce simp: commit_quarantine_import_def)
  qed
qed

lemma with_unlocked_payload_get: "with_unlocked_payload J m f = map_option f (get_payload J m)"
  by (auto simp: payload_access split: vault_state.splits)

section \<open>A concrete list\<close>

definition one_line :: rstring where "one_line = export_uri std_url (lit ''Work'') uri_totp"

definition demo_interop :: interop_lib where
  "demo_interop = \<lparr>il_url = std_url, il_totp = toy_totp, il_sha256 = (\<lambda>b. b), il_new_v4 = (\<lambda>i. of_nat i + 40)\<rparr>"

lemma uri_chars:
  assumes "c \<in> set one_line"
  shows "is_ascii_alphanumeric c \<or> c \<in> {37, 38, 47, 58, 61, 63}"
proof -
  have "c = 38 \<or> c \<in> \<Union> (set ` set xs)" if "c \<in> set (join_with 38 xs)" for xs
    using that by (induction "38 :: nat" xs rule: join_with.induct) auto
  then have "c \<in> {38, 61} \<union> {c. c = 37 \<or> is_ascii_alphanumeric c}" if "c \<in> set (query_string std_url q)" for q
    using that pct_encode_chars by (fastforce simp: query_string_def std_url_def)
  moreover have "c \<in> set (lit ''otpauth://totp/'') \<Longrightarrow> is_ascii_alphanumeric c \<or> c \<in> {47, 58}"
    by (auto simp: lit_def is_ascii_alphanumeric_def is_digit_def)
  ultimately show ?thesis
    using assms pct_encode_chars by (fastforce simp: one_line_def export_uri_def std_url_def)
qed

lemma one_line_ok: "scalars one_line" "trim one_line = one_line" "str_lines one_line = [one_line]" "one_line \<noteq> []"
proof -
  have c: "is_scalar c \<and> \<not> is_whitespace c" if "c \<in> set one_line" for c
    using uri_chars [OF that] by (auto simp: is_scalar_def is_whitespace_def is_ascii_alphanumeric_def is_digit_def)
  show n: "one_line \<noteq> []" by (simp add: one_line_def export_uri_def lit_def)
  show "scalars one_line" using c by (simp add: list_all_iff)
  show "trim one_line = one_line" using c n by (intro trim_id) simp
  have "lines_from acc s = [rev acc @ s]" if "\<forall>c\<in>set s. c \<noteq> 10" "acc @ s \<noteq> []" for acc s
    using that by (induction s arbitrary: acc) auto
  moreover have "\<forall>c\<in>set one_line. c \<noteq> 10" using c [of 10] by (auto simp: is_whitespace_def)
  ultimately show "str_lines one_line = [one_line]" using n by (simp add: str_lines_def)
qed

lemma demo_line:
  obtains e where "new_totp 40 (lit ''Acme'') uri_back None = Inr e"
    "parse_line demo_interop full_access one_line \<lparr>ls_entries = [], ls_seen = [], ls_agg_text_bytes = 0\<rparr> =
      Inr \<lparr>ls_entries = [e], ls_seen = [dedup_key demo_interop uri_back], ls_agg_text_bytes = 11\<rparr>"
proof -
  obtain e where e: "new_totp 40 (lit ''Acme'') uri_back None = Inr e"
    using uri_back_entry [of 40] by (auto simp: is_ok_iff)
  have d: "decode_base32_secret_strict toy_totp (replicate 26 65) = Inr (replicate 16 1)"
    using toy_decode by (simp only: toy_secret_def totp_secret.select_convs)
  have b: "bare_secret uri_back = replicate 26 65"
    by (simp only: bare_secret_def uri_back_ok(2)) (rule trim_end_with_id, simp)
  then have c: "canonicalize_base32_for_export (ts_secret_b32 uri_back) = Inr (replicate 26 65)"
    using canonicalize_b32 [OF uri_back_ok(1)] by simp
  have u: "uri_back\<lparr>ts_secret_b32 := replicate 26 65\<rparr> = uri_back"
    using uri_back_ok(2) by (cases uri_back) simp
  have n: "ts_issuer uri_back = Some (lit ''Acme'')" "ts_account_name uri_back = Some (lit ''bob'')"
    by (simp_all add: uri_back_def reimported_def uri_totp_def)
  have "str_len (lit ''Acme'') = 4" "str_len (lit ''bob'') = 3" by (simp_all add: lit_def char_len_def)
  moreover have "parse_totp_otpauth_uri std_url full_access one_line = Inr (lit ''Acme'', uri_back)"
    using uri_parses by (simp add: one_line_def)
  ultimately have "parse_line demo_interop full_access one_line \<lparr>ls_entries = [], ls_seen = [], ls_agg_text_bytes = 0\<rparr> =
      Inr \<lparr>ls_entries = [e], ls_seen = [dedup_key demo_interop uri_back], ls_agg_text_bytes = 11\<rparr>"
    using one_line_ok uri_len(1) c d u n e
    by (simp add: parse_line_def demo_interop_def opt_len_def sat_add_usize_def limits
          one_line_def [symmetric])
  with e show thesis by (rule that)
qed

lemma demo_quarantine:
  obtains e where "import_interop_quarantine demo_interop full_access UserConfirmed OtpAuthTotpUriList
      (as_bytes one_line) = Inr \<lparr>qi_format = OtpAuthTotpUriList, qi_payload = \<lparr>vp_entries = [e]\<rparr>\<rparr>"
    "entry_ok e" "entry_id e = 40"
proof -
  obtain e where e: "new_totp 40 (lit ''Acme'') uri_back None = Inr e"
    and l: "parse_line demo_interop full_access one_line \<lparr>ls_entries = [], ls_seen = [], ls_agg_text_bytes = 0\<rparr> =
      Inr \<lparr>ls_entries = [e], ls_seen = [dedup_key demo_interop uri_back], ls_agg_text_bytes = 11\<rparr>"
    by (rule demo_line)
  have v: "is_ok (check_entries [e])" "entry_ok e" "entry_id e = 40"
    using e uri_back_ok by (auto simp: check_entries_ok new_totp_def Let_def unit_result simp del: check_entries.simps)
  have n: "length (as_bytes one_line) \<le> 4096"
    using uri_len(1) by (simp only: length_as_bytes one_line_def)
  have ne: "as_bytes one_line \<noteq> []"
    using one_line_ok(4) length_as_bytes [of one_line] by (metis length_0_conv str_len_0_iff)
  have "parse_otpauth_totp_list demo_interop full_access (as_bytes one_line) = Inr \<lparr>vp_entries = [e]\<rparr>"
    using l n length_as_bytes [of one_line] one_line_ok
    by (simp add: parse_otpauth_totp_list_def from_utf8_as_bytes limits)
  then show thesis
    using n ne v that [of e]
    by (auto simp: import_interop_quarantine_def limits trusted_posture_def
        validate_payload_invariants_def unit_result [symmetric] simp del: check_entries.simps)
qed

text \<open>Without collisions the digests are as good as the accounts.\<close>

lemma list_inv_accounts:
  assumes "list_inv I policy ls st" and "inj_on (il_sha256 I) (list_texts I policy ls)"
  shows "map entry_account (ls_entries st) = map Some (rev (remdups (rev (List.map_filter (line_account I policy) ls))))"
proof -
  let ?h = "account_digests I" and ?as = "List.map_filter (line_account I policy) ls"
  have inj: "inj_on ?h (set ?as)" by (rule digests_inj [OF assms(2)])
  have "List.map_filter (line_key I policy) ls = map ?h ?as" by (rule keys_of_accounts)
  then have "map (entry_key I) (ls_entries st) = map Some (rev (remdups (rev (map ?h ?as))))"
    using assms(1) by (simp add: list_inv_def)
  also have "\<dots> = map Some (map ?h (rev (remdups (rev ?as))))"
    using remdups_map_inj_on [of ?h "rev ?as"] inj by (simp add: rev_map)
  also have "\<dots> = map (map_option ?h) (map Some (rev (remdups (rev ?as))))" by simp
  finally have "map (entry_key I) (ls_entries st) = map (map_option ?h) (map Some (rev (remdups (rev ?as))))" .
  moreover have "map (entry_key I) (ls_entries st) = map (map_option ?h) (map entry_account (ls_entries st))"
    by (simp add: entry_key_account)
  ultimately have "map (map_option ?h) (map entry_account (ls_entries st)) =
      map (map_option ?h) (map Some (rev (remdups (rev ?as))))" by simp
  moreover have "set (map entry_account (ls_entries st)) \<subseteq> Some ` set ?as"
    using assms(1) by (fastforce simp: list_inv_def dest: built_account)
  moreover have "inj_on (map_option ?h) (Some ` set ?as)" using inj by (auto simp: inj_on_def)
  ultimately show ?thesis
    by (intro map_inj_on [of "map_option ?h"]) (auto elim!: inj_on_subset)
qed

section \<open>Properties\<close>

text \<open>C31. What leaves the quarantine is well formed: after a successful import the session was allowed to
  import, the input was UTF-8 within the size limit, there are at most 100000 entries, and each is a
  TOTP entry in range with displayable texts and no note, built from a line of the input under the
  identifier drawn for it, its secret mirrored and one that decodes.\<close>

theorem quarantine_sound:
  assumes "import_interop_quarantine I policy intent format input = Inr q"
  shows "\<exists>s. from_utf8 input = Some s \<and> allow_plaintext_import policy \<and> length input \<le> 16 * 1024 * 1024 \<and>
    length (vp_entries (qi_payload q)) \<le> 100000 \<and>
    map (\<lambda>e. entry_id e) (vp_entries (qi_payload q)) =
      map (il_new_v4 I) [0 ..< length (vp_entries (qi_payload q))] \<and>
    (\<forall>e\<in>set (vp_entries (qi_payload q)). entry_ok e \<and> text_ok e \<and> entry_type_of e = Totp \<and>
       es_note (ve_secret e) = None \<and> (\<exists>l\<in>set (str_lines s). built_from I policy l e))"
proof -
  obtain s where s: "from_utf8 input = Some s" "length input \<le> MAX_INTEROP_IMPORT_BYTES"
    "allow_plaintext_import policy"
    and inv: "list_inv I policy (str_lines s) \<lparr>ls_entries = vp_entries (qi_payload q),
       ls_seen = remdups (rev (List.map_filter (line_key I policy) (str_lines s))), ls_agg_text_bytes = 0\<rparr>"
    and n: "length (vp_entries (qi_payload q)) \<le> MAX_INTEROP_ENTRIES"
    by (rule quarantine_accepts [OF assms])
  have "entry_ok e \<and> text_ok e \<and> entry_type_of e = Totp \<and> es_note (ve_secret e) = None"
    if "built_from I policy l e" for l e
    using that by (auto simp: built_from_def new_totp_def text_ok_def Let_def unit_result)
  with s inv n show ?thesis
    by (fastforce simp: list_inv_def limits)
qed

theorem quarantine_sound_witness:
  "\<exists>q e. import_interop_quarantine demo_interop full_access UserConfirmed OtpAuthTotpUriList (as_bytes one_line)
      = Inr q \<and> vp_entries (qi_payload q) = [e] \<and> entry_ok e \<and> text_ok e \<and> entry_id e = 40"
proof -
  obtain e where q: "import_interop_quarantine demo_interop full_access UserConfirmed OtpAuthTotpUriList
      (as_bytes one_line) = Inr \<lparr>qi_format = OtpAuthTotpUriList, qi_payload = \<lparr>vp_entries = [e]\<rparr>\<rparr>"
    "entry_id e = 40" by (rule demo_quarantine)
  from quarantine_sound [OF q(1)] q show ?thesis by auto
qed

text \<open>C29. The quarantine keeps one entry per account and loses none, as long as no two different texts of the
  list have the same SHA-256 digest. The account of a line is its issuer, its account name (a missing one is
  as good as an empty one) and its canonical secret. After a successful import the accounts of the entries
  are the accounts of the lines in order, each at its first occurrence: no two entries have the same
  account, and every line that is not blank parsed and has its account among the entries. One line that does
  not parse rejects the whole list.\<close>

theorem quarantine_dedup_exact:
  assumes "import_interop_quarantine I policy intent format input = Inr q" and "from_utf8 input = Some s"
    and "inj_on (il_sha256 I) (list_texts I policy (str_lines s))"
  shows "map entry_account (vp_entries (qi_payload q)) =
      map Some (rev (remdups (rev (List.map_filter (line_account I policy) (str_lines s))))) \<and>
    distinct (map entry_account (vp_entries (qi_payload q))) \<and>
    (\<forall>l\<in>set (str_lines s). trim l \<noteq> [] \<longrightarrow>
       (\<exists>e\<in>set (vp_entries (qi_payload q)). line_account I policy l = entry_account e \<and> entry_account e \<noteq> None))"
proof -
  let ?es = "vp_entries (qi_payload q)"
  let ?as = "List.map_filter (line_account I policy) (str_lines s)"
  from quarantine_accepts [OF assms(1)] assms(2)
  have inv: "list_inv I policy (str_lines s) \<lparr>ls_entries = ?es,
      ls_seen = remdups (rev (List.map_filter (line_key I policy) (str_lines s))), ls_agg_text_bytes = 0\<rparr>" by auto
  from list_inv_accounts [OF inv assms(3)] have k: "map entry_account ?es = map Some (rev (remdups (rev ?as)))" by simp
  have c: "\<exists>e\<in>set ?es. line_account I policy l = entry_account e \<and> entry_account e \<noteq> None"
    if l: "l \<in> set (str_lines s)" "trim l \<noteq> []" for l
  proof -
    have "line_totp I policy l \<noteq> None" using inv l by (simp add: list_inv_def)
    then obtain a where a: "line_account I policy l = Some a" by (cases "line_account I policy l") (auto simp: line_account_def)
    then have "a \<in> set ?as" by (rule in_map_filter [where f = "line_account I policy", OF l(1)])
    then have "Some a \<in> set (map entry_account ?es)" unfolding k by simp
    then obtain e where e: "e \<in> set ?es" "entry_account e = Some a" unfolding set_map by (elim imageE) simp
    show ?thesis by (rule bexI [OF _ e(1)]) (simp add: a e(2))
  qed
  have d: "distinct (map entry_account ?es)" unfolding k by (simp add: distinct_map)
  show ?thesis by (intro conjI k d ballI impI c)
qed

theorem quarantine_dedup_exact_witness:
  "\<exists>q e. import_interop_quarantine demo_interop full_access UserConfirmed OtpAuthTotpUriList (as_bytes one_line)
      = Inr q \<and> vp_entries (qi_payload q) = [e] \<and> line_account demo_interop full_access one_line = entry_account e"
proof -
  obtain e where q: "import_interop_quarantine demo_interop full_access UserConfirmed OtpAuthTotpUriList
      (as_bytes one_line) = Inr \<lparr>qi_format = OtpAuthTotpUriList, qi_payload = \<lparr>vp_entries = [e]\<rparr>\<rparr>"
    by (rule demo_quarantine)
  have "inj_on (il_sha256 demo_interop) X" for X by (simp add: demo_interop_def)
  from quarantine_dedup_exact [OF q from_utf8_as_bytes [OF one_line_ok(1)] this] q one_line_ok show ?thesis
    by auto
qed

text \<open>C30. An interop import is an append and nothing else: a list that does not pass the quarantine leaves the
  manager as it was; one that does is appended to the payload of the open session unless the vault
  would exceed 100000 entries, and the report gives the number of imported entries and the size of
  the vault afterwards.\<close>

theorem interop_import_exactly:
  assumes "get_payload J m = Some p" and "storable J p"
    and "\<And>q. import_interop_quarantine I policy intent format input = Inr q \<Longrightarrow>
      storable J (p\<lparr>vp_entries := vp_entries p @ vp_entries (qi_payload q)\<rparr>)"
  shows "\<exists>m' r. interop_import_commit_report I J policy m intent format input = (m', r) \<and>
    (case import_interop_quarantine I policy intent format input of
       Inl e \<Rightarrow> r = Inl e \<and> m' = m
     | Inr q \<Rightarrow>
        (let n = length (vp_entries (qi_payload q)) in
         if length (vp_entries p) + n > 100000
         then r = Inl ImpPayloadTooLarge \<and> get_payload J m' = Some p
         else r = Inr \<lparr>ir_format = format, ir_imported_entries = n,
                 ir_total_entries_after_commit = length (vp_entries p) + n\<rparr> \<and>
              get_payload J m' = Some (p\<lparr>vp_entries := vp_entries p @ vp_entries (qi_payload q)\<rparr>)))"
proof (cases "import_interop_quarantine I policy intent format input")
  case (Inr q)
  then have a: "allow_plaintext_import policy" by (blast elim: quarantine_accepts)
  from commit_quarantine_eq [OF assms(1,2) a assms(3) [OF Inr]] obtain m' where
    "if length (vp_entries p) + length (vp_entries (qi_payload q)) > MAX_INTEROP_ENTRIES
    then commit_quarantine_import J m policy q = (m', Inl ImpPayloadTooLarge) \<and> get_payload J m' = Some p
    else commit_quarantine_import J m policy q = (m', Inr ()) \<and>
      get_payload J m' = Some (p\<lparr>vp_entries := vp_entries p @ vp_entries (qi_payload q)\<rparr>)" ..
  with Inr show ?thesis
    by (auto simp: interop_import_commit_report_def with_unlocked_payload_get MAX_INTEROP_ENTRIES_def Let_def
        split: if_splits)
qed (simp add: interop_import_commit_report_def)

theorem interop_import_exactly_witness:
  "\<exists>J m'. interop_import_commit_report demo_interop J full_access (unlocked_with [1]) UserConfirmed
      OtpAuthTotpUriList (as_bytes one_line) = (m', Inr \<lparr>ir_format = OtpAuthTotpUriList, ir_imported_entries = 1,
        ir_total_entries_after_commit = 2\<rparr>)"
proof -
  obtain e where q: "import_interop_quarantine demo_interop full_access UserConfirmed OtpAuthTotpUriList
      (as_bytes one_line) = Inr \<lparr>qi_format = OtpAuthTotpUriList, qi_payload = \<lparr>vp_entries = [e]\<rparr>\<rparr>" "entry_ok e"
    by (rule demo_quarantine)
  let ?p = "demo_payload\<lparr>vp_entries := vp_entries demo_payload @ [e]\<rparr>"
  let ?J = "two_payloads demo_payload ?p"
  have n: "length (vp_entries demo_payload) = 1" by (simp add: demo_payload_def)
  have "payload_ok ?p" using q(2) demo_payload_ok(1) by (auto simp: payload_ok_def)
  then have "storable ?J demo_payload" "storable ?J ?p"
    using two_payloads_ok [of demo_payload ?p] by (simp_all add: storable_def)
  from interop_import_exactly [OF unlocked_with_payload [of demo_payload ?p] this(1), of demo_interop full_access
      UserConfirmed OtpAuthTotpUriList "as_bytes one_line"] this(2)
  show ?thesis using q n by (intro exI [of _ ?J]) auto
qed

end
