(* ===== verification/Signed_Import.thy ===== *)
theory Signed_Import
  imports Interop Backup Vault_Life
begin

text \<open>
  \<open>import/signed.rs\<close> and \<open>import/e2e_signed.rs\<close>: a vault container taken from a signed
  backup, and the flow that unlocks the manager with it. The gate of \<open>core/auth_gate.rs\<close>
  guards the last step of the flow only.
\<close>

section \<open>The flow\<close>

fun map_vault_parse :: "vault_parse_error \<Rightarrow> import_error" where
  "map_vault_parse AuthFailed = ImpAuthFailed"
| "map_vault_parse PayloadTooLarge = ImpPayloadTooLarge"
| "map_vault_parse UnsupportedVersion = ImpInvalidFormat"
| "map_vault_parse _ = ImpInvalidFormat"

definition import_vipervault_from_signed_backup ::
    "backup_lib \<Rightarrow> json_lib \<Rightarrow> crypto_lib \<Rightarrow> runtime_inspection_state \<Rightarrow> policy_context \<Rightarrow> master_password
      \<Rightarrow> bytes \<Rightarrow> import_error + parsed_vault_file" where
  "import_vipervault_from_signed_backup K J C probe policy password signed_backup_bytes =
    guard (is_decoy policy) ImpPolicyDenied
    (rbind (map_err (\<lambda>_. ImpAuthFailed) (decode_signed_backup K C policy password signed_backup_bytes))
      (\<lambda>vault_bytes.
     rbind (map_err map_vault_parse
         (decode_vault_file J probe vault_bytes None MAX_VAULT_CONTAINER_PAYLOAD_LEN False)) (\<lambda>parsed.
       guard (pv_mode parsed = PlaintextJson) ImpInvalidFormat (Inr parsed))))"

text \<open>
  Run at the time \<open>now\<close> with the random word \<open>r\<close>: the manager and the gate afterwards, the
  time slept and the result; \<open>None\<close> is the panic of the jitter draw.
\<close>

definition import_signed_vault_and_unlock ::
    "backup_lib \<Rightarrow> json_lib \<Rightarrow> crypto_lib \<Rightarrow> runtime_inspection_state \<Rightarrow> instant \<Rightarrow> u64
      \<Rightarrow> policy_context \<Rightarrow> auth_gate \<Rightarrow> lock_manager \<Rightarrow> master_password \<Rightarrow> bytes \<Rightarrow> duration
      \<Rightarrow> (lock_manager \<times> auth_gate \<times> duration \<times> (import_error + unit)) option" where
  "import_signed_vault_and_unlock K J C probe now r policy gate m password signed_backup_bytes timeout =
    (if \<not> allow_signed_backup_transfer policy then Some (m, gate, 0, Inl ImpPolicyDenied)
     else
       (case import_vipervault_from_signed_backup K J C probe policy password signed_backup_bytes of
          Inl e \<Rightarrow> Some (m, gate, 0, Inl e)
        | Inr parsed \<Rightarrow>
            (case unlock_plaintext_json_gated J C gate now r parsed password of
               None \<Rightarrow> None
             | Some (Inl _, gate', slept) \<Rightarrow> Some (m, gate', slept, Inl ImpAuthFailed)
             | Some (Inr (_, plaintext_json), gate', slept) \<Rightarrow>
                 Some (unlock_with_plaintext_json probe m plaintext_json timeout, gate', slept, Inr ()))))"

section \<open>Lemmas\<close>

lemma signed_import_reads:
  assumes "allow_signed_backup_transfer policy"
    and "decode_signed_backup K C policy pw backup = Inr file"
    and "decode_vault_file J probe file None MAX_VAULT_CONTAINER_PAYLOAD_LEN False = Inr parsed"
  shows "import_vipervault_from_signed_backup K J C probe policy pw backup = Inr parsed"
proof -
  have "pv_mode parsed \<noteq> PlaintextJson" using assms(3) by (auto simp: decode_vault_file_iff acceptable_def)
  moreover have "\<not> is_decoy policy" using assms(1) by (auto simp: trusted_posture_def is_decoy_def)
  ultimately show ?thesis using assms(2,3) by (simp add: import_vipervault_from_signed_backup_def)
qed

text \<open>A successful unlock under the gate draws no delay and keeps the result.\<close>

lemma gated_success:
  "unlock_vault_to_plaintext_json_with_outcome J C parsed pw = Inr (outcome, pj) \<Longrightarrow>
    unlock_plaintext_json_gated J C g now r parsed pw =
      Some (Inr (outcome, pj), if outcome = Primary then auth_gate_reset g else g, 0)"
  by (simp add: unlock_plaintext_json_gated_def auth_gate_run_def)

lemma signed_import_opens:
  assumes "allow_signed_backup_transfer policy"
    and "decode_signed_backup K C policy pw backup = Inr file"
    and "decode_vault_file J probe file None MAX_VAULT_CONTAINER_PAYLOAD_LEN False = Inr parsed"
    and "unlock_vault_to_plaintext_json_with_outcome J C parsed pw = Inr (outcome, pj)"
  shows "import_signed_vault_and_unlock K J C probe now r policy g m pw backup timeout =
    Some (unlock_with_plaintext_json_with_context m pj timeout Strong Primary probe,
      if outcome = Primary then auth_gate_reset g else g, 0, Inr ())"
  using assms(1) signed_import_reads [OF assms(1-3)] gated_success [OF assms(4)]
  by (simp add: import_signed_vault_and_unlock_def unlock_with_plaintext_json_def)

text \<open>Attempts to import one backup with a list of passwords.\<close>

fun signed_attempts ::
    "backup_lib \<Rightarrow> json_lib \<Rightarrow> crypto_lib \<Rightarrow> runtime_inspection_state \<Rightarrow> policy_context \<Rightarrow> auth_gate
      \<Rightarrow> lock_manager \<Rightarrow> bytes \<Rightarrow> duration \<Rightarrow> (instant \<times> u64 \<times> master_password) list
      \<Rightarrow> ((import_error + unit) list \<times> duration list \<times> auth_gate \<times> lock_manager) option" where
  "signed_attempts K J C probe policy g m backup timeout [] = Some ([], [], g, m)"
| "signed_attempts K J C probe policy g m backup timeout ((now, r, pw) # as) =
    (case import_signed_vault_and_unlock K J C probe now r policy g m pw backup timeout of
       None \<Rightarrow> None
     | Some (m', g', slept, res) \<Rightarrow>
         map_option (\<lambda>(rs, ds, g'', m''). (res # rs, slept # ds, g'', m''))
           (signed_attempts K J C probe policy g' m' backup timeout as))"

lemma gated_keeps_policy:
  "unlock_plaintext_json_gated J C g now r parsed pw = Some (res, g', d) \<Longrightarrow> gate_policy g' = gate_policy g"
  by (auto simp: unlock_plaintext_json_gated_def auth_gate_run_def auth_gate_reset_def Let_def
      split: sum.splits if_splits prod.splits option.splits)

lemma signed_import_total:
  assumes "jitter_safe (gate_policy g)"
  shows "\<exists>m' g' d res. import_signed_vault_and_unlock K J C probe now r policy g m pw backup timeout =
    Some (m', g', d, res) \<and> gate_policy g' = gate_policy g"
proof (cases "allow_signed_backup_transfer policy \<and>
    is_ok (import_vipervault_from_signed_backup K J C probe policy pw backup)")
  case True
  then obtain parsed where p: "import_vipervault_from_signed_backup K J C probe policy pw backup = Inr parsed"
    by (auto simp: is_ok_iff)
  obtain res g' d where u: "unlock_plaintext_json_gated J C g now r parsed pw = Some (res, g', d)"
    using gated_total [OF assms] by blast
  with gated_keeps_policy [OF u] p True show ?thesis
    by (cases res) (auto simp: import_signed_vault_and_unlock_def)
qed (auto simp: import_signed_vault_and_unlock_def split: sum.splits)

section \<open>Properties\<close>

text \<open>C23. A vault travels through a signed backup and opens at the other end: the container of a vault made
  by \<open>create_encrypted_vault\<close>, signed under its password, imports under that password into a
  session whose payload is the one the vault was made from, with no delay and the throttle reset.\<close>

theorem signed_import_restores:
  assumes "create_encrypted_vault J C rnd new_id pw p schema kdf = Inr vf"
    and "encode_vault_storage J probe (vf_header vf) (vf_storage vf) fv = Inr file"
    and "length file \<le> 16 * 1024 * 1024"
    and "aead_correct C" and "header_json_ok J (vf_header vf)"
    and "payload_json_ok J (map entry_to_dto (vp_entries p))" and "payload_ok p"
    and "encode_signed_backup K C rnd' policy pw file bkdf = Inr backup" and "backup_lib_correct K"
    and "length backup \<le> USIZE_MAX" and "allow_signed_backup_transfer policy'"
  shows "\<exists>m'. import_signed_vault_and_unlock K J C probe' now r policy' g m pw backup timeout =
      Some (m', auth_gate_reset g, 0, Inr ()) \<and> get_payload J m' = Some p"
proof -
  obtain hb pt ct where c: "vh_duress (vf_header vf) = None" "vf_storage vf = SEncrypted ct"
    "json_of_header J (vf_header vf) = Some hb" "payload_to_vec J p = Some pt"
    and e: "encrypt_with_crypto_header C hb (vh_crypto (vf_header vf)) pt pw = Inr ct"
    by (rule create_encrypted_ok [OF assms(1)])
  let ?parsed = "\<lparr>pv_format_version = fv, pv_header = vf_header vf, pv_header_bytes = hb,
    pv_mode = Encrypted, pv_payload = ct\<rparr>"
  have d: "decode_vault_file J probe' file None MAX_VAULT_CONTAINER_PAYLOAD_LEN False = Inr ?parsed"
    by (rule decode_any_version, rule decode_created [OF _ assms(3,5) c(3)]) (use assms(2) c(2) in simp)
  have u: "unlock_vault_to_plaintext_json_with_outcome J C ?parsed pw = Inr (Primary, pt)"
    using c decrypt_encrypt_branch [OF assms(4) e] by (intro legacy_unlock_decrypt) simp_all
  note signed_import_opens [OF assms(11) restored_backup [OF assms(8-11)] d u]
  moreover have "payload_from_slice J pt = Some p"
    using payload_from_to_vec [OF assms(6) c(4)] assms(7) by simp
  ultimately show ?thesis
    by (auto simp: get_payload_def unlock_state open_session_def decode_payload_from_plaintext_json_def)
qed

theorem signed_import_restores_witness:
  "\<exists>backup m'. import_signed_vault_and_unlock toy_backup (demo_json demo_header) toy_cipher NotDebugged 0 0 trusted_policy
      (auth_gate_new default_throttle_policy) manager_new (lit ''pw'') backup 60
      = Some (m', auth_gate_reset (auth_gate_new default_throttle_policy), 0, Inr ()) \<and>
    get_payload (demo_json demo_header) m' = Some demo_payload"
proof -
  obtain fl where enc: "encode_vault_storage (demo_json demo_header) NotDebugged
      (vf_header demo_vault) (vf_storage demo_vault) 1 = Inr fl" and l: "length fl \<le> 1000"
    by (simp add: demo_encode)
  obtain backup where b: "encode_signed_backup toy_backup toy_cipher (\<lambda>i n. Some (replicate n 0)) trusted_policy
      (lit ''pw'') fl (bh_kdf toy_header) = Inr backup" "length backup < 2 ^ 16"
    using toy_encode [OF l] by auto
  have "length fl \<le> 16 * 1024 * 1024" "length backup \<le> USIZE_MAX"
    using l b(2) by (simp_all add: USIZE_MAX_def)
  moreover have "header_json_ok (demo_json demo_header) (vf_header demo_vault)"
    "payload_json_ok (demo_json demo_header) (map entry_to_dto (vp_entries demo_payload))" by simp_all
  ultimately show ?thesis
    using signed_import_restores [OF demo_create enc _ toy_cipher_correct _ _ demo_payload_ok(1) b(1)
        toy_backup_correct _ trusted_policy_ok] by blast
qed

text \<open>C12. The gate does not throttle wrong backup passwords: however many passwords are tried that do not
  verify the signature of the backup, each is answered \<open>AuthFailed\<close> at once, no failure is counted
  and no delay imposed, because the password is checked before the gate is entered.\<close>

theorem wrong_backup_password_unthrottled:
  assumes "allow_signed_backup_transfer policy"
    and "\<forall>(now, r, pw) \<in> set as. \<not> is_ok (decode_signed_backup K C policy pw backup)"
  shows "signed_attempts K J C probe policy g m backup timeout as =
    Some (map (\<lambda>_. Inl ImpAuthFailed) as, map (\<lambda>_. 0) as, g, m)"
  using assms(2)
proof (induction as)
  case (Cons a as)
  obtain now r pw where a: "a = (now, r, pw)" by (cases a)
  obtain e where "decode_signed_backup K C policy pw backup = Inl e"
    using Cons.prems a by (cases "decode_signed_backup K C policy pw backup") auto
  moreover have "\<not> is_decoy policy" using assms(1) by (auto simp: trusted_posture_def is_decoy_def)
  ultimately have "import_signed_vault_and_unlock K J C probe now r policy g m pw backup timeout =
      Some (m, g, 0, Inl ImpAuthFailed)"
    using assms(1) by (simp add: import_signed_vault_and_unlock_def import_vipervault_from_signed_backup_def)
  with Cons a show ?case by simp
qed simp

theorem wrong_backup_password_unthrottled_witness:
  "signed_attempts toy_backup (demo_json demo_header) toy_cipher NotDebugged trusted_policy
      (auth_gate_new default_throttle_policy) manager_new [] 60 [(0, 0, lit ''a''), (1, 0, lit ''b'')] =
    Some ([Inl ImpAuthFailed, Inl ImpAuthFailed], [0, 0], auth_gate_new default_throttle_policy, manager_new)"
proof -
  have "\<not> is_ok (decode_signed_backup toy_backup toy_cipher trusted_policy pw [])" for pw
    by (simp add: decode_signed_backup_def)
  then have "\<forall>(now, r, pw) \<in> set [(0 :: instant, 0 :: u64, lit ''a''), (1, 0, lit ''b'')].
      \<not> is_ok (decode_signed_backup toy_backup toy_cipher trusted_policy pw [])" by simp
  from wrong_backup_password_unthrottled [OF trusted_policy_ok this] show ?thesis by simp
qed

text \<open>C11. A decoy that comes out of a backup is not treated as one: when the password opens the decoy branch
  of the imported container, the session is opened with the outcome \<open>Primary\<close> and full strength, so
  in an untouched runtime every sensitive operation is authorised on it, none of which a decoy
  session may perform.\<close>

theorem decoy_import_opens_primary:
  assumes "allow_signed_backup_transfer policy"
    and "decode_signed_backup K C policy pw backup = Inr file"
    and "decode_vault_file J NotDebugged file None MAX_VAULT_CONTAINER_PAYLOAD_LEN False = Inr parsed"
    and "unlock_vault_to_plaintext_json_with_outcome J C parsed pw = Inr (Decoy, pj)"
  shows "\<exists>m'. import_signed_vault_and_unlock K J C NotDebugged now r policy g m pw backup timeout =
      Some (m', g, 0, Inr ()) \<and>
    get_payload J m' = decode_payload_from_plaintext_json J pj \<and> current_unlock_outcome m' = Some Primary \<and>
    is_ok (authorize_sensitive_operation m' operation) \<and>
    \<not> is_ok (authorize_sensitive_operation
        (unlock_with_plaintext_json_with_context m pj timeout Strong Decoy NotDebugged) operation)"
  using signed_import_opens [OF assms, of now r g m timeout]
  by (simp add: get_payload_def unlock_state open_session_def current_unlock_outcome_def
      authorize_session trusted_posture_def)

lemma demo_decoy_file:
  obtains parsed where "decode_vault_file (demo_json demo_duress_header) NotDebugged (short_file demo_envelope_bytes)
      None MAX_VAULT_CONTAINER_PAYLOAD_LEN False = Inr parsed"
    "unlock_vault_to_plaintext_json_with_outcome (demo_json demo_duress_header) toy_cipher parsed (lit ''no'')
      = Inr (Decoy, [0])"
proof -
  let ?J = "demo_json demo_duress_header"
  let ?p = "\<lparr>pv_format_version = 1, pv_header = demo_duress_header, pv_header_bytes = [7],
    pv_mode = Encrypted, pv_payload = demo_envelope_bytes\<rparr>"
  have len: "length (short_file demo_envelope_bytes) \<le> 16 * 1024 * 1024"
    by (simp add: demo_envelope_bytes_def demo_envelope_def)
  have dec: "decode_vault_file ?J NotDebugged (short_file demo_envelope_bytes) (Some 1)
      MAX_VAULT_CONTAINER_PAYLOAD_LEN False = Inr ?p"
    by (rule decode_created [OF _ len, where probe = NotDebugged]) (simp_all add: demo_encode)
  note decode_any_version [OF dec]
  moreover have "encrypt_duress_envelope_from_plaintext_json ?J toy_cipher [7]
      \<lparr>dh_primary = demo_crypto 0, dh_decoy = demo_crypto 2\<rparr> (lit ''pw'') (lit ''no'') [1] [0] = Inr demo_envelope"
    by (simp add: encrypt_duress_envelope_from_plaintext_json_def validate_payload_json_def demo_envelope_def)
  moreover have "json_of_envelope ?J demo_envelope = Some demo_envelope_bytes"
    by (simp add: demo_envelope_bytes_def)
  ultimately show thesis
    using duress_file_unlocks(2) [OF toy_cipher_correct, of ?J ?p] demo_duress_shut_out(1)
    by (intro that [of ?p]) (simp_all add: demo_duress_sel)
qed

theorem decoy_import_opens_primary_witness:
  "\<exists>backup m'. import_signed_vault_and_unlock toy_backup (demo_json demo_duress_header) toy_cipher NotDebugged 0 0
      trusted_policy (auth_gate_new default_throttle_policy) manager_new (lit ''no'') backup 60
      = Some (m', auth_gate_new default_throttle_policy, 0, Inr ()) \<and>
    current_unlock_outcome m' = Some Primary \<and> is_ok (authorize_sensitive_operation m' RevealSecret)"
proof -
  obtain parsed where p: "decode_vault_file (demo_json demo_duress_header) NotDebugged (short_file demo_envelope_bytes)
      None MAX_VAULT_CONTAINER_PAYLOAD_LEN False = Inr parsed"
    "unlock_vault_to_plaintext_json_with_outcome (demo_json demo_duress_header) toy_cipher parsed (lit ''no'')
      = Inr (Decoy, [0])"
    by (rule demo_decoy_file)
  have "length (short_file demo_envelope_bytes) \<le> 1000" by (simp add: demo_envelope_bytes_def demo_envelope_def)
  then obtain backup where b: "encode_signed_backup toy_backup toy_cipher (\<lambda>i n. Some (replicate n 0)) trusted_policy
      (lit ''no'') (short_file demo_envelope_bytes) (bh_kdf toy_header) = Inr backup" "length backup < 2 ^ 16"
    using toy_encode by blast
  have "length backup \<le> USIZE_MAX" using b(2) by (simp add: USIZE_MAX_def)
  from decoy_import_opens_primary [OF trusted_policy_ok
      restored_backup [OF b(1) toy_backup_correct this trusted_policy_ok] p] show ?thesis by blast
qed

text \<open>C37. The throttled flows always return: under any policy whose jitter bound, counted in milliseconds, is not
  one short of a multiple of 2 to the 64 (the largest 64-bit count is such a bound, and so is
  \<open>Duration::MAX\<close>), every sequence of gated unlocks and every sequence of signed imports runs to
  its end with one answer and one delay per attempt, whatever the containers, passwords and
  random words; no attempt panics.\<close>

theorem throttled_flows_return:
  assumes "jitter_safe (gate_policy g)"
  shows "(\<exists>ds g'. gated_attempts J C g unlocks = Some (ds, g') \<and> length ds = length unlocks) \<and>
    (\<exists>rs ds g' m'. signed_attempts K J C probe policy g m backup timeout attempts = Some (rs, ds, g', m') \<and>
       length rs = length attempts \<and> length ds = length attempts)"
proof (intro conjI)
  show "\<exists>ds g'. gated_attempts J C g unlocks = Some (ds, g') \<and> length ds = length unlocks"
    using assms
  proof (induction unlocks arbitrary: g)
    case (Cons a unlocks)
    obtain now r parsed pw where a: "a = (now, r, parsed, pw)" by (cases a)
    obtain res g' d where u: "unlock_plaintext_json_gated J C g now r parsed pw = Some (res, g', d)"
      using gated_total [OF Cons.prems] by blast
    with Cons.IH [of g'] Cons.prems gated_keeps_policy [OF u] a show ?case by auto
  qed simp
  show "\<exists>rs ds g' m'. signed_attempts K J C probe policy g m backup timeout attempts = Some (rs, ds, g', m') \<and>
      length rs = length attempts \<and> length ds = length attempts"
    using assms
  proof (induction attempts arbitrary: g m)
    case (Cons a attempts)
    obtain now r pw where a: "a = (now, r, pw)" by (cases a)
    obtain m' g' d res where u: "import_signed_vault_and_unlock K J C probe now r policy g m pw backup timeout =
        Some (m', g', d, res)" "gate_policy g' = gate_policy g"
      using signed_import_total [OF Cons.prems] by blast
    with Cons.IH [of g' m'] Cons.prems a show ?case by auto
  qed simp
qed

theorem throttled_flows_return_witness:
  "\<exists>ds g'. gated_attempts (demo_json demo_header) toy_cipher (auth_gate_new default_throttle_policy)
      [(0, 0, demo_plain_file, lit ''pw''), (1, 9, weak_duress_file, lit ''no'')] = Some (ds, g') \<and> length ds = 2"
proof -
  have "jitter_safe (gate_policy (auth_gate_new default_throttle_policy))" by (simp add: auth_gate_new_def)
  from conjunct1 [OF throttled_flows_return [OF this, of "demo_json demo_header" toy_cipher
      "[(0, 0, demo_plain_file, lit ''pw''), (1, 9, weak_duress_file, lit ''no'')]"]]
  show ?thesis by (simp add: numeral_2_eq_2 del: gated_attempts.simps)
qed

text \<open>With such a bound the first counted failure panics.\<close>

lemma unsafe_jitter_panics:
  assumes "\<not> jitter_safe (gate_policy g)" and "is_failure e"
  shows "auth_gate_run g now r (Inl e) is_failure reset = None"
proof -
  have "(of_nat (dur_as_millis (jitter_max (gate_policy g))) :: u64) + 1 = 0"
    using assms(1) u64_of_nat_0_iff [of "dur_as_millis (jitter_max (gate_policy g)) + 1"]
    by (simp add: jitter_safe_def add.commute)
  moreover have "dur_as_millis (jitter_max (gate_policy g)) \<noteq> 0"
    using assms(1) by (intro notI) (simp add: jitter_safe_def)
  ultimately have "jitter (jitter_max (gate_policy g)) r = None" by (simp add: jitter_def Let_def)
  with assms(2) show ?thesis by (simp add: auth_gate_run_def on_failure_delay_def Let_def)
qed

lemma unsafe_jitter_bounds:
  "jitter_max p = dur_millis (2 ^ 64 - 1) \<or> jitter_max p = DURATION_MAX \<Longrightarrow> \<not> jitter_safe p"
  by (auto simp: jitter_safe_def dur_as_millis_def dur_millis_def DURATION_MAX_def)

end
