(* ===== verification/Fuzz_Support.thy ===== *)
theory Fuzz_Support
  imports Entries
begin

text \<open>
  \<open>src/core/fuzz/fuzz_targets/support/structured.rs\<close>: the bounded values the structured fuzz targets
  draw, and what the targets end with. The source of randomness is the crate \<open>arbitrary\<close>.
\<close>

section \<open>Outcomes of a target\<close>

text \<open>A run of a target passes all its assertions, leaves early, or fails an assertion.\<close>
datatype outcome = Passed | Returned | AssertFailed

definition asserting :: "bool \<Rightarrow> outcome \<Rightarrow> outcome" where
  "asserting b rest = (if b then rest else AssertFailed)"

text \<open>\<open>let Ok(x) = r else { return; }\<close>\<close>
definition or_return :: "'e + 'a \<Rightarrow> ('a \<Rightarrow> outcome) \<Rightarrow> outcome" where
  "or_return r rest = (case r of Inl _ \<Rightarrow> Returned | Inr x \<Rightarrow> rest x)"

section \<open>Drawing values\<close>

text \<open>What the generators use of \<open>arbitrary::Unstructured\<close>; its state is what is left of the input.\<close>
record ('s, 'e) unstructured =
  un_int_in_range :: "'s \<Rightarrow> nat \<Rightarrow> nat \<Rightarrow> 'e + nat \<times> 's"
  un_bytes :: "'s \<Rightarrow> nat \<Rightarrow> 'e + bytes \<times> 's"

text \<open>A generator stops with an error of the crate or by an index out of bounds.\<close>
datatype 'e stop = Stop 'e | IndexPanic

primrec push_chars ::
    "('s, 'e) unstructured \<Rightarrow> rstring \<Rightarrow> nat \<Rightarrow> rstring \<Rightarrow> 's \<Rightarrow> 'e stop + rstring \<times> 's" where
  "push_chars A alphabet 0 out u = Inr (out, u)"
| "push_chars A alphabet (Suc n) out u =
    rbind (map_err Stop (un_int_in_range A u 0 (length alphabet - 1))) (\<lambda>(idx, u').
      guard (length alphabet \<le> idx) IndexPanic (push_chars A alphabet n (out @ [alphabet ! idx]) u'))"

definition DISPLAY_ALPHABET :: rstring where
  "DISPLAY_ALPHABET = lit ''abcdefghijklmnopqrstuvwxyzABCDEFGHIJKLMNOPQRSTUVWXYZ0123456789-_.''"
definition ACCOUNT_ALPHABET :: rstring where
  "ACCOUNT_ALPHABET = lit ''abcdefghijklmnopqrstuvwxyzABCDEFGHIJKLMNOPQRSTUVWXYZ0123456789-_.@+''"
definition BASE32_ALPHABET :: rstring where
  "BASE32_ALPHABET = lit ''ABCDEFGHIJKLMNOPQRSTUVWXYZ234567''"

text \<open>The three generators of strings differ in their length and their alphabet.\<close>
definition arbitrary_string ::
    "('s, 'e) unstructured \<Rightarrow> nat \<Rightarrow> nat \<Rightarrow> rstring \<Rightarrow> 's \<Rightarrow> 'e stop + rstring \<times> 's" where
  "arbitrary_string A lo hi alphabet u =
    rbind (map_err Stop (un_int_in_range A u lo hi)) (\<lambda>(len, u'). push_chars A alphabet len [] u')"

definition arbitrary_safe_display :: "('s, 'e) unstructured \<Rightarrow> 's \<Rightarrow> 'e stop + rstring \<times> 's" where
  "arbitrary_safe_display A = arbitrary_string A 1 24 DISPLAY_ALPHABET"

definition arbitrary_safe_account :: "('s, 'e) unstructured \<Rightarrow> 's \<Rightarrow> 'e stop + rstring \<times> 's" where
  "arbitrary_safe_account A = arbitrary_string A 1 32 ACCOUNT_ALPHABET"

definition arbitrary_base32_secret :: "('s, 'e) unstructured \<Rightarrow> 's \<Rightarrow> 'e stop + rstring \<times> 's" where
  "arbitrary_base32_secret A = arbitrary_string A 16 64 BASE32_ALPHABET"

definition arbitrary_small_bytes :: "('s, 'e) unstructured \<Rightarrow> 's \<Rightarrow> 'e stop + bytes \<times> 's" where
  "arbitrary_small_bytes A u =
    rbind (map_err Stop (un_int_in_range A u 0 256)) (\<lambda>(len, u'). map_err Stop (un_bytes A u' len))"

datatype structured_algorithm = StructuredSha1 | StructuredSha256 | StructuredSha512

fun into_totp :: "structured_algorithm \<Rightarrow> totp_algorithm" where
  "into_totp StructuredSha1 = Sha1"
| "into_totp StructuredSha256 = Sha256"
| "into_totp StructuredSha512 = Sha512"

definition digits_from_selector :: "u8 \<Rightarrow> u8" where
  "digits_from_selector selector =
    (let k = selector mod 3 in if k = 0 then 6 else if k = 1 then 7 else 8)"

definition period_from_selector :: "u8 \<Rightarrow> u32" where
  "period_from_selector selector =
    (let k = selector mod 7 in
     if k = 0 then 10 else if k = 1 then 15 else if k = 2 then 30 else if k = 3 then 45
     else if k = 4 then 60 else if k = 5 then 90 else 120)"

text \<open>The loop writes the bytes of the source one by one into an array of zeros.\<close>
definition fill_fixed :: "nat \<Rightarrow> bytes \<Rightarrow> bytes" where
  "fill_fixed n src =
    fold (\<lambda>(idx, b) out. out[idx := b]) (take n (enumerate 0 src)) (replicate n 0)"

section \<open>What the generators give\<close>

text \<open>The contract of the crate: a number in the range asked for, as many bytes as asked for.\<close>
definition unstructured_ok :: "('s, 'e) unstructured \<Rightarrow> bool" where
  "unstructured_ok A \<longleftrightarrow>
    (\<forall>u lo hi k u'. lo \<le> hi \<longrightarrow> un_int_in_range A u lo hi = Inr (k, u') \<longrightarrow> lo \<le> k \<and> k \<le> hi) \<and>
    (\<forall>u n bs u'. un_bytes A u n = Inr (bs, u') \<longrightarrow> length bs = n)"

lemma drawn_range:
  "unstructured_ok A \<Longrightarrow> lo \<le> hi \<Longrightarrow> un_int_in_range A u lo hi = Inr (k, u') \<Longrightarrow> lo \<le> k \<and> k \<le> hi"
  unfolding unstructured_ok_def by blast

lemma drawn_bytes: "unstructured_ok A \<Longrightarrow> un_bytes A u n = Inr (bs, u') \<Longrightarrow> length bs = n"
  unfolding unstructured_ok_def by blast

lemma push_chars_shape:
  assumes "unstructured_ok A" and "alphabet \<noteq> []"
  shows "push_chars A alphabet n out u \<noteq> Inl IndexPanic \<and>
    (\<forall>s u'. push_chars A alphabet n out u = Inr (s, u') \<longrightarrow>
       length s = length out + n \<and> set s \<subseteq> set out \<union> set alphabet)"
proof (induction n arbitrary: out u)
  case (Suc n)
  show ?case
  proof (cases "un_int_in_range A u 0 (length alphabet - 1)")
    case (Inr v)
    obtain idx u2 where v: "v = (idx, u2)" by fastforce
    with drawn_range [OF assms(1) _ Inr [unfolded v]] have "idx \<le> length alphabet - 1" by simp
    then have i: "idx < length alphabet" using assms(2) by (cases alphabet) auto
    have e: "push_chars A alphabet (Suc n) out u = push_chars A alphabet n (out @ [alphabet ! idx]) u2"
      using Inr v i by simp
    show ?thesis
    proof (intro conjI allI impI)
      show "push_chars A alphabet (Suc n) out u \<noteq> Inl IndexPanic" unfolding e using Suc.IH by blast
      fix s u'
      assume "push_chars A alphabet (Suc n) out u = Inr (s, u')"
      then have "length s = length (out @ [alphabet ! idx]) + n"
        "set s \<subseteq> set (out @ [alphabet ! idx]) \<union> set alphabet"
        unfolding e using Suc.IH by blast+
      then show "length s = length out + Suc n" "set s \<subseteq> set out \<union> set alphabet"
        using nth_mem [OF i] by auto
    qed
  qed simp
qed simp

definition drawn_string :: "nat \<Rightarrow> nat \<Rightarrow> rstring \<Rightarrow> rstring \<Rightarrow> bool" where
  "drawn_string lo hi alphabet s \<longleftrightarrow> lo \<le> length s \<and> length s \<le> hi \<and> set s \<subseteq> set alphabet"

abbreviation safe_display :: "rstring \<Rightarrow> bool" where "safe_display \<equiv> drawn_string 1 24 DISPLAY_ALPHABET"
abbreviation safe_account :: "rstring \<Rightarrow> bool" where "safe_account \<equiv> drawn_string 1 32 ACCOUNT_ALPHABET"
abbreviation base32_secret :: "rstring \<Rightarrow> bool" where "base32_secret \<equiv> drawn_string 16 64 BASE32_ALPHABET"

lemma arbitrary_string_shape:
  assumes "unstructured_ok A" and "alphabet \<noteq> []" and "lo \<le> hi"
  shows "arbitrary_string A lo hi alphabet u \<noteq> Inl IndexPanic"
    and "arbitrary_string A lo hi alphabet u = Inr (s, u') \<Longrightarrow> drawn_string lo hi alphabet s"
proof -
  have shape: "push_chars A alphabet n [] v \<noteq> Inl IndexPanic"
    "push_chars A alphabet n [] v = Inr (s, u') \<Longrightarrow> length s = n \<and> set s \<subseteq> set alphabet" for n v
    using push_chars_shape [OF assms(1,2), of n "[]" v] by auto
  show "arbitrary_string A lo hi alphabet u \<noteq> Inl IndexPanic"
    by (cases "un_int_in_range A u lo hi") (auto simp: arbitrary_string_def shape(1))
  assume "arbitrary_string A lo hi alphabet u = Inr (s, u')"
  then obtain n v where n: "un_int_in_range A u lo hi = Inr (n, v)" "push_chars A alphabet n [] v = Inr (s, u')"
    by (auto simp: arbitrary_string_def rbind_pair_Inr_iff)
  show "drawn_string lo hi alphabet s"
    using drawn_range [OF assms(1,3) n(1)] shape(2) [OF n(2)] by (simp add: drawn_string_def)
qed

lemma alphabets_ne: "DISPLAY_ALPHABET \<noteq> []" "ACCOUNT_ALPHABET \<noteq> []" "BASE32_ALPHABET \<noteq> []"
  by (simp_all add: DISPLAY_ALPHABET_def ACCOUNT_ALPHABET_def BASE32_ALPHABET_def lit_def)

text \<open>Every generator keeps its bounds, and the indexing of an alphabet never panics.\<close>

lemma generated_values:
  assumes "unstructured_ok A"
  shows "arbitrary_safe_display A u \<noteq> Inl IndexPanic" "arbitrary_safe_account A u \<noteq> Inl IndexPanic"
    "arbitrary_base32_secret A u \<noteq> Inl IndexPanic"
    "arbitrary_safe_display A u = Inr (s, u') \<Longrightarrow> safe_display s"
    "arbitrary_safe_account A u = Inr (s, u') \<Longrightarrow> safe_account s"
    "arbitrary_base32_secret A u = Inr (s, u') \<Longrightarrow> base32_secret s"
    "arbitrary_small_bytes A u = Inr (bs, u') \<Longrightarrow> length bs \<le> 256"
proof -
  note defs = arbitrary_safe_display_def arbitrary_safe_account_def arbitrary_base32_secret_def
  show "arbitrary_safe_display A u \<noteq> Inl IndexPanic" "arbitrary_safe_account A u \<noteq> Inl IndexPanic"
    "arbitrary_base32_secret A u \<noteq> Inl IndexPanic"
    unfolding defs by (intro arbitrary_string_shape(1) [OF assms] alphabets_ne; simp)+
  show "arbitrary_safe_display A u = Inr (s, u') \<Longrightarrow> safe_display s"
    "arbitrary_safe_account A u = Inr (s, u') \<Longrightarrow> safe_account s"
    "arbitrary_base32_secret A u = Inr (s, u') \<Longrightarrow> base32_secret s"
    unfolding defs
    by (erule arbitrary_string_shape(2) [OF assms, rotated 2]; simp add: alphabets_ne)+
  assume "arbitrary_small_bytes A u = Inr (bs, u')"
  then obtain n v where "un_int_in_range A u 0 256 = Inr (n, v)" "un_bytes A v n = Inr (bs, u')"
    by (auto simp: arbitrary_small_bytes_def rbind_pair_Inr_iff)
  then show "length bs \<le> 256" using drawn_range [OF assms, of 0 256 u n v] drawn_bytes [OF assms] by simp
qed

section \<open>What the selectors give\<close>

lemma digits_from_selector_ok: "digits_from_selector x \<in> {6, 7, 8}"
  by (simp add: digits_from_selector_def Let_def)

lemma period_from_selector_ok: "10 \<le> period_from_selector x \<and> period_from_selector x \<le> 120"
  by (simp add: period_from_selector_def Let_def)

text \<open>The array is the source cut or padded with zeros to the length of the array.\<close>

lemma fill_fixed_eq: "fill_fixed n src = take n src @ replicate (n - length src) 0"
proof -
  have fills: "length out = k + m \<Longrightarrow>
      fold (\<lambda>(idx, b) out. out[idx := b]) (take m (enumerate k bs)) out =
        take k out @ take m bs @ drop (k + length (take m bs)) out" for k m bs and out :: bytes
  proof (induction bs arbitrary: k m out)
    case (Cons b bs)
    show ?case
    proof (cases m)
      case (Suc m')
      have "fold (\<lambda>(idx, b) out. out[idx := b]) (take m' (enumerate (Suc k) bs)) (out[k := b]) =
          take (Suc k) (out[k := b]) @ take m' bs @ drop (Suc k + length (take m' bs)) (out[k := b])"
        using Cons.prems Suc by (intro Cons.IH) simp
      then show ?thesis using Cons.prems Suc by (simp add: take_Suc_conv_app_nth)
    qed (simp add: Cons.prems)
  qed simp
  have "drop (min (length src) n) (replicate n (0 :: u8)) = replicate (n - length src) 0"
    by (simp add: min_def)
  then show ?thesis using fills [of "replicate n 0" 0 n src] by (simp add: fill_fixed_def)
qed

lemma length_fill_fixed [simp]: "length (fill_fixed n src) = n"
  by (simp add: fill_fixed_eq)

end
