(* ===== verification/Fuzz_Vault.thy ===== *)
theory Fuzz_Vault
  imports Samples Fuzz_Support
begin

text \<open>
  The fuzz targets of \<open>src/core/fuzz/fuzz_targets\<close> on vaults: \<open>vault_codec_roundtrip.rs\<close>,
  \<open>vault_codec_roundtrip_structured.rs\<close>, \<open>enable_duress_on_vault.rs\<close> and
  \<open>enable_duress_on_vault_structured.rs\<close>, and what they end with.
\<close>

unbundle bit_operations_syntax

section \<open>The codec (vault\_codec\_roundtrip.rs)\<close>

definition fuzz_kdf_policy :: vault_kdf_policy where
  "fuzz_kdf_policy = \<lparr>kp_mem_kib = 64 * 1024, kp_time_cost = 3, kp_lanes = 1\<rparr>"

definition fuzz_header :: "uuid \<Rightarrow> bytes \<Rightarrow> bytes \<Rightarrow> vault_header" where
  "fuzz_header vault_id salt nonce = \<lparr>vh_schema_version = 1, vh_vault_id = vault_id,
     vh_crypto = \<lparr>ch_kdf = Argon2id (64 * 1024) 3 1, ch_aead = XChaCha20Poly1305, ch_salt = salt, ch_nonce = nonce\<rparr>,
     vh_duress = None\<rparr>"

text \<open>The two loops fill the arrays as \<open>fill_fixed\<close> does; the identifier is drawn.\<close>
definition build_header :: "uuid \<Rightarrow> bytes \<Rightarrow> vault_header" where
  "build_header new_id data = fuzz_header new_id (fill_fixed 32 data) (fill_fixed 24 (drop 32 data))"

definition fuzz_format_version :: "bytes \<Rightarrow> u16" where
  "fuzz_format_version data = (if length data > 1 then of_nat (of_le (take 2 data)) else 1)"

definition fuzz_storage :: "bytes \<Rightarrow> vault_storage" where
  "fuzz_storage data =
    (let mode_selector = (case data of [] \<Rightarrow> 0 | b # _ \<Rightarrow> b AND 1);
         payload = (if length data > 64 then drop 64 data else [])
     in if mode_selector = 0 then SEncrypted payload else SPlaintextJson payload)"

text \<open>The last match of both codec targets.\<close>
fun assert_storage :: "parsed_vault_file \<Rightarrow> vault_storage \<Rightarrow> outcome" where
  "assert_storage decoded (SEncrypted ciphertext) =
    asserting (pv_mode decoded = Encrypted) (asserting (pv_payload decoded = ciphertext) Passed)"
| "assert_storage decoded (SPlaintextJson json) =
    asserting (pv_mode decoded = PlaintextJson) (asserting (pv_payload decoded = json) Passed)"

text \<open>The runtime is inspected once by the encoder and once by the decoder.\<close>
definition vault_codec_roundtrip ::
    "json_lib \<Rightarrow> runtime_inspection_state \<Rightarrow> runtime_inspection_state \<Rightarrow> uuid \<Rightarrow> bytes \<Rightarrow> outcome" where
  "vault_codec_roundtrip J probe probe' new_id data =
    (if data = [] then Returned
     else let header = build_header new_id data;
              format_version = fuzz_format_version data;
              storage = fuzz_storage data
       in or_return (encode_vault_storage J probe header storage format_version) (\<lambda>encoded.
          let allow_plaintext = is_plaintext_storage storage in
          or_return (decode_vault_file J probe' encoded (Some format_version)
              MAX_VAULT_CONTAINER_PAYLOAD_LEN allow_plaintext) (\<lambda>decoded.
            asserting (pv_format_version decoded = format_version)
            (asserting (vh_schema_version (pv_header decoded) = vh_schema_version header)
            (assert_storage decoded storage)))))"

section \<open>The structured codec target (vault\_codec\_roundtrip\_structured.rs)\<close>

datatype storage_kind = EncryptedKind | PlaintextKind

record vault_codec_case =
  vc_use_zero_format_version :: bool
  vc_storage_kind :: storage_kind
  vc_header_material :: bytes
  vc_payload :: bytes
  vc_allow_plaintext_decode :: bool

text \<open>\<open>Uuid::from_bytes\<close> reads its bytes in big-endian order.\<close>
definition uuid_from_bytes :: "bytes \<Rightarrow> uuid" where
  "uuid_from_bytes bs = of_nat (of_le (rev bs))"

definition case_header :: "vault_codec_case \<Rightarrow> vault_header" where
  "case_header c = fuzz_header (uuid_from_bytes (fill_fixed 16 (vc_header_material c)))
     (fill_fixed 32 (vc_header_material c)) (fill_fixed 24 (vc_header_material c))"

definition case_storage :: "vault_codec_case \<Rightarrow> vault_storage" where
  "case_storage c = (case vc_storage_kind c of
     EncryptedKind \<Rightarrow> SEncrypted (vc_payload c) | PlaintextKind \<Rightarrow> SPlaintextJson (vc_payload c))"

definition vault_codec_structured ::
    "json_lib \<Rightarrow> runtime_inspection_state \<Rightarrow> runtime_inspection_state \<Rightarrow> vault_codec_case \<Rightarrow> outcome" where
  "vault_codec_structured J probe probe' c =
    (let header = case_header c;
         format_version = (if vc_use_zero_format_version c then 0 else 1);
         storage = case_storage c
     in or_return (encode_vault_storage J probe header storage format_version) (\<lambda>encoded.
        let allow_plaintext = vc_allow_plaintext_decode c \<and> is_plaintext_storage storage in
        or_return (decode_vault_file J probe' encoded (Some format_version)
            MAX_VAULT_CONTAINER_PAYLOAD_LEN allow_plaintext) (\<lambda>decoded.
          asserting (pv_format_version decoded = format_version)
          (asserting (vh_schema_version (pv_header decoded) = vh_schema_version header)
          (asserting (vh_vault_id (pv_header decoded) = vh_vault_id header)
          (assert_storage decoded storage))))))"

section \<open>Migration (enable\_duress\_on\_vault.rs)\<close>

text \<open>\<open>chunks(n)\<close>: pieces of \<open>n\<close> elements, the last one may be shorter.\<close>
fun chunks :: "nat \<Rightarrow> 'a list \<Rightarrow> 'a list list" where
  "chunks n [] = []"
| "chunks n (x # xs) = (x # take (n - 1) xs) # chunks n (drop (n - 1) xs)"

text \<open>The formats \<open>{:02x}\<close> of a byte and \<open>{:02x?}\<close> of a slice.\<close>
definition lower_hex_digit :: "nat \<Rightarrow> rchar" where
  "lower_hex_digit n = (if n < 10 then 48 + n else 87 + n)"

definition fmt_02x :: "u8 \<Rightarrow> rstring" where
  "fmt_02x b = [lower_hex_digit (unat b div 16), lower_hex_digit (unat b mod 16)]"

fun join_text :: "rstring \<Rightarrow> rstring list \<Rightarrow> rstring" where
  "join_text sep [] = []"
| "join_text sep [s] = s"
| "join_text sep (s # t # r) = s @ sep @ join_text sep (t # r)"

definition fmt_debug_02x :: "bytes \<Rightarrow> rstring" where
  "fmt_debug_02x bs = lit ''['' @ join_text (lit '', '') (map fmt_02x bs) @ lit '']''"

text \<open>The loops push the entries whose constructor succeeds; entry \<open>i\<close> gets the identifier \<open>ids i\<close>.\<close>
definition note_entries :: "(nat \<Rightarrow> uuid) \<Rightarrow> (nat \<times> rstring \<times> rstring) list \<Rightarrow> vault_payload" where
  "note_entries ids ns = \<lparr>vp_entries =
     concat (map (\<lambda>(idx, title, secret).
       case new_secure_note (ids idx) title secret of Inl _ \<Rightarrow> [] | Inr e \<Rightarrow> [e]) ns)\<rparr>"

definition payload_from_bytes :: "(nat \<Rightarrow> uuid) \<Rightarrow> rstring \<Rightarrow> bytes \<Rightarrow> vault_payload" where
  "payload_from_bytes ids prefix data =
    note_entries ids (map (\<lambda>(idx, chunk).
        (idx, prefix @ lit ''-entry-'' @ dec_digits idx, prefix @ lit ''-'' @ fmt_debug_02x chunk))
      (enumerate 0 (take 4 (chunks 16 data))))"

definition PRIMARY_PW :: master_password where "PRIMARY_PW = lit ''primary-fuzz-password''"
definition DECOY_PW :: master_password where "DECOY_PW = lit ''decoy-fuzz-password''"

text \<open>What both migration targets run on their payloads, up to the decoded file.\<close>
definition migrate_and_decode ::
    "json_lib \<Rightarrow> crypto_lib \<Rightarrow> rng \<Rightarrow> rng \<Rightarrow> runtime_inspection_state \<Rightarrow> runtime_inspection_state \<Rightarrow> uuid
      \<Rightarrow> vault_payload \<Rightarrow> vault_payload \<Rightarrow> vault_parse_error + parsed_vault_file" where
  "migrate_and_decode J C rnd rnd' probe probe' new_id primary_payload decoy_payload =
    rbind (create_encrypted_vault J C rnd new_id PRIMARY_PW primary_payload 1 fuzz_kdf_policy) (\<lambda>legacy.
    rbind (enable_duress_on_vault J C rnd' legacy PRIMARY_PW DECOY_PW decoy_payload fuzz_kdf_policy) (\<lambda>migrated.
    rbind (encode_vault_storage J probe (vf_header migrated) (vf_storage migrated) 1) (\<lambda>encoded.
      decode_vault_file J probe' encoded (Some 1) MAX_VAULT_CONTAINER_PAYLOAD_LEN False)))"

definition enable_duress_target ::
    "json_lib \<Rightarrow> crypto_lib \<Rightarrow> rng \<Rightarrow> rng \<Rightarrow> runtime_inspection_state \<Rightarrow> runtime_inspection_state \<Rightarrow> uuid
      \<Rightarrow> (nat \<Rightarrow> uuid) \<Rightarrow> (nat \<Rightarrow> uuid) \<Rightarrow> bytes \<Rightarrow> outcome" where
  "enable_duress_target J C rnd rnd' probe probe' new_id ids ids' data =
    (let split = length data div 2;
         primary_payload = payload_from_bytes ids (lit ''primary'') (take split data);
         decoy_payload = payload_from_bytes ids' (lit ''decoy'') (drop split data)
     in or_return (migrate_and_decode J C rnd rnd' probe probe' new_id primary_payload decoy_payload) (\<lambda>_. Passed))"

section \<open>Structured migration (enable\_duress\_on\_vault\_structured.rs)\<close>

record payload_case =
  pc_prefix :: rstring
  pc_material :: bytes
  pc_entry_count :: u8

definition secret_slice :: "bytes \<Rightarrow> nat \<Rightarrow> rstring" where
  "secret_slice material idx =
    (let cs = chunks 16 material in concat (map fmt_02x (if idx < length cs then cs ! idx else [])))"

definition build_payload :: "(nat \<Rightarrow> uuid) \<Rightarrow> payload_case \<Rightarrow> vault_payload" where
  "build_payload ids c =
    note_entries ids (map (\<lambda>idx. (idx, pc_prefix c @ lit ''-'' @ dec_digits idx,
        lit ''note-'' @ secret_slice (pc_material c) idx))
      [0 ..< unat (pc_entry_count c mod 4)])"

definition enable_duress_structured ::
    "json_lib \<Rightarrow> crypto_lib \<Rightarrow> rng \<Rightarrow> rng \<Rightarrow> runtime_inspection_state \<Rightarrow> runtime_inspection_state \<Rightarrow> uuid
      \<Rightarrow> (nat \<Rightarrow> uuid) \<Rightarrow> (nat \<Rightarrow> uuid) \<Rightarrow> payload_case \<Rightarrow> payload_case \<Rightarrow> outcome" where
  "enable_duress_structured J C rnd rnd' probe probe' new_id ids ids' primary decoy =
    or_return (migrate_and_decode J C rnd rnd' probe probe' new_id (build_payload ids primary)
        (build_payload ids' decoy)) (\<lambda>decoded.
      asserting (vh_duress (pv_header decoded) \<noteq> None) Passed)"

section \<open>The codec, computed\<close>

lemma encode_storage_eq:
  assumes "json_of_header J h = Some hb" and "length hb \<le> 4096" and "length payload < 2 ^ 64"
    and "storage_parts storage = (mode, payload)" and "vh_duress h = None"
  shows "encode_vault_storage J probe h storage fv =
    (if fv = 0 then Inl UnsupportedVersion
     else if is_plaintext_storage storage \<and> probe \<noteq> NotDebugged then Inl PlaintextNotAllowed
     else Inr (container_layout fv mode hb payload))"
proof -
  have "unat (of_nat (length hb) :: u32) = length hb" using assms(2) by (simp add: unat_of_nat)
  moreover have "unat (u64_of_len (length payload)) = length payload"
    using assms(3) by (simp add: u64_of_len_def unat_of_nat)
  moreover have "\<not> (of_nat (length hb) :: u32) > MAX_HEADER_LEN"
    using calculation(1) assms(2) by (simp add: word_less_nat_alt)
  ultimately show ?thesis
    using assms(1,4,5) by (simp add: encode_vault_storage_def serialize_header_json_def container_layout_def)
qed

lemma decode_layout_eq:
  assumes "json_to_header J hb = Some h" and "length hb \<le> 4096" and "length payload < 2 ^ 64"
    and "mode = PlaintextJson \<longrightarrow> vh_duress h = None" and "fv \<noteq> 0"
  shows "decode_vault_file J probe (container_layout fv mode hb payload) (Some fv) max_len allow =
    (if mode = PlaintextJson \<and> (\<not> allow \<or> probe \<noteq> NotDebugged) then Inl PlaintextNotAllowed
     else if length payload > unat max_len then Inl PayloadTooLarge
     else Inr \<lparr>pv_format_version = fv, pv_header = h, pv_header_bytes = hb, pv_mode = mode, pv_payload = payload\<rparr>)"
proof -
  define hl :: u32 where "hl = of_nat (length hb)"
  define pl :: u64 where "pl = of_nat (length payload)"
  have hl: "unat hl = length hb" and pl: "unat pl = length payload"
    using assms(2,3) by (simp_all add: hl_def pl_def unat_of_nat)
  have m: "decode_storage_mode probe allow (storage_mode_u8 Encrypted) = Inr Encrypted"
    "decode_storage_mode probe allow (storage_mode_u8 PlaintextJson) =
      (if \<not> allow \<or> probe \<noteq> NotDebugged then Inl PlaintextNotAllowed else Inr PlaintextJson)"
    by (simp_all add: decode_storage_mode_def storage_mode_u8_def)
  show ?thesis
    using assms by (cases mode) (simp_all add: m decode_vault_file_def container_layout_def read_append length_MAGIC
        deserialize_header_json_def word_less_nat_alt flip: hl pl)
qed

lemma codec_run:
  assumes "json_of_header J h = Some hb" and "json_to_header J hb = Some h" and "length hb \<le> 4096"
    and "vh_duress h = None" and "storage_parts storage = (mode, payload)" and "length payload < 2 ^ 64"
  shows "or_return (encode_vault_storage J probe h storage fv) (\<lambda>encoded.
      or_return (decode_vault_file J probe' encoded (Some fv) MAX_VAULT_CONTAINER_PAYLOAD_LEN
        (allow \<and> is_plaintext_storage storage)) k) =
    (if fv = 0 \<or> is_plaintext_storage storage \<and> \<not> (allow \<and> probe = NotDebugged \<and> probe' = NotDebugged) \<or>
       length payload > 16 * 1024 * 1024
     then Returned
     else k \<lparr>pv_format_version = fv, pv_header = h, pv_header_bytes = hb, pv_mode = mode, pv_payload = payload\<rparr>)"
proof -
  have m: "is_plaintext_storage storage \<longleftrightarrow> mode = PlaintextJson"
    using assms(5) by (cases storage) auto
  have "unat MAX_VAULT_CONTAINER_PAYLOAD_LEN = 16 * 1024 * 1024" by (simp add: MAX_VAULT_CONTAINER_PAYLOAD_LEN_def)
  then show ?thesis
    using m assms(4) encode_storage_eq [OF assms(1,3,6,5,4)] decode_layout_eq [OF assms(2,3,6), of mode]
    by (auto simp: or_return_def)
qed

section \<open>The payloads of the migration targets\<close>

lemma chunks_length: "c \<in> set (chunks n xs) \<Longrightarrow> 0 < n \<Longrightarrow> length c \<le> n \<and> c \<noteq> []"
  by (induction n xs rule: chunks.induct) auto

lemma number_of_chunks: "0 < n \<Longrightarrow> length (chunks n xs) = (length xs + n - 1) div n"
proof (induction n xs rule: chunks.induct)
  case (2 n x xs)
  show ?case
  proof (cases "n \<le> length (x # xs)")
    case True
    then have "(length (x # xs) + n - 1) div n = Suc ((length xs - (n - 1) + n - 1) div n)"
      using 2(2) by (subst div_if) auto
    with 2 show ?thesis by simp
  next
    case False
    then have "(length (x # xs) + n - 1) div n = 1" by (intro div_nat_eqI) auto
    moreover have "drop (n - 1) xs = []" using False by simp
    ultimately show ?thesis by simp
  qed
qed simp

text \<open>Text of printable ASCII characters.\<close>
definition printable :: "rstring \<Rightarrow> bool" where
  "printable s \<longleftrightarrow> (\<forall>c \<in> set s. 32 \<le> c \<and> c < 127)"

lemma printable_simps [simp]:
  "printable []" "printable (c # s) \<longleftrightarrow> 32 \<le> c \<and> c < 127 \<and> printable s"
  "printable (a @ b) \<longleftrightarrow> printable a \<and> printable b"
  "printable (concat xs) \<longleftrightarrow> (\<forall>x \<in> set xs. printable x)"
  by (auto simp: printable_def)

lemma printable_digits [simp]: "printable (dec_digits n)"
  using dec_digits_digit [of n] by (auto simp: printable_def list_all_iff is_digit_def)

lemma printable_fmt [simp]: "printable (fmt_02x b)" "length (fmt_02x b) = 2"
proof -
  have "n < 16 \<Longrightarrow> 32 \<le> lower_hex_digit n \<and> lower_hex_digit n < 127" for n
    by (simp add: lower_hex_digit_def)
  moreover have "unat b div 16 < 16" "unat b mod 16 < 16" using unat_u8_less [of b] by simp_all
  ultimately show "printable (fmt_02x b)" unfolding fmt_02x_def by (simp only: printable_simps)
qed (simp add: fmt_02x_def)

lemma printable_join: "printable sep \<Longrightarrow> (\<And>x. x \<in> set xs \<Longrightarrow> printable x) \<Longrightarrow> printable (join_text sep xs)"
  by (induction sep xs rule: join_text.induct) auto

lemma length_join:
  "(\<And>x. x \<in> set xs \<Longrightarrow> length x = k) \<Longrightarrow> length (join_text sep xs) \<le> length xs * (k + length sep)"
  by (induction sep xs rule: join_text.induct) (fastforce simp: algebra_simps)+

lemma printable_safe:
  assumes "printable s" and "s \<noteq> []" and "length s \<le> n"
  shows "safe_text n s"
proof -
  have "is_ascii s" using assms(1) by (fastforce simp: is_ascii_def is_ascii_char_def list_all_iff printable_def)
  then have "str_len s \<le> n" using assms(3) by (simp add: str_len_ascii)
  moreover have "displayable c" if "32 \<le> c" "c < 127" for c
    using that by (simp add: displayable_def is_control_def is_bidi_control_def is_zero_width_def)
  ultimately show ?thesis using assms(1,2) by (simp add: safe_text_def list_all_iff printable_def)
qed

lemma note_entries_ok: "payload_ok (note_entries ids ns)"
  using constructors_exact by (fastforce simp: payload_ok_def note_entries_def list_all_iff split: sum.splits)

text \<open>No note is skipped: every constructor succeeds, in order and with its own identifier.\<close>

lemma note_entries_all:
  assumes "\<And>idx title secret. (idx, title, secret) \<in> set ns \<Longrightarrow>
    printable title \<and> title \<noteq> [] \<and> length title \<le> 256 \<and> printable secret \<and> secret \<noteq> [] \<and> length secret \<le> 8192"
  shows "map entry_id (vp_entries (note_entries ids ns)) = map (\<lambda>(idx, _). ids idx) ns"
  using assms
proof (induction ns)
  case (Cons x ns)
  obtain idx title secret where x: "x = (idx, title, secret)" by (metis prod_cases3)
  have "is_ok (new_secure_note (ids idx) title secret)"
    using Cons.prems [of idx title secret] x constructors_exact printable_safe
    by (simp add: MAX_TITLE_LEN_def MAX_NOTE_LEN_def)
  then obtain e where e: "new_secure_note (ids idx) title secret = Inr e" by (auto simp: is_ok_iff)
  then have "entry_id e = ids idx" using constructors_exact by blast
  moreover have "map entry_id (vp_entries (note_entries ids ns)) = map (\<lambda>(idx, _). ids idx) ns"
    by (rule Cons.IH) (use Cons.prems in auto)
  ultimately show ?case using e x by (simp add: note_entries_def)
qed (simp add: note_entries_def)

lemma length_dec_small: "n < 10 \<Longrightarrow> length (dec_digits n) = 1"
  by (simp add: dec_digits.simps)

lemma migration_payloads:
  assumes "printable prefix" and "length prefix \<le> 24" and "safe_display (pc_prefix c)"
  shows "map entry_id (vp_entries (payload_from_bytes ids prefix data)) =
      map ids [0 ..< min 4 ((length data + 15) div 16)]"
    and "map entry_id (vp_entries (build_payload ids c)) = map ids [0 ..< unat (pc_entry_count c mod 4)]"
proof -
  let ?cs = "take 4 (chunks 16 data)"
  have l: "length ?cs = min 4 ((length data + 15) div 16)" by (simp add: number_of_chunks min.commute)
  have d: "printable (fmt_debug_02x bs) \<and> length (fmt_debug_02x bs) \<le> 100" if "length bs \<le> 16" for bs
  proof -
    have "length (join_text (lit '', '') (map fmt_02x bs)) \<le> length bs * 4"
      by (rule order_trans [OF length_join [where k = 2]]) (auto simp: lit_def)
    moreover have "printable (join_text (lit '', '') (map fmt_02x bs))"
      by (rule printable_join) (auto simp: lit_def)
    ultimately show ?thesis using that by (simp add: fmt_debug_02x_def lit_def)
  qed
  have n: "idx < 4 \<and> length chunk \<le> 16" if "(idx, chunk) \<in> set (enumerate 0 ?cs)" for idx chunk
  proof -
    have "idx < length ?cs" "chunk = ?cs ! idx" using that by (simp_all add: in_set_enumerate_eq)
    then have "idx < length ?cs" "chunk \<in> set ?cs" using nth_mem by blast+
    then show ?thesis using chunks_length [of chunk 16 data] by (auto dest: in_set_takeD)
  qed
  have "map (\<lambda>p. ids (fst p)) (enumerate 0 ?cs) = map ids (map fst (enumerate 0 ?cs))"
    by (simp only: list.map_comp o_def)
  also have "map fst (enumerate 0 ?cs) = [0 ..< length ?cs]" by (simp add: enumerate_eq_zip)
  finally have e: "map (\<lambda>p. ids (fst p)) (enumerate 0 ?cs) = map ids [0 ..< min 4 ((length data + 15) div 16)]"
    unfolding l .
  show "map entry_id (vp_entries (payload_from_bytes ids prefix data)) =
      map ids [0 ..< min 4 ((length data + 15) div 16)]"
    unfolding payload_from_bytes_def
  proof (rule trans [OF note_entries_all], goal_cases)
    case (1 idx title secret)
    then obtain chunk where "(idx, chunk) \<in> set (enumerate 0 ?cs)"
      "title = prefix @ lit ''-entry-'' @ dec_digits idx" "secret = prefix @ lit ''-'' @ fmt_debug_02x chunk" by auto
    then show ?case using assms(1,2) n [of idx chunk] d [of chunk] length_dec_small [of idx] by (simp add: lit_def)
  next
    case 2
    show ?case unfolding e [symmetric] list.map_comp by (rule map_cong) auto
  qed
  have p: "printable (pc_prefix c) \<and> length (pc_prefix c) \<le> 24"
    using assms(3) by (auto simp: drawn_string_def printable_def DISPLAY_ALPHABET_def lit_def)
  have k: "unat (pc_entry_count c mod 4) < 4"
    using word_mod_less_divisor [of 4 "pc_entry_count c"] by (simp add: word_less_nat_alt)
  have s: "printable (secret_slice m i) \<and> length (secret_slice m i) \<le> 32" for m i
  proof (cases "i < length (chunks 16 m)")
    case True
    then have "length (chunks 16 m ! i) \<le> 16" using chunks_length [of "chunks 16 m ! i" 16 m] by simp
    then show ?thesis using True by (auto simp: secret_slice_def Let_def length_concat o_def sum_list_triv)
  qed (simp add: secret_slice_def Let_def)
  show "map entry_id (vp_entries (build_payload ids c)) = map ids [0 ..< unat (pc_entry_count c mod 4)]"
    unfolding build_payload_def
  proof (rule trans [OF note_entries_all], goal_cases)
    case (1 idx title secret)
    then have "idx < 4" "title = pc_prefix c @ lit ''-'' @ dec_digits idx"
      "secret = lit ''note-'' @ secret_slice (pc_material c) idx" using k by auto
    then show ?case using p s [of "pc_material c" idx] length_dec_small [of idx] by (simp add: lit_def)
  next
    case 2
    show ?case by (simp only: list.map_comp o_def prod.case)
  qed
qed

section \<open>The migration\<close>

text \<open>The header crosses the JSON boundary and is as short as the container allows.\<close>
definition short_header_json :: "json_lib \<Rightarrow> vault_header \<Rightarrow> bool" where
  "short_header_json J h \<longleftrightarrow>
    (\<exists>hb. json_of_header J h = Some hb \<and> json_to_header J hb = Some h \<and> length hb \<le> 4096)"

lemma migrated_file:
  assumes "enable_duress_on_vault J C rnd legacy pw1 pw2 p2 kdf = Inr migrated"
    and "short_header_json J (vf_header migrated)"
    and "\<And>ct. vf_storage migrated = SEncrypted ct \<Longrightarrow> length ct < 2 ^ 63"
  shows "\<exists>ct hb. vf_storage migrated = SEncrypted ct \<and> vh_duress (vf_header migrated) \<noteq> None \<and>
    rbind (encode_vault_storage J probe (vf_header migrated) (vf_storage migrated) 1) (\<lambda>encoded.
      decode_vault_file J probe' encoded (Some 1) MAX_VAULT_CONTAINER_PAYLOAD_LEN False) =
    (if length ct > 16 * 1024 * 1024 then Inl PayloadTooLarge
     else Inr \<lparr>pv_format_version = 1, pv_header = vf_header migrated, pv_header_bytes = hb,
       pv_mode = Encrypted, pv_payload = ct\<rparr>)"
proof -
  obtain ct where ct: "vf_storage migrated = SEncrypted ct" "vh_duress (vf_header migrated) \<noteq> None"
    by (rule enable_duress_ok [OF assms(1)]) simp
  obtain hb where hb: "json_of_header J (vf_header migrated) = Some hb"
    "json_to_header J hb = Some (vf_header migrated)" "length hb \<le> 4096"
    using assms(2) by (auto simp: short_header_json_def)
  have "unat (of_nat (length hb) :: u32) = length hb" using hb(3) by (simp add: unat_of_nat)
  moreover have "unat (u64_of_len (length ct)) = length ct"
    using assms(3) [OF ct(1)] by (simp add: u64_of_len_def unat_of_nat)
  ultimately have e: "encode_vault_storage J probe (vf_header migrated) (vf_storage migrated) 1 =
      Inr (container_layout 1 Encrypted hb ct)"
    using hb ct by (simp add: encode_vault_storage_def serialize_header_json_def container_layout_def word_less_nat_alt)
  have m: "unat MAX_VAULT_CONTAINER_PAYLOAD_LEN = 16 * 1024 * 1024"
    by (simp add: MAX_VAULT_CONTAINER_PAYLOAD_LEN_def)
  have "decode_vault_file J probe' (container_layout 1 Encrypted hb ct) (Some 1) MAX_VAULT_CONTAINER_PAYLOAD_LEN False =
    (if length ct > 16 * 1024 * 1024 then Inl PayloadTooLarge
     else Inr \<lparr>pv_format_version = 1, pv_header = vf_header migrated, pv_header_bytes = hb,
       pv_mode = Encrypted, pv_payload = ct\<rparr>)"
    using decode_layout_eq [OF hb(2,3), of ct Encrypted 1] assms(3) [OF ct(1)] m by simp
  then show ?thesis using ct e by (intro exI [of _ ct] exI [of _ hb]) simp
qed

text \<open>Both migration targets: no assertion fails, and they pass exactly when a vault was created and migrated
  and the new container is within the reader's cap.\<close>

lemma migration_targets_exact:
  assumes "\<And>legacy migrated. create_encrypted_vault J C rnd new_id PRIMARY_PW p1 1 fuzz_kdf_policy = Inr legacy \<Longrightarrow>
      enable_duress_on_vault J C rnd' legacy PRIMARY_PW DECOY_PW p2 fuzz_kdf_policy = Inr migrated \<Longrightarrow>
      short_header_json J (vf_header migrated) \<and> (\<forall>ct. vf_storage migrated = SEncrypted ct \<longrightarrow> length ct < 2 ^ 63)"
  shows "(\<exists>decoded. migrate_and_decode J C rnd rnd' probe probe' new_id p1 p2 = Inr decoded) \<longleftrightarrow>
      (\<exists>legacy migrated ct. create_encrypted_vault J C rnd new_id PRIMARY_PW p1 1 fuzz_kdf_policy = Inr legacy \<and>
        enable_duress_on_vault J C rnd' legacy PRIMARY_PW DECOY_PW p2 fuzz_kdf_policy = Inr migrated \<and>
        vf_storage migrated = SEncrypted ct \<and> length ct \<le> 16 * 1024 * 1024)"
    and "migrate_and_decode J C rnd rnd' probe probe' new_id p1 p2 = Inr decoded \<Longrightarrow> vh_duress (pv_header decoded) \<noteq> None"
proof -
  let ?create = "create_encrypted_vault J C rnd new_id PRIMARY_PW p1 1 fuzz_kdf_policy"
  let ?enable = "\<lambda>legacy. enable_duress_on_vault J C rnd' legacy PRIMARY_PW DECOY_PW p2 fuzz_kdf_policy"
  have run: "\<exists>ct hb. vf_storage migrated = SEncrypted ct \<and> vh_duress (vf_header migrated) \<noteq> None \<and>
      migrate_and_decode J C rnd rnd' probe probe' new_id p1 p2 =
        (if length ct > 16 * 1024 * 1024 then Inl PayloadTooLarge
         else Inr \<lparr>pv_format_version = 1, pv_header = vf_header migrated, pv_header_bytes = hb,
           pv_mode = Encrypted, pv_payload = ct\<rparr>)"
    if "?create = Inr legacy" "?enable legacy = Inr migrated" for legacy migrated
    using migrated_file [OF that(2), of probe probe'] assms [OF that] that
    by (simp add: migrate_and_decode_def)
  have none: "\<exists>e. migrate_and_decode J C rnd rnd' probe probe' new_id p1 p2 = Inl e"
    if "\<nexists>legacy migrated. ?create = Inr legacy \<and> ?enable legacy = Inr migrated"
    using that by (cases ?create; cases "?enable (projr ?create)") (auto simp: migrate_and_decode_def)
  show "(\<exists>decoded. migrate_and_decode J C rnd rnd' probe probe' new_id p1 p2 = Inr decoded) \<longleftrightarrow>
      (\<exists>legacy migrated ct. ?create = Inr legacy \<and> ?enable legacy = Inr migrated \<and>
        vf_storage migrated = SEncrypted ct \<and> length ct \<le> 16 * 1024 * 1024)"
  proof (cases "\<exists>legacy migrated. ?create = Inr legacy \<and> ?enable legacy = Inr migrated")
    case True
    then obtain legacy migrated where m: "?create = Inr legacy" "?enable legacy = Inr migrated" by blast
    from run [OF m] obtain ct hb where "vf_storage migrated = SEncrypted ct"
      "migrate_and_decode J C rnd rnd' probe probe' new_id p1 p2 =
        (if length ct > 16 * 1024 * 1024 then Inl PayloadTooLarge
         else Inr \<lparr>pv_format_version = 1, pv_header = vf_header migrated, pv_header_bytes = hb,
           pv_mode = Encrypted, pv_payload = ct\<rparr>)" by blast
    with m show ?thesis by (auto simp: not_less)
  next
    case False
    with none show ?thesis by force
  qed
  assume "migrate_and_decode J C rnd rnd' probe probe' new_id p1 p2 = Inr decoded"
  moreover from this none obtain legacy migrated where "?create = Inr legacy" "?enable legacy = Inr migrated" by force
  ultimately show "vh_duress (pv_header decoded) \<noteq> None" using run by (fastforce split: if_splits)
qed

section \<open>Properties\<close>

definition codec_case :: vault_codec_case where
  "codec_case = \<lparr>vc_use_zero_format_version = False, vc_storage_kind = PlaintextKind, vc_header_material = [1, 2],
     vc_payload = [3, 4], vc_allow_plaintext_decode = True\<rparr>"

lemma short_toy_header: "short_header_json (toy_json h ds) h"
  by (simp add: short_header_json_def toy_json_def)

text \<open>The two codec targets never fail an assertion: what was encoded and is accepted has the version, the
  schema, the mode and the payload that went in, for every input. They leave early exactly on version 0,
  on a payload beyond 16 MiB, and on plaintext that the caller does not allow or that either side of the
  codec sees in a runtime that is not inspected as not debugged.\<close>

lemma codec_targets_pass:
  assumes "short_header_json J (build_header new_id data)" and "length data < 2 ^ 63"
    and "short_header_json J' (case_header c)" and "length (vc_payload c) \<le> 256"
  shows "vault_codec_roundtrip J probe probe' new_id data =
      (if data = [] \<or> fuzz_format_version data = 0 \<or> length data > 64 + 16 * 1024 * 1024 \<or>
          hd data AND 1 \<noteq> 0 \<and> \<not> (probe = NotDebugged \<and> probe' = NotDebugged)
       then Returned else Passed) \<and>
    vault_codec_structured J' probe probe' c =
      (if vc_use_zero_format_version c \<or> vc_storage_kind c = PlaintextKind \<and>
          \<not> (vc_allow_plaintext_decode c \<and> probe = NotDebugged \<and> probe' = NotDebugged)
       then Returned else Passed)"
proof
  obtain hb where hb: "json_of_header J (build_header new_id data) = Some hb"
    "json_to_header J hb = Some (build_header new_id data)" "length hb \<le> 4096"
    using assms(1) by (auto simp: short_header_json_def)
  have d: "vh_duress (build_header new_id data) = None" by (simp add: build_header_def fuzz_header_def)
  obtain mode payload where p: "storage_parts (fuzz_storage data) = (mode, payload)" by fastforce
  then have pl: "payload = (if length data > 64 then drop 64 data else [])"
    and k: "is_plaintext_storage (fuzz_storage data) \<longleftrightarrow> data \<noteq> [] \<and> hd data AND 1 \<noteq> 0"
    by (auto simp: fuzz_storage_def Let_def split: if_splits list.splits)
  have l: "length payload < 2 ^ 64" using assms(2) pl by (auto split: if_splits)
  show "vault_codec_roundtrip J probe probe' new_id data =
      (if data = [] \<or> fuzz_format_version data = 0 \<or> length data > 64 + 16 * 1024 * 1024 \<or>
          hd data AND 1 \<noteq> 0 \<and> \<not> (probe = NotDebugged \<and> probe' = NotDebugged)
       then Returned else Passed)"
    using codec_run [OF hb d p l, where allow = True and probe = probe and probe' = probe'] k p pl
    by (cases "fuzz_storage data") (auto simp: vault_codec_roundtrip_def Let_def asserting_def)
next
  obtain hb where hb: "json_of_header J' (case_header c) = Some hb"
    "json_to_header J' hb = Some (case_header c)" "length hb \<le> 4096"
    using assms(3) by (auto simp: short_header_json_def)
  have d: "vh_duress (case_header c) = None" by (simp add: case_header_def fuzz_header_def)
  obtain mode payload where p: "storage_parts (case_storage c) = (mode, payload)" by fastforce
  then have pl: "payload = vc_payload c"
    and k: "is_plaintext_storage (case_storage c) \<longleftrightarrow> vc_storage_kind c = PlaintextKind"
    by (auto simp: case_storage_def split: storage_kind.splits)
  have l: "length payload < 2 ^ 64" using assms(4) pl by simp
  show "vault_codec_structured J' probe probe' c =
      (if vc_use_zero_format_version c \<or> vc_storage_kind c = PlaintextKind \<and>
          \<not> (vc_allow_plaintext_decode c \<and> probe = NotDebugged \<and> probe' = NotDebugged)
       then Returned else Passed)"
    using codec_run [OF hb d p l, where allow = "vc_allow_plaintext_decode c" and probe = probe and probe' = probe']
      k p pl assms(4)
    by (cases "case_storage c") (auto simp: vault_codec_structured_def Let_def asserting_def)
qed

end
