(* ===== verification/Fuzz_Otpauth.thy ===== *)
theory Fuzz_Otpauth
  imports Otpauth Fuzz_Support
begin

text \<open>
  The fuzz targets of \<open>src/core/fuzz/fuzz_targets\<close> on URIs: \<open>otpauth_roundtrip.rs\<close>,
  \<open>otpauth_roundtrip_structured.rs\<close> and \<open>parse_totp_otpauth_uri_structured.rs\<close>, with their assertions
  as outcomes, and the proof that no generated input fails one.
\<close>

section \<open>otpauth\_roundtrip.rs\<close>

definition algorithm_from_byte :: "u8 \<Rightarrow> totp_algorithm" where
  "algorithm_from_byte b = (let k = b mod 3 in if k = 0 then Sha1 else if k = 1 then Sha256 else Sha512)"

definition digits_from_byte :: "u8 \<Rightarrow> u8" where
  "digits_from_byte b = 6 + b mod 3"

definition period_from_byte :: "u8 \<Rightarrow> u32" where
  "period_from_byte b =
    (let k = b mod 5 in if k = 0 then 30 else if k = 1 then 45 else if k = 2 then 60 else if k = 3 then 90 else 120)"

definition title_char :: "u8 \<Rightarrow> rchar" where
  "title_char b =
    (let k = b mod 6 in
     if k = 0 then unat (b mod 26 + 65) else if k = 1 then unat (b mod 26 + 97)
     else if k = 2 then unat (b mod 10 + 48) else if k = 3 then 45 else if k = 4 then 95 else 46)"

definition title_from_bytes :: "bytes \<Rightarrow> rstring" where
  "title_from_bytes data =
    (if data = [] then lit ''FuzzTitle''
     else let out = fold (\<lambda>b out. out @ [title_char b]) (take 24 data) []
       in if out = [] then lit ''FuzzTitle'' else out)"

text \<open>\<open>data.get(i).copied().unwrap_or(0)\<close>\<close>
definition byte_or_0 :: "bytes \<Rightarrow> nat \<Rightarrow> u8" where
  "byte_or_0 data i = (if i < length data then data ! i else 0)"

definition otpauth_roundtrip_target :: "url_lib \<Rightarrow> runtime_inspection_state \<Rightarrow> bytes \<Rightarrow> outcome" where
  "otpauth_roundtrip_target U probe data =
    (let title = title_from_bytes data;
         issuer = title;
         account = lit ''fuzz_account'';
         algorithm = algorithm_from_byte (byte_or_0 data 0);
         digits = digits_from_byte (byte_or_0 data 1);
         period_secs = period_from_byte (byte_or_0 data 2);
         secret = lit ''GEZDGNBVGY3TQOJQGEZDGNBVGY3TQOJQ'';
         totp = \<lparr>ts_issuer = Some issuer, ts_account_name = Some account, ts_secret_b32 = secret,
           ts_digits = digits, ts_period_secs = period_secs, ts_algorithm = algorithm\<rparr>
     in or_return (export_totp_otpauth_uri U title totp) (\<lambda>uri.
        or_return (parse_totp_otpauth_uri U (policy_new probe Primary) uri) (\<lambda>(parsed_title, reparsed).
          asserting (parsed_title = issuer)
          (asserting (ts_issuer reparsed = Some issuer)
          (asserting (ts_account_name reparsed = Some account)
          (asserting (ts_secret_b32 reparsed = secret)
          (asserting (ts_digits reparsed = digits)
          (asserting (ts_period_secs reparsed = period_secs)
          (asserting (ts_algorithm reparsed = algorithm) Passed)))))))))"

section \<open>otpauth\_roundtrip\_structured.rs\<close>

record otp_roundtrip_case =
  rc_title :: rstring
  rc_issuer :: "rstring option"
  rc_account :: "rstring option"
  rc_secret :: rstring
  rc_algorithm :: structured_algorithm
  rc_digits_selector :: u8
  rc_period_selector :: u8

text \<open>Whether the assertions of the two helpers hold; an \<open>expect\<close> of nothing is a failure too.\<close>
fun assert_issuer_roundtrip :: "rstring option \<Rightarrow> totp_secret \<Rightarrow> bool" where
  "assert_issuer_roundtrip (Some expected) parsed =
    (case ts_issuer parsed of None \<Rightarrow> False | Some actual \<Rightarrow> actual = expected)"
| "assert_issuer_roundtrip None parsed = (ts_issuer parsed = None)"

fun assert_account_roundtrip :: "rstring option \<Rightarrow> rstring option \<Rightarrow> totp_secret \<Rightarrow> bool" where
  "assert_account_roundtrip (Some _) (Some expected) parsed =
    (case ts_account_name parsed of None \<Rightarrow> False | Some actual \<Rightarrow> actual = expected)"
| "assert_account_roundtrip (Some _) None parsed = (ts_account_name parsed = None)"
| "assert_account_roundtrip None (Some expected) parsed =
    (case ts_account_name parsed of None \<Rightarrow> True | Some actual \<Rightarrow> actual = expected)"
| "assert_account_roundtrip None None parsed = (ts_account_name parsed = None)"

definition case_title :: "otp_roundtrip_case \<Rightarrow> rstring" where
  "case_title c = (case rc_issuer c of Some issuer \<Rightarrow> issuer | None \<Rightarrow> rc_title c)"

definition case_totp :: "otp_roundtrip_case \<Rightarrow> totp_secret" where
  "case_totp c = \<lparr>ts_issuer = rc_issuer c, ts_account_name = rc_account c, ts_secret_b32 = rc_secret c,
     ts_digits = digits_from_selector (rc_digits_selector c),
     ts_period_secs = period_from_selector (rc_period_selector c),
     ts_algorithm = into_totp (rc_algorithm c)\<rparr>"

definition otpauth_roundtrip_structured ::
    "url_lib \<Rightarrow> runtime_inspection_state \<Rightarrow> otp_roundtrip_case \<Rightarrow> outcome" where
  "otpauth_roundtrip_structured U probe c =
    (let title = case_title c; totp = case_totp c
     in or_return (export_totp_otpauth_uri U title totp) (\<lambda>uri.
        or_return (parse_totp_otpauth_uri U (policy_new probe Primary) uri) (\<lambda>(parsed_title, reparsed).
          asserting (parsed_title = title)
          (asserting (ts_secret_b32 reparsed = rc_secret c)
          (asserting (ts_digits reparsed = ts_digits totp)
          (asserting (ts_period_secs reparsed = ts_period_secs totp)
          (asserting (ts_algorithm reparsed = ts_algorithm totp)
          (asserting (assert_issuer_roundtrip (rc_issuer c) reparsed)
          (asserting (assert_account_roundtrip (rc_issuer c) (rc_account c) reparsed) Passed)))))))))"

section \<open>parse\_totp\_otpauth\_uri\_structured.rs\<close>

datatype scheme_kind = OtpAuthScheme | HttpScheme | GarbageScheme
datatype host_kind = TotpHost | HotpHost | GarbageHost

record otp_uri_case =
  uc_scheme :: scheme_kind
  uc_host :: host_kind
  uc_label_issuer :: "rstring option"
  uc_label_account :: "rstring option"
  uc_bare_label :: rstring
  uc_explicit_issuer :: "rstring option"
  uc_secret :: rstring
  uc_include_secret :: bool
  uc_include_algorithm :: bool
  uc_include_digits :: bool
  uc_include_period :: bool
  uc_algorithm :: structured_algorithm
  uc_digits_selector :: u8
  uc_period_selector :: u8

fun scheme_text :: "scheme_kind \<Rightarrow> rstring" where
  "scheme_text OtpAuthScheme = lit ''otpauth''"
| "scheme_text HttpScheme = lit ''http''"
| "scheme_text GarbageScheme = lit ''not-a-real-scheme''"

fun host_text :: "host_kind \<Rightarrow> rstring" where
  "host_text TotpHost = lit ''totp''"
| "host_text HotpHost = lit ''hotp''"
| "host_text GarbageHost = lit ''garbage''"

fun algorithm_text :: "structured_algorithm \<Rightarrow> rstring" where
  "algorithm_text StructuredSha1 = lit ''SHA1''"
| "algorithm_text StructuredSha256 = lit ''SHA256''"
| "algorithm_text StructuredSha512 = lit ''SHA512''"

definition uri_label :: "otp_uri_case \<Rightarrow> rstring" where
  "uri_label c =
    (case (uc_label_issuer c, uc_label_account c) of
       (Some issuer, Some account) \<Rightarrow> issuer @ 58 # account
     | _ \<Rightarrow> uc_bare_label c)"

text \<open>The pairs \<open>key=value\<close> that are pushed, in their order.\<close>
definition uri_pairs :: "otp_uri_case \<Rightarrow> (rstring \<times> rstring) list" where
  "uri_pairs c =
    (if uc_include_secret c then [(lit ''secret'', uc_secret c)] else []) @
    (case uc_explicit_issuer c of Some issuer \<Rightarrow> [(lit ''issuer'', issuer)] | None \<Rightarrow> []) @
    (if uc_include_algorithm c then [(lit ''algorithm'', algorithm_text (uc_algorithm c))] else []) @
    (if uc_include_digits c
     then [(lit ''digits'', dec_digits (unat (digits_from_selector (uc_digits_selector c))))] else []) @
    (if uc_include_period c
     then [(lit ''period'', dec_digits (unat (period_from_selector (uc_period_selector c))))] else [])"

definition pair_text :: "rstring \<times> rstring \<Rightarrow> rstring" where
  "pair_text kv = fst kv @ 61 # snd kv"

definition build_uri :: "otp_uri_case \<Rightarrow> rstring" where
  "build_uri c =
    (let query = map pair_text (uri_pairs c);
         uri = scheme_text (uc_scheme c) @ lit ''://'' @ host_text (uc_host c) @ lit ''/'' @ uri_label c
     in if query \<noteq> [] then uri @ 63 # join_with 38 query else uri)"

text \<open>The target discards the result of the parser; it is kept here.\<close>
definition parse_structured ::
    "url_lib \<Rightarrow> runtime_inspection_state \<Rightarrow> otp_uri_case \<Rightarrow> otpauth_error + rstring \<times> totp_secret" where
  "parse_structured U probe c = parse_totp_otpauth_uri U (policy_new probe Primary) (build_uri c)"

section \<open>What the targets rely on of the crate url\<close>

text \<open>The segments \<open>.\<close> and \<open>..\<close> of a path vanish also when they are percent-encoded.\<close>
definition url_removes_dots :: "url_lib \<Rightarrow> bool" where
  "url_removes_dots U \<longleftrightarrow>
    (\<forall>label query url. dot_label label \<longrightarrow> query \<noteq> [] \<longrightarrow>
       list_all (\<lambda>(k, v). k \<noteq> [] \<and> scalars k \<and> scalars v) query \<longrightarrow>
       url_parse U (lit ''otpauth://totp/'' @ utf8_percent_encode U label @ 63 # query_string U query) = Some url \<longrightarrow>
       set (url_path url) \<subseteq> {47})"

text \<open>The characters of a label and of a query value that stand for themselves.\<close>
definition plain_label_chars :: "rstring \<Rightarrow> bool" where
  "plain_label_chars s \<longleftrightarrow> set s \<subseteq> insert 58 (set ACCOUNT_ALPHABET)"

definition plain_query_chars :: "rstring \<Rightarrow> bool" where
  "plain_query_chars s \<longleftrightarrow> set s \<subseteq> set DISPLAY_ALPHABET"

text \<open>A URI of plain characters reads as it is written, apart from the segments \<open>.\<close> and \<open>..\<close>.\<close>
definition url_reads_plain :: "url_lib \<Rightarrow> bool" where
  "url_reads_plain U \<longleftrightarrow>
    (\<forall>s. plain_label_chars s \<longrightarrow> percent_decode_utf8 U s = Some s) \<and>
    (\<forall>scheme host label query. plain_label_chars label \<longrightarrow>
       list_all (\<lambda>(k, v). k \<noteq> [] \<and> plain_query_chars k \<and> plain_query_chars v) query \<longrightarrow>
       (\<exists>path. url_parse U (scheme_text scheme @ lit ''://'' @ host_text host @ lit ''/'' @ label @
             (if query = [] then [] else 63 # join_with 38 (map pair_text query))) =
           Some \<lparr>url_scheme = scheme_text scheme, url_host_str = Some (host_text host), url_path = path,
             url_query_pairs = query\<rparr> \<and>
         (if dot_label label then set path \<subseteq> {47} else path = 47 # label)))"

section \<open>Generated texts are plain labels\<close>

lemma alphabet_ranges:
  "ACCOUNT_ALPHABET = DISPLAY_ALPHABET @ [64, 43]"
  "list_all (\<lambda>c. 43 \<le> c \<and> c \<le> 122 \<and> c \<noteq> 47 \<and> c \<noteq> 58 \<and> c \<noteq> 63) ACCOUNT_ALPHABET"
  "list_all (\<lambda>c. (65 \<le> c \<and> c \<le> 90) \<or> (50 \<le> c \<and> c \<le> 55)) BASE32_ALPHABET"
  by (simp_all add: ACCOUNT_ALPHABET_def DISPLAY_ALPHABET_def BASE32_ALPHABET_def lit_def)

lemma account_char:
  assumes "c \<in> set ACCOUNT_ALPHABET"
  shows "is_scalar c \<and> is_ascii_char c \<and> displayable c \<and> \<not> is_whitespace c \<and> c \<notin> {37, 47, 58, 63} \<and>
    \<not> is_cyrillic c \<and> \<not> is_greek c"
proof -
  have "43 \<le> c \<and> c \<le> 122 \<and> c \<noteq> 47 \<and> c \<noteq> 58 \<and> c \<noteq> 63"
    using alphabet_ranges(2) assms by (simp add: list_all_iff)
  then show ?thesis
    by (auto simp: is_scalar_def is_ascii_char_def displayable_def is_control_def is_bidi_control_def
        is_zero_width_def is_whitespace_def is_cyrillic_def is_greek_def)
qed

lemma display_account: "set DISPLAY_ALPHABET \<subseteq> set ACCOUNT_ALPHABET"
  by (auto simp: alphabet_ranges(1))

lemma plain_drawn:
  assumes "drawn_string lo hi alphabet s" and "set alphabet \<subseteq> set ACCOUNT_ALPHABET" and "0 < lo" and "hi \<le> n"
  shows "plain_label n s" and "58 \<notin> set s" and "scalars s" and "str_len s \<le> hi"
proof -
  have s: "c \<in> set s \<Longrightarrow> c \<in> set ACCOUNT_ALPHABET" for c using assms(1,2) by (auto simp: drawn_string_def)
  note c = account_char [OF s]
  show "58 \<notin> set s" "scalars s" using c by (auto simp: list_all_iff)
  have "is_ascii s" using c by (simp add: is_ascii_def list_all_iff)
  then show l: "str_len s \<le> hi" using assms(1) by (simp add: str_len_ascii drawn_string_def)
  have ne: "s \<noteq> []" using assms(1,3) by (auto simp: drawn_string_def)
  then have "trim s = s" using c by (intro trim_id) simp
  with ne l c assms(4) show "plain_label n s"
    by (auto simp: plain_label_def safe_text_def unmixed_def list_all_iff list_ex_iff)
qed

lemma plain_display:
  assumes "safe_display s"
  shows "plain_label 256 s" "58 \<notin> set s" "scalars s" "str_len s \<le> 24"
  using plain_drawn [OF assms display_account, of 256] by simp_all

lemma plain_account:
  assumes "safe_account s"
  shows "plain_label 320 s" "scalars s" "str_len s \<le> 32"
  using plain_drawn [OF assms order_refl, of 320] by simp_all

lemma drawn_secret:
  assumes "base32_secret s"
  shows "list_all is_b32_char s" "61 \<notin> set s" "s \<noteq> []" "length s \<le> 64" "str_len s = length s"
proof -
  show b: "list_all is_b32_char s" "61 \<notin> set s"
    using assms alphabet_ranges(3) by (fastforce simp: drawn_string_def list_all_iff is_b32_char_def)+
  show "s \<noteq> []" "length s \<le> 64" using assms by (auto simp: drawn_string_def)
  show "str_len s = length s" by (rule str_len_ascii [OF b32_is_ascii [OF b(1)]])
qed

section \<open>The round trips\<close>

lemma str_len_digits: "n < 10 ^ Suc k \<Longrightarrow> str_len (dec_digits n) \<le> Suc k"
proof -
  have "is_ascii (dec_digits n)"
    using dec_digits_digit [of n] by (auto simp: is_ascii_def is_ascii_char_def list_all_iff is_digit_def)
  then show "n < 10 ^ Suc k \<Longrightarrow> str_len (dec_digits n) \<le> Suc k"
    using length_dec_digits [of n k] by (simp add: str_len_ascii)
qed

lemma query_lengths:
  "str_len (lit ''secret'') = 6" "str_len (lit ''algorithm'') = 9" "str_len (lit ''digits'') = 6"
  "str_len (lit ''period'') = 6" "str_len (lit ''issuer'') = 6" "str_len (algorithm_name a) \<le> 6"
  by (cases a; simp add: str_len_def char_len_def lit_def)+

text \<open>An exported URI of short texts is far below the limit of the parser.\<close>

lemma short_export_parses:
  assumes "url_lib_correct U" and "url_encode_bound U" and "exportable title t"
    and "str_len (label_text title (ts_issuer t) (ts_account_name t)) \<le> 60"
    and "length (ts_secret_b32 t) \<le> 64" and "\<And>i. ts_issuer t = Some i \<Longrightarrow> str_len i \<le> 24"
  shows "parse_totp_otpauth_uri U (policy_new NotDebugged Primary) (export_uri U title t) =
    Inr (exported_title title t, exported_totp t)"
proof -
  have t: "totp_params_ok t" using assms(3) by (simp add: exportable_def)
  have "str_len (bare_secret t) \<le> 64"
    using str_len_ascii [OF b32_is_ascii [OF b32_bare [OF t]]] length_trim_end [of "\<lambda>c. c = 61" "ts_secret_b32 t"]
      assms(5) by (simp add: bare_secret_def)
  moreover have "str_len (dec_digits (unat (ts_digits t))) \<le> 3"
    using unat_u8_less [of "ts_digits t"] by (intro str_len_digits [where k = 2, simplified]) simp
  moreover have "str_len (dec_digits (unat (ts_period_secs t))) \<le> 3"
    using t by (intro str_len_digits [where k = 2, simplified]) (auto simp: totp_params_ok_def word_le_nat_alt)
  moreover have "(case ts_issuer t of None \<Rightarrow> 0 | Some i \<Rightarrow> str_len i) \<le> 24"
    using assms(6) by (cases "ts_issuer t") auto
  ultimately have "str_len (export_uri U title t) \<le> 4096"
    using export_uri_len [OF assms(2), of title t] query_lengths(6) [of "ts_algorithm t"] assms(4)
    by (cases "ts_issuer t") (simp_all add: export_query_def query_lengths(1-5))
  then show ?thesis
    by (intro exported_reads_back [OF assms(1,3)]) (simp add: policy_new_def trusted_posture_def)
qed

lemma dots_not_parsed:
  assumes "url_removes_dots U" and "totp_params_ok t" and "text_scalars title t"
    and "dot_label (label_text title (ts_issuer t) (ts_account_name t))"
  shows "\<exists>e. parse_totp_otpauth_uri U policy (export_uri U title t) = Inl e"
proof (rule ccontr)
  assume "\<not> ?thesis"
  then obtain v where "parse_totp_otpauth_uri U policy (export_uri U title t) = Inr v"
    by (cases "parse_totp_otpauth_uri U policy (export_uri U title t)") auto
  then obtain url where url: "url_parse U (export_uri U title t) = Some url"
    "dropWhile (\<lambda>c. c = 47) (url_path url) \<noteq> []"
    by (cases v) (auto simp: parse_otpauth_iff simp del: dropWhile_eq_Nil_conv)
  have "export_query t \<noteq> []" by (simp add: export_query_def)
  then have "set (url_path url) \<subseteq> {47}"
    using assms(1,4) scalars_query [OF assms(3,2)] url(1) unfolding url_removes_dots_def export_uri_def by blast
  then show False using url(2) by auto
qed

lemma untrusted_not_parsed:
  "probe \<noteq> NotDebugged \<Longrightarrow> parse_totp_otpauth_uri U (policy_new probe Primary) uri = Inl OtpInvalidParams"
  by (simp add: parse_totp_otpauth_uri_def policy_new_def trusted_posture_def)

text \<open>The secrets the targets export: texts from the generators, the title being the issuer if there is one.\<close>
definition drawn_totp :: "rstring \<Rightarrow> totp_secret \<Rightarrow> bool" where
  "drawn_totp title t \<longleftrightarrow> safe_display title \<and> pred_option safe_display (ts_issuer t) \<and>
     pred_option safe_account (ts_account_name t) \<and> base32_secret (ts_secret_b32 t) \<and>
     ts_digits t \<in> {6, 7, 8} \<and> 10 \<le> ts_period_secs t \<and> ts_period_secs t \<le> 120 \<and>
     (case ts_issuer t of None \<Rightarrow> True | Some i \<Rightarrow> title = i)"

abbreviation totp_label :: "rstring \<Rightarrow> totp_secret \<Rightarrow> rstring" where
  "totp_label title t \<equiv> label_text title (ts_issuer t) (ts_account_name t)"

lemma no_padding: "61 \<notin> set s \<Longrightarrow> trim_end_with (\<lambda>c. c = 61) s = s"
  by (cases s rule: rev_cases) (auto intro: trim_end_with_id)

lemma drawn_totp_ok:
  assumes "drawn_totp title t"
  shows "totp_params_ok t" "bare_secret t = ts_secret_b32 t" "ts_secret_b32 t \<noteq> []" "length (ts_secret_b32 t) \<le> 64"
    "safe_display title" "text_scalars title t" "str_len (totp_label title t) \<le> 60"
    "exported_title title t = title"
proof -
  have s: "base32_secret (ts_secret_b32 t)" using assms by (simp add: drawn_totp_def)
  show "totp_params_ok t" "ts_secret_b32 t \<noteq> []" "length (ts_secret_b32 t) \<le> 64"
    using drawn_secret [OF s] assms by (auto simp: totp_params_ok_def drawn_totp_def)
  show "bare_secret t = ts_secret_b32 t"
    using drawn_secret(2) [OF s] by (simp add: bare_secret_def no_padding)
  show t: "safe_display title" using assms by (simp add: drawn_totp_def)
  have i: "safe_display i" if "ts_issuer t = Some i" for i using assms that by (simp add: drawn_totp_def)
  have a: "safe_account a" if "ts_account_name t = Some a" for a using assms that by (simp add: drawn_totp_def)
  show "text_scalars title t"
    using i a plain_display(3) plain_account(2) plain_display(3) [OF t]
    by (cases "ts_issuer t"; cases "ts_account_name t") (simp_all add: text_scalars_def)
  show "exported_title title t = title"
    using assms by (auto simp: exported_title_def drawn_totp_def split: option.splits)
  show "str_len (totp_label title t) \<le> 60"
  proof (cases "ts_issuer t = None \<or> ts_account_name t = None")
    case True
    then have "totp_label title t = title" by (auto simp: label_text_def split: option.splits)
    with plain_display(4) [OF t] show ?thesis by simp
  next
    case False
    then obtain x y where xy: "ts_issuer t = Some x" "ts_account_name t = Some y" by auto
    with plain_display(4) [OF i] plain_account(3) [OF a] have "str_len x \<le> 24" "str_len y \<le> 32" by simp_all
    with xy show ?thesis by (simp add: label_text_def char_len_def)
  qed
qed

lemma drawn_exportable:
  assumes "drawn_totp title t" and "\<not> dot_label (totp_label title t)"
  shows "exportable title t"
proof -
  have i: "plain_label 256 i \<and> 58 \<notin> set i" if "ts_issuer t = Some i" for i
    using assms(1) that plain_display(1,2) by (auto simp: drawn_totp_def)
  have a: "plain_label 320 a" if "ts_account_name t = Some a" for a
    using assms(1) that plain_account(1) by (auto simp: drawn_totp_def)
  have "plain_label 256 title \<and> 58 \<notin> set title"
    using plain_display(1,2) [OF drawn_totp_ok(5) [OF assms(1)]] by simp
  then show ?thesis
    using drawn_totp_ok(1-3,6) [OF assms(1)] i a assms(2)
    by (auto simp: exportable_def label_text_def plain_label_def split: option.splits)
qed

text \<open>What both targets run: the export succeeds, and the URI is read back or refused.\<close>

lemma drawn_roundtrip:
  assumes "url_lib_correct U" and "url_encode_bound U" and "url_removes_dots U" and "drawn_totp title t"
  shows "export_totp_otpauth_uri U title t = Inr (export_uri U title t)"
    and "probe = NotDebugged \<and> \<not> dot_label (totp_label title t) \<Longrightarrow>
      parse_totp_otpauth_uri U (policy_new probe Primary) (export_uri U title t) = Inr (title, exported_totp t)"
    and "\<not> (probe = NotDebugged \<and> \<not> dot_label (totp_label title t)) \<Longrightarrow>
      \<exists>e. parse_totp_otpauth_uri U (policy_new probe Primary) (export_uri U title t) = Inl e"
proof -
  note t = drawn_totp_ok [OF assms(4)]
  show "export_totp_otpauth_uri U title t = Inr (export_uri U title t)"
    using export_otpauth_eq [OF t(1)] t(2,3) by simp
  have i: "str_len i \<le> 24" if "ts_issuer t = Some i" for i
    using assms(4) plain_display(4) that by (auto simp: drawn_totp_def)
  show "parse_totp_otpauth_uri U (policy_new probe Primary) (export_uri U title t) = Inr (title, exported_totp t)"
    if "probe = NotDebugged \<and> \<not> dot_label (totp_label title t)"
    using short_export_parses [OF assms(1,2) drawn_exportable [OF assms(4)] t(7,4) i] that t(8) by simp
  show "\<exists>e. parse_totp_otpauth_uri U (policy_new probe Primary) (export_uri U title t) = Inl e"
    if "\<not> (probe = NotDebugged \<and> \<not> dot_label (totp_label title t))"
    using that untrusted_not_parsed dots_not_parsed [OF assms(3) t(1,6)] by blast
qed

text \<open>The cases the generators give.\<close>
definition roundtrip_case_ok :: "otp_roundtrip_case \<Rightarrow> bool" where
  "roundtrip_case_ok c \<longleftrightarrow> safe_display (rc_title c) \<and> pred_option safe_display (rc_issuer c) \<and>
     pred_option safe_account (rc_account c) \<and> base32_secret (rc_secret c)"

definition case_label :: "otp_roundtrip_case \<Rightarrow> rstring" where
  "case_label c = label_text (case_title c) (rc_issuer c) (rc_account c)"

lemma drawn_case: "roundtrip_case_ok c \<Longrightarrow> drawn_totp (case_title c) (case_totp c)"
  using digits_from_selector_ok period_from_selector_ok
  by (auto simp: roundtrip_case_ok_def drawn_totp_def case_totp_def case_title_def split: option.splits)

lemma structured_run:
  assumes "url_lib_correct U" and "url_encode_bound U" and "url_removes_dots U" and "roundtrip_case_ok c"
  shows "otpauth_roundtrip_structured U probe c =
    (if probe = NotDebugged \<and> \<not> dot_label (case_label c) then Passed else Returned)"
proof -
  have l: "totp_label (case_title c) (case_totp c) = case_label c" by (simp add: case_totp_def case_label_def)
  have s: "bare_secret (case_totp c) = rc_secret c" using drawn_totp_ok(2) [OF drawn_case [OF assms(4)]] by (simp add: case_totp_def)
  note r = drawn_roundtrip [OF assms(1-3) drawn_case [OF assms(4)], unfolded l]
  note run = otpauth_roundtrip_structured_def Let_def or_return_def r(1) sum.case
  show ?thesis
  proof (cases "probe = NotDebugged \<and> \<not> dot_label (case_label c)")
    case True
    have sel: "ts_issuer (exported_totp (case_totp c)) = rc_issuer c"
      "ts_account_name (exported_totp (case_totp c)) = (if rc_issuer c = None then None else rc_account c)"
      "ts_secret_b32 (exported_totp (case_totp c)) = rc_secret c"
      "ts_digits (exported_totp (case_totp c)) = ts_digits (case_totp c)"
      "ts_period_secs (exported_totp (case_totp c)) = ts_period_secs (case_totp c)"
      "ts_algorithm (exported_totp (case_totp c)) = ts_algorithm (case_totp c)"
      using s by (simp_all add: exported_totp_def) (auto simp: case_totp_def)
    show ?thesis
      unfolding run r(2) [OF True] prod.case sel
      using True by (cases "rc_issuer c"; cases "rc_account c") (simp_all add: asserting_def sel)
  next
    case False
    with r(3) obtain e where e: "parse_totp_otpauth_uri U (policy_new probe Primary)
        (export_uri U (case_title c) (case_totp c)) = Inl e" by blast
    show ?thesis unfolding run e using False by auto
  qed
qed

lemma title_char_display: "title_char b \<in> set DISPLAY_ALPHABET"
proof -
  have n: "unat (b mod 26 + 65) = unat b mod 26 + 65" "unat (b mod 26 + 97) = unat b mod 26 + 97"
    "unat (b mod 10 + 48) = unat b mod 10 + 48"
    by (simp_all add: unat_word_ariths unat_mod)
  have "\<forall>k < 26. k + 65 \<in> set DISPLAY_ALPHABET \<and> k + 97 \<in> set DISPLAY_ALPHABET" "\<forall>k < 10. k + 48 \<in> set DISPLAY_ALPHABET"
    "45 \<in> set DISPLAY_ALPHABET" "95 \<in> set DISPLAY_ALPHABET" "46 \<in> set DISPLAY_ALPHABET"
    by (simp_all add: All_less_Suc numeral_eq_Suc DISPLAY_ALPHABET_def lit_def)
  then show ?thesis by (simp add: title_char_def Let_def n)
qed

lemma drawn_title: "safe_display (title_from_bytes data)"
proof -
  have f: "fold (\<lambda>b out. out @ [title_char b]) bs out = out @ map title_char bs" for bs out
    by (induction bs arbitrary: out) auto
  have "safe_display (lit ''FuzzTitle'')"
    by (simp add: drawn_string_def DISPLAY_ALPHABET_def lit_def)
  then show ?thesis
    using title_char_display by (auto simp: title_from_bytes_def f drawn_string_def Suc_le_eq)
qed

lemma byte_choices: "digits_from_byte b \<in> {6, 7, 8}" "10 \<le> period_from_byte c \<and> period_from_byte c \<le> 120"
proof -
  have "b mod 3 < 3" by (simp add: word_mod_less_divisor)
  then have "unat (b mod 3) < 3" by (simp add: word_less_nat_alt)
  then have "b mod 3 = 0 \<or> b mod 3 = 1 \<or> b mod 3 = 2" by (auto simp: word_unat_eq_iff)
  then show "digits_from_byte b \<in> {6, 7, 8}" by (auto simp: digits_from_byte_def)
  show "10 \<le> period_from_byte c \<and> period_from_byte c \<le> 120" by (simp add: period_from_byte_def Let_def)
qed

lemma unstructured_run:
  assumes "url_lib_correct U" and "url_encode_bound U" and "url_removes_dots U"
  shows "otpauth_roundtrip_target U probe data = (if probe = NotDebugged then Passed else Returned)"
proof -
  let ?title = "title_from_bytes data"
  define t where "t = \<lparr>ts_issuer = Some ?title, ts_account_name = Some (lit ''fuzz_account''),
    ts_secret_b32 = lit ''GEZDGNBVGY3TQOJQGEZDGNBVGY3TQOJQ'', ts_digits = digits_from_byte (byte_or_0 data 1),
    ts_period_secs = period_from_byte (byte_or_0 data 2), ts_algorithm = algorithm_from_byte (byte_or_0 data 0)\<rparr>"
  have "safe_account (lit ''fuzz_account'')" "base32_secret (lit ''GEZDGNBVGY3TQOJQGEZDGNBVGY3TQOJQ'')"
    by (simp_all add: drawn_string_def ACCOUNT_ALPHABET_def BASE32_ALPHABET_def lit_def)
  then have d: "drawn_totp ?title t" using drawn_title byte_choices by (simp add: drawn_totp_def t_def)
  have l: "\<not> dot_label (totp_label ?title t)"
    by (auto simp: t_def label_text_def dot_label_def lit_def append_eq_Cons_conv)
  note r = drawn_roundtrip [OF assms d]
  have run: "otpauth_roundtrip_target U probe data =
      or_return (parse_totp_otpauth_uri U (policy_new probe Primary) (export_uri U ?title t))
        (\<lambda>(parsed_title, reparsed).
          asserting (parsed_title = ?title)
          (asserting (ts_issuer reparsed = ts_issuer t)
          (asserting (ts_account_name reparsed = ts_account_name t)
          (asserting (ts_secret_b32 reparsed = ts_secret_b32 t)
          (asserting (ts_digits reparsed = ts_digits t)
          (asserting (ts_period_secs reparsed = ts_period_secs t)
          (asserting (ts_algorithm reparsed = ts_algorithm t) Passed)))))))"
    using r(1) by (simp only: otpauth_roundtrip_target_def Let_def t_def or_return_def sum.case totp_secret.simps)
  show ?thesis
  proof (cases "probe = NotDebugged")
    case True
    have "exported_totp t = t" using drawn_totp_ok(2) [OF d] by (simp add: exported_totp_def) (simp add: t_def)
    with r(2) True l show ?thesis unfolding run by (simp add: or_return_def asserting_def)
  next
    case False
    with r(3) obtain e where "parse_totp_otpauth_uri U (policy_new probe Primary) (export_uri U ?title t) = Inl e" by blast
    with False show ?thesis unfolding run by (simp add: or_return_def)
  qed
qed

section \<open>The generated URIs\<close>

definition uri_case_ok :: "otp_uri_case \<Rightarrow> bool" where
  "uri_case_ok c \<longleftrightarrow> pred_option safe_display (uc_label_issuer c) \<and> pred_option safe_account (uc_label_account c) \<and>
     safe_display (uc_bare_label c) \<and> pred_option safe_display (uc_explicit_issuer c) \<and> base32_secret (uc_secret c)"

definition uri_query :: "otp_uri_case \<Rightarrow> otp_query" where
  "uri_query c = \<lparr>q_secret_b32 = (if uc_include_secret c then Some (uc_secret c) else None),
     q_issuer_param = uc_explicit_issuer c,
     q_algorithm = (if uc_include_algorithm c then into_totp (uc_algorithm c) else Sha1),
     q_digits = (if uc_include_digits c then digits_from_selector (uc_digits_selector c) else 6),
     q_period_secs = (if uc_include_period c then period_from_selector (uc_period_selector c) else 30)\<rparr>"

lemma read_uri_pairs: "read_pairs (uri_pairs c) 0 default_query = Inr (uri_query c)"
proof -
  let ?d = "digits_from_selector (uc_digits_selector c)" and ?p = "period_from_selector (uc_period_selector c)"
  have d: "parse_uint 255 (dec_digits (unat ?d)) = Some (unat ?d)"
    using unat_u8_less [of ?d] by (intro parse_dec_digits) simp
  have p: "parse_uint 4294967295 (dec_digits (unat ?p)) = Some (unat ?p)"
    using unat_u32_less [of ?p] by (intro parse_dec_digits) simp
  have a: "parse_algorithm (algorithm_text x) = Some (into_totp x)" for x
    by (cases x) (simp_all add: parse_algorithm_def lit_def)
  show ?thesis
    by (cases "uc_include_secret c"; cases "uc_explicit_issuer c"; cases "uc_include_algorithm c";
        cases "uc_include_digits c"; cases "uc_include_period c")
       (simp_all add: uri_pairs_def uri_query_def query_keys a [unfolded lit_def] d p)
qed

lemma build_uri_eq:
  "build_uri c = scheme_text (uc_scheme c) @ lit ''://'' @ host_text (uc_host c) @ lit ''/'' @ uri_label c @
     (if uri_pairs c = [] then [] else 63 # join_with 38 (map pair_text (uri_pairs c)))"
  by (simp add: build_uri_def Let_def)

lemma digits_display: "plain_query_chars (dec_digits n)"
proof -
  have "\<forall>k < 10. k + 48 \<in> set DISPLAY_ALPHABET"
    by (simp add: All_less_Suc numeral_eq_Suc DISPLAY_ALPHABET_def lit_def)
  then have "is_digit c \<Longrightarrow> c \<in> set DISPLAY_ALPHABET" for c
    by (auto simp: is_digit_def dest: spec [of _ "c - 48"])
  then show ?thesis using dec_digits_digit [of n] by (auto simp: plain_query_chars_def list_all_iff)
qed

lemma uri_pairs_plain:
  assumes "uri_case_ok c"
  shows "list_all (\<lambda>(k, v). k \<noteq> [] \<and> plain_query_chars k \<and> plain_query_chars v) (uri_pairs c)"
proof -
  have l: "plain_query_chars (lit ''secret'')" "plain_query_chars (lit ''issuer'')" "plain_query_chars (lit ''algorithm'')"
    "plain_query_chars (lit ''digits'')" "plain_query_chars (lit ''period'')"
    by (simp_all add: plain_query_chars_def DISPLAY_ALPHABET_def lit_def)
  have a: "plain_query_chars (algorithm_text x)" for x
    by (cases x) (simp_all add: plain_query_chars_def DISPLAY_ALPHABET_def lit_def)
  have "set BASE32_ALPHABET \<subseteq> set DISPLAY_ALPHABET" by (simp add: BASE32_ALPHABET_def DISPLAY_ALPHABET_def lit_def)
  then have s: "plain_query_chars (uc_secret c)"
    using assms by (auto simp: uri_case_ok_def drawn_string_def plain_query_chars_def)
  have i: "plain_query_chars i" if "uc_explicit_issuer c = Some i" for i
    using assms that by (auto simp: uri_case_ok_def drawn_string_def plain_query_chars_def)
  have "lit ''secret'' \<noteq> []" "lit ''issuer'' \<noteq> []" "lit ''algorithm'' \<noteq> []" "lit ''digits'' \<noteq> []" "lit ''period'' \<noteq> []"
    by (simp_all add: lit_def)
  with l a s i digits_display show ?thesis
    by (cases "uc_explicit_issuer c") (simp_all add: uri_pairs_def)
qed

lemma uri_label_plain:
  assumes "uri_case_ok c"
  shows "plain_label_chars (uri_label c)"
proof -
  have d: "safe_display s \<Longrightarrow> set s \<subseteq> set ACCOUNT_ALPHABET" "safe_account s \<Longrightarrow> set s \<subseteq> set ACCOUNT_ALPHABET" for s
    using display_account by (auto simp: drawn_string_def)
  show ?thesis
  proof (cases "uc_label_issuer c = None \<or> uc_label_account c = None")
    case True
    then have "uri_label c = uc_bare_label c" by (auto simp: uri_label_def split: option.splits)
    then show ?thesis using assms d(1) by (auto simp: uri_case_ok_def plain_label_chars_def)
  next
    case False
    then obtain i a where "uc_label_issuer c = Some i" "uc_label_account c = Some a" by auto
    moreover from this assms d have "set i \<subseteq> set ACCOUNT_ALPHABET" "set a \<subseteq> set ACCOUNT_ALPHABET"
      by (auto simp: uri_case_ok_def)
    ultimately show ?thesis by (auto simp: uri_label_def plain_label_chars_def)
  qed
qed

lemma plain_ascii:
  assumes "plain_label_chars s"
  shows "is_ascii s" "37 \<notin> set s" "63 \<notin> set s"
proof -
  have "c < 128 \<and> c \<noteq> 37 \<and> c \<noteq> 63" if "c \<in> set s" for c
    using that assms account_char [of c] by (auto simp: plain_label_chars_def is_ascii_char_def)
  then show "is_ascii s" "37 \<notin> set s" "63 \<notin> set s"
    by (auto simp: is_ascii_def list_all_iff is_ascii_char_def)
qed

lemma plain_query_label: "plain_query_chars s \<Longrightarrow> plain_label_chars s"
  using display_account by (auto simp: plain_label_chars_def plain_query_chars_def)

lemma uri_text_len:
  "str_len (scheme_text k) \<le> 17" "str_len (host_text h) \<le> 7" "str_len (lit ''://'') = 3" "str_len (lit ''/'') = 1"
  "str_len (algorithm_text a) \<le> 6"
  by (cases k; cases h; cases a; simp add: str_len_def char_len_def lit_def)+

lemma uri_label_len: "uri_case_ok c \<Longrightarrow> str_len (uri_label c) \<le> 57"
proof -
  assume c: "uri_case_ok c"
  show ?thesis
  proof (cases "uc_label_issuer c = None \<or> uc_label_account c = None")
    case True
    then have "uri_label c = uc_bare_label c" by (auto simp: uri_label_def split: option.splits)
    then show ?thesis using c plain_display(4) [of "uc_bare_label c"] by (simp add: uri_case_ok_def)
  next
    case False
    then obtain i a where x: "uc_label_issuer c = Some i" "uc_label_account c = Some a" by auto
    with c have "str_len i \<le> 24" "str_len a \<le> 32"
      using plain_display(4) plain_account(3) by (auto simp: uri_case_ok_def)
    with x show ?thesis by (simp add: uri_label_def char_len_def)
  qed
qed

lemma build_uri_len:
  assumes "uri_case_ok c"
  shows "str_len (build_uri c) \<le> 4096"
proof -
  let ?d = "digits_from_selector (uc_digits_selector c)" and ?p = "period_from_selector (uc_period_selector c)"
  have "?p \<le> 120" using period_from_selector_ok by blast
  then have "unat ?p < 10 ^ Suc 2" by (simp add: word_le_nat_alt)
  then have p: "str_len (dec_digits (unat ?p)) \<le> 3" using str_len_digits by fastforce
  have "unat ?d < 10 ^ Suc 2" using unat_u8_less [of ?d] by simp
  then have d: "str_len (dec_digits (unat ?d)) \<le> 3" using str_len_digits by fastforce
  have s: "str_len (uc_secret c) \<le> 64" using assms drawn_secret(4,5) by (simp add: uri_case_ok_def)
  have i: "str_len i \<le> 24" if "uc_explicit_issuer c = Some i" for i
    using assms plain_display(4) that by (auto simp: uri_case_ok_def)
  have kv: "str_len (pair_text kv) = str_len (fst kv) + str_len (snd kv) + 1" for kv
    by (simp add: pair_text_def char_len_def)
  note parts = uri_pairs_def kv query_lengths(1-5)
  have "sum_list (map (\<lambda>s. str_len s + 1) (map pair_text (uri_pairs c))) \<le> 400"
    using p d s uri_text_len(5) [of "uc_algorithm c"] i
    by (cases "uc_include_secret c"; cases "uc_explicit_issuer c"; cases "uc_include_algorithm c";
        cases "uc_include_digits c"; cases "uc_include_period c") (simp_all add: parts)
  then have "str_len (join_with 38 (map pair_text (uri_pairs c))) \<le> 400"
    using join_with_len [of "map pair_text (uri_pairs c)"] by linarith
  then show ?thesis
    using uri_text_len(1) [of "uc_scheme c"] uri_text_len(2) [of "uc_host c"] uri_label_len [OF assms]
    by (simp add: build_uri_eq uri_text_len(3,4) char_len_def)
qed

text \<open>The texts the label stands for, and what a successful parse of a case returns.\<close>

definition uri_label_parts :: "otp_uri_case \<Rightarrow> rstring option \<times> rstring option \<times> rstring" where
  "uri_label_parts c =
    (case (uc_label_issuer c, uc_label_account c) of
       (Some issuer, Some account) \<Rightarrow> (Some issuer, Some account, issuer)
     | _ \<Rightarrow> (None, None, uc_bare_label c))"

definition uri_totp_of :: "otp_uri_case \<Rightarrow> totp_secret" where
  "uri_totp_of c = (case uri_label_parts c of (issuer, account, _) \<Rightarrow>
     \<lparr>ts_issuer = option_or (uc_explicit_issuer c) issuer, ts_account_name = account,
      ts_secret_b32 = uc_secret c, ts_digits = q_digits (uri_query c),
      ts_period_secs = q_period_secs (uri_query c), ts_algorithm = q_algorithm (uri_query c)\<rparr>)"

lemma split_uri_label: "uri_case_ok c \<Longrightarrow> split_label (uri_label c) = uri_label_parts c"
proof -
  assume c: "uri_case_ok c"
  have d: "safe_display s \<Longrightarrow> trim s = s \<and> s \<noteq> [] \<and> 58 \<notin> set s" "safe_account s \<Longrightarrow> trim s = s \<and> s \<noteq> []" for s
    using plain_display(1,2) plain_account(1) by (auto simp: plain_label_def safe_text_def)
  show ?thesis
    using c d(1) [of "uc_bare_label c"] d
    by (auto simp: uri_case_ok_def uri_label_def uri_label_parts_def split_plain split_pair split: option.splits)
qed

lemma uri_shown:
  assumes "uri_case_ok c"
  shows "shown_ok (snd (snd (uri_label_parts c))) (uri_totp_of c)"
  using assms plain_display(1) plain_account(1)
  by (cases "uc_explicit_issuer c")
    (auto simp: uri_case_ok_def uri_label_parts_def uri_totp_of_def shown_ok_def plain_label_def split: option.splits)

lemma uri_totp_params: "uri_case_ok c \<Longrightarrow> totp_params_ok (uri_totp_of c)"
  using drawn_secret [of "uc_secret c"] digits_from_selector_ok [of "uc_digits_selector c"]
    period_from_selector_ok [of "uc_period_selector c"]
  by (auto simp: totp_params_ok_def uri_totp_of_def uri_query_def uri_case_ok_def split: prod.splits)

lemma check_shown_passes:
  assumes "shown_ok title t"
  shows "check_shown validate_title title = Inr ()" "check_shown_opt validate_username (ts_account_name t) = Inr ()"
    "check_shown_opt validate_title (ts_issuer t) = Inr ()"
  using assms by (auto simp: shown_ok_def unit_result limits cong: option.case_cong)

lemma structured_parse:
  assumes "url_reads_plain U" and "uri_case_ok c"
  shows "parse_structured U probe c =
    (if probe \<noteq> NotDebugged then Inl OtpInvalidParams
     else if uc_scheme c \<noteq> OtpAuthScheme \<or> uc_host c \<noteq> TotpHost \<or> dot_label (uri_label c) then Inl OtpInvalidUri
     else if \<not> uc_include_secret c then Inl OtpInvalidParams
     else Inr (snd (snd (uri_label_parts c)), uri_totp_of c))"
proof (cases "probe = NotDebugged")
  case True
  let ?l = "uri_label c"
  obtain path where u: "url_parse U (build_uri c) = Some \<lparr>url_scheme = scheme_text (uc_scheme c),
      url_host_str = Some (host_text (uc_host c)), url_path = path, url_query_pairs = uri_pairs c\<rparr>"
    and path: "if dot_label ?l then set path \<subseteq> {47} else path = 47 # ?l"
    using assms(1) uri_label_plain [OF assms(2)] uri_pairs_plain [OF assms(2)]
    unfolding url_reads_plain_def build_uri_eq by blast
  have k: "scheme_text (uc_scheme c) = lit ''otpauth'' \<longleftrightarrow> uc_scheme c = OtpAuthScheme"
    "host_text (uc_host c) = lit ''totp'' \<longleftrightarrow> uc_host c = TotpHost"
    by (cases "uc_scheme c"; simp add: lit_def) (cases "uc_host c"; simp add: lit_def)
  have ne: "build_uri c \<noteq> []" by (simp add: build_uri_eq lit_def)
  have d: "percent_decode_utf8 U ?l = Some ?l"
    using assms(1) uri_label_plain [OF assms(2)] by (simp add: url_reads_plain_def)
  have raw: "dropWhile (\<lambda>c. c = 47) path = (if dot_label ?l then [] else ?l)"
  proof (cases "dot_label ?l")
    case False
    then have "?l \<noteq> []" by (auto simp: dot_label_def)
    moreover have "hd ?l \<noteq> 47"
      using uri_label_plain [OF assms(2)] account_char [of "hd ?l"] \<open>?l \<noteq> []\<close> hd_in_set
      by (fastforce simp: plain_label_chars_def)
    ultimately show ?thesis using False path by (cases ?l) auto
  qed (use path in auto)
  obtain il al title where parts: "uri_label_parts c = (il, al, title)" by (metis prod_cases3)
  have t: "ts_issuer (uri_totp_of c) = option_or (uc_explicit_issuer c) il" "ts_account_name (uri_totp_of c) = al"
    by (simp_all add: uri_totp_of_def parts)
  have v: "totp_secret_validate (uri_totp_of c) = Inr ()"
    using uri_totp_params [OF assms(2)] by (simp add: unit_result)
  have e: "uri_totp_of c = \<lparr>ts_issuer = option_or (uc_explicit_issuer c) il, ts_account_name = al,
      ts_secret_b32 = uc_secret c, ts_digits = q_digits (uri_query c),
      ts_period_secs = q_period_secs (uri_query c), ts_algorithm = q_algorithm (uri_query c)\<rparr>"
    by (simp add: uri_totp_of_def parts)
  note shown = check_shown_passes [OF uri_shown [OF assms(2)], unfolded parts t snd_conv]
  have q: "q_secret_b32 (uri_query c) = (if uc_include_secret c then Some (uc_secret c) else None)"
    "q_issuer_param (uri_query c) = uc_explicit_issuer c" by (simp_all add: uri_query_def)
  have nil: "dot_label []" by (simp add: dot_label_def)
  have a: "allow_otpauth_import (policy_new NotDebugged Primary)" by (simp add: policy_new_def trusted_posture_def)
  show ?thesis
    using True build_uri_len [OF assms(2)] ne nil a d k raw split_uri_label [OF assms(2)]
    by (simp add: parse_structured_def parse_totp_otpauth_uri_def u limits Let_def read_uri_pairs q parts
        shown v [unfolded e] e del: dropWhile_eq_Nil_conv)
qed (simp add: parse_structured_def untrusted_not_parsed)

section \<open>The concrete instance of the crate\<close>

lemma std_removes_dots: "url_removes_dots std_url"
  unfolding url_removes_dots_def
proof (intro allI impI)
  fix label query url
  assume dot: "dot_label label" and q: "query \<noteq> []" "list_all (\<lambda>(k, v). k \<noteq> [] \<and> scalars k \<and> scalars v) query"
    and url: "url_parse std_url (lit ''otpauth://totp/'' @ utf8_percent_encode std_url label @ 63 # query_string std_url query) = Some url"
  have "scalars label" using dot by (auto simp: dot_label_def lit_def is_scalar_def)
  then have "url_path url = 47 # (if label = lit ''.'' \<or> label = lit ''..'' then [] else utf8_percent_encode std_url label)"
    using std_parse_exported [OF _ q] url by force
  moreover have "utf8_percent_encode std_url [] = []" by (simp add: std_url_def pct_encode_def as_bytes_def)
  ultimately show "set (url_path url) \<subseteq> {47}" using dot by (auto simp: dot_label_def)
qed

lemma unpct_plain:
  assumes "plain_label_chars s"
  shows "unpct s = map byte s" "from_utf8 (map byte s) = Some s"
proof -
  have "37 \<notin> set r \<Longrightarrow> unpct r = map byte r" for r by (induction r) auto
  then show "unpct s = map byte s" by (simp add: plain_ascii(2) [OF assms])
  have "as_bytes s = map byte s" by (rule as_bytes_ascii [OF plain_ascii(1) [OF assms]])
  with from_utf8_as_bytes [OF scalars_ascii [OF plain_ascii(1) [OF assms]]]
  show "from_utf8 (map byte s) = Some s" by simp
qed

lemma read_query_plain:
  assumes "query \<noteq> []" and "list_all (\<lambda>(k, v). k \<noteq> [] \<and> plain_query_chars k \<and> plain_query_chars v) query"
  shows "read_query (join_with 38 (map pair_text query)) = query"
proof -
  have d: "38 \<notin> set s \<and> 61 \<notin> set s" if "plain_query_chars s" for s
    using that alphabet_ranges by (auto simp: plain_query_chars_def DISPLAY_ALPHABET_def lit_def)
  have "pieces 38 [] (join_with 38 (map pair_text query)) = map pair_text query"
    using assms d by (intro pieces_join) (auto simp: list_all_iff pair_text_def)
  moreover have "lossy s = s" if "plain_query_chars s" for s
    using unpct_plain [OF plain_query_label [OF that]] by (simp add: lossy_def)
  then have "map (\<lambda>s. case split_once 61 s of Some (k, v) \<Rightarrow> (lossy k, lossy v) | None \<Rightarrow> (lossy s, []))
      (map pair_text query) = query"
    using assms(2) d by (induction query) (auto simp: pair_text_def split_once_append)
  ultimately show ?thesis by (simp only: read_query_def)
qed

lemma std_reads_plain: "url_reads_plain std_url"
  unfolding url_reads_plain_def
proof (intro conjI allI impI)
  fix s
  assume "plain_label_chars s"
  then show "percent_decode_utf8 std_url s = Some s" using unpct_plain by (simp add: std_url_def)
next
  fix k h and l :: rstring and query :: "(rstring \<times> rstring) list"
  assume l: "plain_label_chars l"
    and q: "list_all (\<lambda>(k, v). k \<noteq> [] \<and> plain_query_chars k \<and> plain_query_chars v) query"
  let ?q = "if query = [] then [] else 63 # join_with 38 (map pair_text query)"
  have w: "scheme_text k @ lit ''://'' @ host_text h @ lit ''/'' @ r = scheme_text k @ 58 # 47 # 47 # host_text h @ 47 # r"
    for r by (simp add: lit_def)
  have p: "58 \<notin> set (scheme_text k)" "47 \<notin> set (host_text h)" by (cases k; cases h; simp add: lit_def)+
  have n: "map byte l = [46] \<longleftrightarrow> l = [46]" "map byte l = [46, 46] \<longleftrightarrow> l = [46, 46]"
  proof -
    have "inj_on byte {..<128}" by (rule inj_on_inverseI [where g = unat]) (simp add: unat_byte)
    moreover have "set l \<subseteq> {..<128}" using plain_ascii(1) [OF l] by (auto simp: is_ascii_def is_ascii_char_def list_all_iff)
    ultimately have "map byte l = map byte r \<longleftrightarrow> l = r" if "set r \<subseteq> {..<128}" for r
      using that by (metis inj_on_map_eq_map inj_on_subset Un_least)
    from this [of "[46]"] this [of "[46, 46]"] show "map byte l = [46] \<longleftrightarrow> l = [46]" "map byte l = [46, 46] \<longleftrightarrow> l = [46, 46]"
      by (simp_all add: byte_def)
  qed
  have dot: "dot_segment l \<longleftrightarrow> l = lit ''.'' \<or> l = lit ''..''"
    using unpct_plain [OF l] n by (simp add: dot_segment_def lit_def)
  have "url_parse std_url (scheme_text k @ lit ''://'' @ host_text h @ lit ''/'' @ l @ ?q) =
      Some \<lparr>url_scheme = scheme_text k, url_host_str = Some (host_text h),
        url_path = 47 # (if dot_segment l then [] else l), url_query_pairs = query\<rparr>"
    unfolding w using std_parse_parts [OF p plain_ascii(3) [OF l]] read_query_plain [OF _ q]
    by (simp add: std_url_def)
  then show "\<exists>path. url_parse std_url (scheme_text k @ lit ''://'' @ host_text h @ lit ''/'' @ l @ ?q) =
      Some \<lparr>url_scheme = scheme_text k, url_host_str = Some (host_text h), url_path = path, url_query_pairs = query\<rparr> \<and>
    (if dot_label l then set path \<subseteq> {47} else path = 47 # l)"
    by (auto simp: dot dot_label_def)
qed

section \<open>Properties\<close>

definition demo_case :: otp_roundtrip_case where
  "demo_case = \<lparr>rc_title = lit ''Work'', rc_issuer = None, rc_account = Some (lit ''bob''),
     rc_secret = replicate 16 65, rc_algorithm = StructuredSha256, rc_digits_selector = 4, rc_period_selector = 9\<rparr>"

definition dot_case :: otp_roundtrip_case where
  "dot_case = demo_case\<lparr>rc_issuer := Some (lit ''..''), rc_account := None\<rparr>"

lemma demo_cases_ok: "roundtrip_case_ok demo_case" "roundtrip_case_ok dot_case"
  "\<not> dot_label (case_label demo_case)" "dot_label (case_label dot_case)"
  by (simp_all add: roundtrip_case_ok_def demo_case_def dot_case_def drawn_string_def DISPLAY_ALPHABET_def
      ACCOUNT_ALPHABET_def BASE32_ALPHABET_def case_label_def label_text_def case_title_def dot_label_def lit_def)

definition demo_uri_case :: otp_uri_case where
  "demo_uri_case = \<lparr>uc_scheme = OtpAuthScheme, uc_host = TotpHost, uc_label_issuer = Some (lit ''Acme''),
     uc_label_account = Some (lit ''bob''), uc_bare_label = lit ''x'', uc_explicit_issuer = None,
     uc_secret = replicate 16 65, uc_include_secret = True, uc_include_algorithm = False,
     uc_include_digits = True, uc_include_period = False, uc_algorithm = StructuredSha512,
     uc_digits_selector = 2, uc_period_selector = 0\<rparr>"

lemma demo_uri_case_ok: "uri_case_ok demo_uri_case"
  by (simp add: uri_case_ok_def demo_uri_case_def drawn_string_def DISPLAY_ALPHABET_def
      ACCOUNT_ALPHABET_def BASE32_ALPHABET_def lit_def)

text \<open>C34. The two round-trip targets never fail an assertion, for any input: in a runtime that is inspected
  as not debugged the plain target passes on every byte string, and the structured one on every case of
  its generators but those whose label is \<open>.\<close> or \<open>..\<close>, which the URL standard removes and the parser
  refuses; in any other runtime the import is denied and they leave early.\<close>

theorem otpauth_targets_pass:
  assumes "url_lib_correct U" and "url_encode_bound U" and "url_removes_dots U" and "roundtrip_case_ok c"
  shows "otpauth_roundtrip_target U probe data = (if probe = NotDebugged then Passed else Returned) \<and>
    otpauth_roundtrip_structured U probe c =
      (if probe = NotDebugged \<and> \<not> dot_label (case_label c) then Passed else Returned)"
  using unstructured_run [OF assms(1-3)] structured_run [OF assms] by simp

theorem otpauth_targets_pass_witness:
  "otpauth_roundtrip_target std_url NotDebugged [200, 7] = Passed \<and>
   otpauth_roundtrip_structured std_url NotDebugged demo_case = Passed \<and>
   otpauth_roundtrip_structured std_url NotDebugged dot_case = Returned"
  using otpauth_targets_pass [OF std_url_correct std_url_bound std_removes_dots demo_cases_ok(1), of NotDebugged "[200, 7]"]
    otpauth_targets_pass [OF std_url_correct std_url_bound std_removes_dots demo_cases_ok(2), of NotDebugged]
    demo_cases_ok(3,4) by simp

text \<open>What the parser makes of every generated URI: it is refused as a URI for another scheme or host or
  a label that is a dot segment, refused for its parameters without a secret, and otherwise read as
  written, the explicit issuer before the one of the label and the defaults for what is left out.\<close>

lemma structured_parse_exactly:
  assumes "url_reads_plain U" and "uri_case_ok c"
  shows "parse_structured U probe c =
    (if probe \<noteq> NotDebugged then Inl OtpInvalidParams
     else if uc_scheme c \<noteq> OtpAuthScheme \<or> uc_host c \<noteq> TotpHost \<or> dot_label (uri_label c) then Inl OtpInvalidUri
     else if \<not> uc_include_secret c then Inl OtpInvalidParams
     else Inr (case (uc_label_issuer c, uc_label_account c) of (Some i, Some a) \<Rightarrow> i | _ \<Rightarrow> uc_bare_label c,
       \<lparr>ts_issuer = (case uc_explicit_issuer c of Some i \<Rightarrow> Some i
          | None \<Rightarrow> if uc_label_account c = None then None else uc_label_issuer c),
        ts_account_name = (if uc_label_issuer c = None then None else uc_label_account c),
        ts_secret_b32 = uc_secret c,
        ts_digits = (if uc_include_digits c then digits_from_selector (uc_digits_selector c) else 6),
        ts_period_secs = (if uc_include_period c then period_from_selector (uc_period_selector c) else 30),
        ts_algorithm = (if uc_include_algorithm c then into_totp (uc_algorithm c) else Sha1)\<rparr>))"
proof -
  have "(snd (snd (uri_label_parts c)), uri_totp_of c) =
    (case (uc_label_issuer c, uc_label_account c) of (Some i, Some a) \<Rightarrow> i | _ \<Rightarrow> uc_bare_label c,
       \<lparr>ts_issuer = (case uc_explicit_issuer c of Some i \<Rightarrow> Some i
          | None \<Rightarrow> if uc_label_account c = None then None else uc_label_issuer c),
        ts_account_name = (if uc_label_issuer c = None then None else uc_label_account c),
        ts_secret_b32 = uc_secret c,
        ts_digits = (if uc_include_digits c then digits_from_selector (uc_digits_selector c) else 6),
        ts_period_secs = (if uc_include_period c then period_from_selector (uc_period_selector c) else 30),
        ts_algorithm = (if uc_include_algorithm c then into_totp (uc_algorithm c) else Sha1)\<rparr>)"
    by (cases "uc_label_issuer c"; cases "uc_label_account c"; cases "uc_explicit_issuer c")
       (simp_all add: uri_label_parts_def uri_totp_of_def uri_query_def)
  then show ?thesis using structured_parse [OF assms] by simp
qed

end
