(* ===== verification/Seed_Corpus.thy ===== *)
theory Seed_Corpus
  imports Vault_Life Backup_Cases Storage Fuzz_Otpauth
begin

text \<open>
  \<open>src/core/fuzz/examples/generate_seed_corpus.rs\<close>: the program that writes the seed files of the fuzz
  targets, and what the library makes of the files it calls valid, truncated and damaged. A run
  builds the written files by path; \<open>None\<close> is a failed \<open>expect\<close> or an index out of bounds. The
  file system accepts every write.
\<close>

section \<open>The program\<close>

type_synonym files = "path \<rightharpoonup> bytes"

text \<open>What the run draws: random bytes and identifiers for its \<open>k\<close>-th call of the library.\<close>
record seed_env =
  se_json :: json_lib
  se_crypto :: crypto_lib
  se_backup :: backup_lib
  se_probe :: runtime_inspection_state
  se_rng :: "nat \<Rightarrow> rng"
  se_uuid :: "nat \<Rightarrow> nat \<Rightarrow> uuid"

fun expect :: "'e + 'a \<Rightarrow> 'a option" where
  "expect (Inl e) = None"
| "expect (Inr x) = Some x"

definition CORPUS_SEED_ROOT :: path where "CORPUS_SEED_ROOT = [Normal (lit ''corpus_seed'')]"
definition SEED_PASSWORD :: master_password where "SEED_PASSWORD = lit ''seed-password''"
definition DECOY_SEED_PASSWORD :: master_password where "DECOY_SEED_PASSWORD = lit ''decoy-password''"

definition write_seed :: "path \<Rightarrow> string \<Rightarrow> bytes \<Rightarrow> files \<Rightarrow> files" where
  "write_seed dir name bs fs = fs(path_join dir (lit name) \<mapsto> bs)"

definition vault_kdf :: vault_kdf_policy where
  "vault_kdf = \<lparr>kp_mem_kib = 64 * 1024, kp_time_cost = 3, kp_lanes = 1\<rparr>"

definition backup_kdf :: backup_kdf_policy where
  "backup_kdf = \<lparr>bk_mem_kib = 64 * 1024, bk_time_cost = 3, bk_lanes = 1\<rparr>"

definition sample_totp :: totp_secret where
  "sample_totp = \<lparr>ts_issuer = Some (lit ''GitHub''), ts_account_name = Some (lit ''octocat@example.com''),
     ts_secret_b32 = lit ''JBSWY3DPEHPK3PXP'', ts_digits = 6, ts_period_secs = 30, ts_algorithm = Sha1\<rparr>"

definition sample_payload :: "(nat \<Rightarrow> uuid) \<Rightarrow> vault_payload option" where
  "sample_payload ids =
    Option.bind (expect (new_password (ids 0) (lit ''GitHub'') (Some (lit ''octocat'')) (lit ''super-secret-password'')
        (Some (lit ''test note'')))) (\<lambda>password_entry.
    Option.bind (expect (new_secure_note (ids 1) (lit ''Recovery'') (lit ''offline backup code: 1234-5678''))) (\<lambda>note_entry.
    Option.bind (expect (new_totp (ids 2) (lit ''GitHub TOTP'') sample_totp (Some (lit ''Primary MFA'')))) (\<lambda>totp_entry.
      Some \<lparr>vp_entries = [password_entry, note_entry, totp_entry]\<rparr>)))"

definition encrypted_vault_container :: "seed_env \<Rightarrow> nat \<Rightarrow> master_password \<Rightarrow> bytes option" where
  "encrypted_vault_container E k password =
    Option.bind (sample_payload (se_uuid E k)) (\<lambda>payload.
    Option.bind (expect (create_encrypted_vault (se_json E) (se_crypto E) (se_rng E k) (se_uuid E k 3) password payload 1
        vault_kdf)) (\<lambda>vault.
      expect (encode_vault_storage (se_json E) (se_probe E) (vf_header vault) (vf_storage vault) 1)))"

definition duress_vault_container :: "seed_env \<Rightarrow> nat \<Rightarrow> master_password \<Rightarrow> master_password \<Rightarrow> bytes option" where
  "duress_vault_container E k primary decoy =
    Option.bind (sample_payload (se_uuid E k)) (\<lambda>primary_payload.
    Option.bind (expect (create_duress_vault (se_json E) (se_crypto E) (se_rng E k) (se_uuid E k 3) primary decoy
        primary_payload \<lparr>vp_entries = []\<rparr> 1 vault_kdf)) (\<lambda>vault.
      expect (encode_vault_storage (se_json E) (se_probe E) (vf_header vault) (vf_storage vault) 1)))"

definition signed_backup :: "seed_env \<Rightarrow> nat \<Rightarrow> master_password \<Rightarrow> bytes \<Rightarrow> bytes option" where
  "signed_backup E k password vault_bytes =
    expect (encode_signed_backup (se_backup E) (se_crypto E) (se_rng E k) (policy_new (se_probe E) Primary) password
      vault_bytes backup_kdf)"

definition target_dir :: "string \<Rightarrow> path" where
  "target_dir target = path_join CORPUS_SEED_ROOT (lit target)"

text \<open>The edits of the vectors: \<open>truncate\<close>, \<open>copy_from_slice\<close> at the front, the last byte.\<close>
definition truncated8 :: "bytes \<Rightarrow> bytes" where
  "truncated8 bs = take (length bs - 8) bs"

definition with_front :: "bytes \<Rightarrow> bytes \<Rightarrow> bytes option" where
  "with_front front bs = (if length bs < length front then None else Some (front @ drop (length front) bs))"

definition last_flipped :: "bytes \<Rightarrow> bytes" where
  "last_flipped bs = (if bs = [] then bs else butlast bs @ [xor (last bs) 1])"

definition generate_decode_vault_file_seeds :: "seed_env \<Rightarrow> master_password \<Rightarrow> files \<Rightarrow> files option" where
  "generate_decode_vault_file_seeds E password fs =
    (let dir = target_dir ''decode_vault_file'' in
     Option.bind (encrypted_vault_container E 0 password) (\<lambda>encrypted.
     Option.bind (duress_vault_container E 1 password DECOY_SEED_PASSWORD) (\<lambda>duress.
     Option.bind (with_front (as_bytes (lit ''BAD!'')) encrypted) (\<lambda>bad_magic.
       Some (write_seed dir ''bad_magic'' bad_magic
            (write_seed dir ''truncated'' (truncated8 encrypted)
            (write_seed dir ''valid_duress'' duress
            (write_seed dir ''valid_encrypted'' encrypted fs))))))))"

text \<open>Each file goes to both targets.\<close>
definition write_both :: "string \<Rightarrow> bytes \<Rightarrow> files \<Rightarrow> files" where
  "write_both name bs fs = write_seed (target_dir ''decode_signed_backup_structured'') name bs
     (write_seed (target_dir ''decode_signed_backup'') name bs fs)"

definition generate_signed_backup_seeds :: "seed_env \<Rightarrow> master_password \<Rightarrow> files \<Rightarrow> files option" where
  "generate_signed_backup_seeds E password fs =
    Option.bind (encrypted_vault_container E 2 password) (\<lambda>vault_bytes.
    Option.bind (signed_backup E 3 password vault_bytes) (\<lambda>valid.
    Option.bind (with_front (as_bytes (lit ''BADMAGIC'')) valid) (\<lambda>bad_magic.
      Some (write_both ''bad_magic'' bad_magic
           (write_both ''empty'' []
           (write_both ''tampered_signature'' (last_flipped valid)
           (write_both ''truncated'' (truncated8 valid)
           (write_both ''valid_signed_backup'' valid fs))))))))"

definition SEED_URI :: rstring where
  "SEED_URI = lit ''otpauth://totp/GitHub:octocat?secret=JBSWY3DPEHPK3PXP&issuer=GitHub&digits=6&period=30''"

definition otpauth_targets :: "string list" where
  "otpauth_targets = [''parse_totp_otpauth_uri'', ''parse_totp_otpauth_uri_structured'', ''otpauth_roundtrip'',
     ''otpauth_roundtrip_structured'', ''canonicalize_base32_for_export'', ''decode_base32_secret_strict'']"

definition generate_otpauth_seeds :: "files \<Rightarrow> files" where
  "generate_otpauth_seeds fs =
    fold (\<lambda>target fs. let dir = target_dir target in
        write_seed dir ''empty'' []
       (write_seed dir ''invalid_base32'' (as_bytes (lit ''not-valid-base32!''))
       (write_seed dir ''valid_base32'' (as_bytes (lit ''JBSWY3DPEHPK3PXP''))
       (write_seed dir ''valid_otpauth_uri'' (as_bytes SEED_URI) fs)))) otpauth_targets fs"

definition vault_targets :: "string list" where
  "vault_targets = [''vault_codec_roundtrip'', ''vault_codec_roundtrip_structured'', ''enable_duress_on_vault'',
     ''enable_duress_on_vault_structured'', ''import_interop_quarantine'']"

definition generate_vault_roundtrip_seeds :: "seed_env \<Rightarrow> master_password \<Rightarrow> files \<Rightarrow> files option" where
  "generate_vault_roundtrip_seeds E password fs =
    Option.bind (encrypted_vault_container E 4 password) (\<lambda>vault_bytes.
    Option.bind (duress_vault_container E 5 password DECOY_SEED_PASSWORD) (\<lambda>duress_bytes.
      Some (fold (\<lambda>target fs. let dir = target_dir target in
          write_seed dir ''empty'' []
         (write_seed dir ''valid_duress_vault'' duress_bytes
         (write_seed dir ''valid_vault'' vault_bytes fs))) vault_targets fs)))"

definition seed_main :: "seed_env \<Rightarrow> files option" where
  "seed_main E =
    Option.bind (generate_decode_vault_file_seeds E SEED_PASSWORD Map.empty) (\<lambda>fs.
    Option.bind (generate_signed_backup_seeds E SEED_PASSWORD fs) (\<lambda>fs.
      generate_vault_roundtrip_seeds E SEED_PASSWORD (generate_otpauth_seeds fs)))"

section \<open>The sample entries\<close>

lemma expect_Some [simp]: "expect r = Some x \<longleftrightarrow> r = Inr x"
  by (cases r) auto

lemma sample_texts:
  "safe_text 256 (lit ''GitHub'')" "safe_text 256 (lit ''Recovery'')" "safe_text 256 (lit ''GitHub TOTP'')"
  "safe_text 320 (lit ''octocat'')" "safe_text 8192 (lit ''test note'')" "safe_text 8192 (lit ''Primary MFA'')"
  "safe_text 8192 (lit ''offline backup code: 1234-5678'')" "str_len (lit ''super-secret-password'') = 21"
  "lit ''super-secret-password'' \<noteq> []"
  by (simp_all add: lit_def shown_text str_len_def)

lemma sample_totp_ok: "totp_params_ok sample_totp"
  by (simp add: totp_params_ok_def sample_totp_def lit_def is_b32_char_def)

text \<open>The sample payload is always built, of valid entries with the identifiers that were drawn.\<close>

lemma sample_payload_ok:
  "\<exists>p. sample_payload ids = Some p \<and> payload_ok p \<and> map entry_id (vp_entries p) = [ids 0, ids 1, ids 2]"
proof -
  obtain e0 where e0: "new_password (ids 0) (lit ''GitHub'') (Some (lit ''octocat'')) (lit ''super-secret-password'')
      (Some (lit ''test note'')) = Inr e0"
    using constructors_exact sample_texts by (fastforce simp: is_ok_iff limits)
  obtain e1 where e1: "new_secure_note (ids 1) (lit ''Recovery'') (lit ''offline backup code: 1234-5678'') = Inr e1"
    using constructors_exact sample_texts by (fastforce simp: is_ok_iff limits)
  obtain e2 where e2: "new_totp (ids 2) (lit ''GitHub TOTP'') sample_totp (Some (lit ''Primary MFA'')) = Inr e2"
    using constructors_exact sample_texts sample_totp_ok by (fastforce simp: is_ok_iff limits)
  have "entry_ok e0 \<and> entry_id e0 = ids 0" "entry_ok e1 \<and> entry_id e1 = ids 1" "entry_ok e2 \<and> entry_id e2 = ids 2"
    using constructors_exact e0 e1 e2 by blast+
  moreover have "sample_payload ids = Some \<lparr>vp_entries = [e0, e1, e2]\<rparr>"
    unfolding sample_payload_def e0 e1 e2 by simp
  ultimately show ?thesis by (simp add: payload_ok_def)
qed

section \<open>What the files are\<close>

text \<open>What is read back is what was written, for everything the run writes as JSON.\<close>
definition json_correct :: "json_lib \<Rightarrow> bool" where
  "json_correct J \<longleftrightarrow>
    (\<forall>h bs. json_of_header J h = Some bs \<longrightarrow> json_to_header J bs = Some h) \<and>
    (\<forall>ds bs. json_of_payload J ds = Some bs \<longrightarrow> json_to_payload J bs = Some ds) \<and> envelope_json_correct J"

lemma json_correctD:
  "json_correct J \<Longrightarrow> json_of_header J h = Some bs \<Longrightarrow> header_json_ok J h"
  "json_correct J \<Longrightarrow> payload_to_vec J p = Some bs \<Longrightarrow> payload_json_ok J (map entry_to_dto (vp_entries p))"
  by (auto simp: json_correct_def header_json_ok_def payload_json_ok_def payload_to_vec_def)

definition seed_path :: "string \<Rightarrow> string \<Rightarrow> path" where
  "seed_path target name = path_join (target_dir target) (lit name)"

lemma encrypted_container:
  assumes "encrypted_vault_container E k pw = Some file" and "json_correct (se_json E)" and "aead_correct (se_crypto E)"
    and "length file \<le> 16 * 1024 * 1024"
  shows "\<exists>parsed p. sample_payload (se_uuid E k) = Some p \<and>
    decode_vault_file (se_json E) probe file None MAX_VAULT_CONTAINER_PAYLOAD_LEN False = Inr parsed \<and>
    unlock_vault_with_outcome (se_json E) (se_crypto E) parsed pw = Inr (Primary, p)"
proof -
  obtain p where p: "sample_payload (se_uuid E k) = Some p" "payload_ok p" using sample_payload_ok by blast
  with assms(1) obtain vault where
    v: "create_encrypted_vault (se_json E) (se_crypto E) (se_rng E k) (se_uuid E k 3) pw p 1 vault_kdf = Inr vault"
    and e: "encode_vault_storage (se_json E) (se_probe E) (vf_header vault) (vf_storage vault) 1 = Inr file"
    by (auto simp: encrypted_vault_container_def bind_eq_Some_conv)
  obtain hb pt where "json_of_header (se_json E) (vf_header vault) = Some hb" "payload_to_vec (se_json E) p = Some pt"
    by (rule create_encrypted_ok [OF v]) blast
  from created_vault_opens [OF v e assms(4,3) json_correctD(1) [OF assms(2) this(1)] json_correctD(2) [OF assms(2) this(2)], of probe]
  show ?thesis using p decode_any_version by fastforce
qed

lemma duress_container:
  assumes "duress_vault_container E k pw decoy = Some file" and "json_correct (se_json E)" and "aead_correct (se_crypto E)"
    and "length file \<le> 16 * 1024 * 1024"
  shows "\<exists>parsed p. sample_payload (se_uuid E k) = Some p \<and>
    decode_vault_file (se_json E) probe file None MAX_VAULT_CONTAINER_PAYLOAD_LEN False = Inr parsed \<and>
    unlock_vault_to_plaintext_json_with_outcome (se_json E) (se_crypto E) parsed pw =
      Inr (Primary, the (payload_to_vec (se_json E) p))"
proof -
  obtain p where p: "sample_payload (se_uuid E k) = Some p" "payload_ok p" using sample_payload_ok by blast
  with assms(1) obtain vault where
    v: "create_duress_vault (se_json E) (se_crypto E) (se_rng E k) (se_uuid E k 3) pw decoy p \<lparr>vp_entries = []\<rparr> 1 vault_kdf = Inr vault"
    and e: "encode_vault_storage (se_json E) (se_probe E) (vf_header vault) (vf_storage vault) 1 = Inr file"
    by (auto simp: duress_vault_container_def bind_eq_Some_conv)
  obtain hb dh pt1 pt2 env ct where c: "vh_duress (vf_header vault) = Some dh"
    "vf_storage vault = SEncrypted ct" "json_of_header (se_json E) (vf_header vault) = Some hb"
    "payload_to_vec (se_json E) p = Some pt1"
    and env: "encrypt_duress_envelope_from_plaintext_json (se_json E) (se_crypto E) hb dh pw decoy pt1 pt2 = Inr env"
    and ct: "json_of_envelope (se_json E) env = Some ct"
    by (rule create_duress_ok [OF v]) blast
  let ?parsed = "\<lparr>pv_format_version = 1, pv_header = vf_header vault, pv_header_bytes = hb, pv_mode = Encrypted, pv_payload = ct\<rparr>"
  have "decode_vault_file (se_json E) probe file (Some 1) MAX_VAULT_CONTAINER_PAYLOAD_LEN False = Inr ?parsed"
    by (rule decode_created [OF _ assms(4) json_correctD(1) [OF assms(2) c(3)] c(3)]) (use e c(2) in simp)
  moreover have "envelope_json_correct (se_json E)" using assms(2) by (simp add: json_correct_def)
  then have "unlock_vault_to_plaintext_json_with_outcome (se_json E) (se_crypto E) ?parsed pw = Inr (Primary, pt1)"
    using duress_file_unlocks(1) [OF assms(3), of "se_json E" ?parsed dh pw decoy pt1 pt2 env] c(1) env ct by simp
  ultimately show ?thesis using p(1) c(4) decode_any_version by fastforce
qed

lemma container_length: "decode_vault_file J probe file ex m a = Inr parsed \<Longrightarrow> 19 \<le> length file"
  by (auto simp: decode_vault_file_iff container_layout_def length_MAGIC)

lemma truncated_container:
  assumes "decode_vault_file J probe file ex m a = Inr parsed"
  shows "\<not> is_ok (decode_vault_file J probe' (truncated8 file) ex' m' a')"
proof
  assume "is_ok (decode_vault_file J probe' (truncated8 file) ex' m' a')"
  then obtain q where q: "decode_vault_file J probe' (truncated8 file) ex' m' a' = Inr q" by (auto simp: is_ok_iff)
  have "truncated8 file @ drop (length file - 8) file = file" by (simp add: truncated8_def)
  with container_prefix_free [OF q, of J probe "drop (length file - 8) file"] assms
  have "drop (length file - 8) file = []" by metis
  then show False using container_length [OF assms] by simp
qed

lemma foreign_magic:
  assumes "with_front (as_bytes (lit ''BAD!'')) file = Some bad"
  shows "decode_vault_file J probe bad ex m a = Inl InvalidMagic"
proof -
  have "as_bytes (lit ''BAD!'') = [66, 65, 68, 33]" by (simp add: as_bytes_def utf8_char_def lit_def byte_def)
  then show ?thesis using assms
    by (auto simp: with_front_def decode_vault_file_def read_exact_def MAGIC_def split: if_splits)
qed

lemma accepted_magic:
  assumes "is_ok (decode_signed_backup K C policy pw input)" and "length input \<le> USIZE_MAX"
  shows "take 8 input = BACKUP_MAGIC"
proof -
  obtain p where "decode_signed_backup K C policy pw input = Inr p" using assms(1) by (auto simp: is_ok_iff)
  from decode_backup_reads [OF assms(2) this] obtain hj sig where "input = backup_layout hj p sig" by blast
  then show ?thesis by (simp add: backup_layout_def backup_body_def)
qed

lemma foreign_backup_magic:
  assumes "with_front (as_bytes (lit ''BADMAGIC'')) file = Some bad" and "length bad \<le> USIZE_MAX"
  shows "\<not> is_ok (decode_signed_backup K C policy pw bad)"
proof -
  have "as_bytes (lit ''BADMAGIC'') = [66, 65, 68, 77, 65, 71, 73, 67]"
    by (simp add: as_bytes_def utf8_char_def lit_def byte_def)
  moreover from this obtain rest where "bad = [66, 65, 68, 77, 65, 71, 73, 67] @ rest"
    using assms(1) by (auto simp only: with_front_def split: if_splits)
  then have "take 8 bad = [66, 65, 68, 77, 65, 71, 73, 67]" by simp
  then have "take 8 bad \<noteq> BACKUP_MAGIC" by (simp add: BACKUP_MAGIC_def)
  with accepted_magic [OF _ assms(2)] show ?thesis by blast
qed

lemma empty_backup: "\<not> is_ok (decode_signed_backup K C policy pw [])"
  using accepted_magic [of K C policy pw "[]"] by (auto simp: BACKUP_MAGIC_def)

lemma truncated_backup:
  assumes "decode_signed_backup K C policy pw b = Inr p" and "length b \<le> USIZE_MAX"
  shows "\<not> is_ok (decode_signed_backup K C policy' pw' (truncated8 b))"
proof
  assume "is_ok (decode_signed_backup K C policy' pw' (truncated8 b))"
  then obtain q where q: "decode_signed_backup K C policy' pw' (truncated8 b) = Inr q" by (auto simp: is_ok_iff)
  have l: "length (truncated8 b) \<le> USIZE_MAX" using assms(2) by (simp add: truncated8_def)
  obtain hj sig where b: "b = backup_layout hj p sig" "authentic K C pw hj p sig"
    using decode_backup_reads [OF assms(2,1)] by blast
  obtain hj' sig' where t: "truncated8 b = backup_layout hj' q sig'" "authentic K C pw' hj' q sig'"
    using decode_backup_reads [OF l q] by blast
  have same: "backup_body hj p @ to_le 2 64 @ sig = backup_body hj' q @ to_le 2 64 @ sig' @ drop (length b - 8) b"
  proof -
    have "truncated8 b @ drop (length b - 8) b = b" by (simp add: truncated8_def)
    then have "backup_layout hj' q sig' @ drop (length b - 8) b = backup_layout hj p sig" using b(1) t(1) by metis
    then show ?thesis by (simp only: backup_layout_def append_assoc)
  qed
  have "length hj < 2 ^ 32" "length hj' < 2 ^ 32" "length p < 2 ^ 64" "length q < 2 ^ 64"
    using b(2) t(2) by (simp_all add: authentic_def)
  from body_inject [OF same this] have "to_le 2 64 @ sig = to_le 2 64 @ sig' @ drop (length b - 8) b" by blast
  then have "length sig = length sig' + length (drop (length b - 8) b)" by simp
  moreover have "8 \<le> length b" using b by (simp add: backup_layout_def authentic_def)
  ultimately show False using b(2) t(2) by (simp add: authentic_def)
qed

section \<open>The files of a run\<close>

lemma seed_path_eq [simp]: "seed_path t n = seed_path t' n' \<longleftrightarrow> t = t' \<and> n = n'"
proof -
  have "lit a = lit b \<longleftrightarrow> a = b" for a b by (auto simp: lit_def inj_map_eq_map inj_on_def of_char_eq_iff)
  then show ?thesis by (auto simp: seed_path_def target_dir_def path_join_def)
qed

lemma write_seed_eq: "write_seed (target_dir t) n bs fs = fs(seed_path t n \<mapsto> bs)"
  by (simp add: write_seed_def seed_path_def)

lemma other_target:
  "t \<notin> set otpauth_targets \<Longrightarrow> generate_otpauth_seeds fs (seed_path t n) = fs (seed_path t n)"
  "t \<notin> set vault_targets \<Longrightarrow> generate_vault_roundtrip_seeds E pw fs = Some fs' \<Longrightarrow> fs' (seed_path t n) = fs (seed_path t n)"
  by (auto simp: generate_otpauth_seeds_def generate_vault_roundtrip_seeds_def otpauth_targets_def vault_targets_def
      write_seed_eq bind_eq_Some_conv Let_def)

lemma otpauth_seed_files:
  "t \<in> set otpauth_targets \<Longrightarrow> generate_otpauth_seeds fs (seed_path t ''valid_otpauth_uri'') = Some (as_bytes SEED_URI)"
  by (auto simp: generate_otpauth_seeds_def otpauth_targets_def write_seed_eq Let_def)

lemma run_files:
  assumes "seed_main E = Some fs"
  shows "\<exists>encrypted duress bad. encrypted_vault_container E 0 SEED_PASSWORD = Some encrypted \<and>
      duress_vault_container E 1 SEED_PASSWORD DECOY_SEED_PASSWORD = Some duress \<and>
      with_front (as_bytes (lit ''BAD!'')) encrypted = Some bad \<and>
      fs (seed_path ''decode_vault_file'' ''valid_encrypted'') = Some encrypted \<and>
      fs (seed_path ''decode_vault_file'' ''valid_duress'') = Some duress \<and>
      fs (seed_path ''decode_vault_file'' ''truncated'') = Some (truncated8 encrypted) \<and>
      fs (seed_path ''decode_vault_file'' ''bad_magic'') = Some bad"
    and "\<exists>vault backup bad. encrypted_vault_container E 2 SEED_PASSWORD = Some vault \<and>
      signed_backup E 3 SEED_PASSWORD vault = Some backup \<and>
      with_front (as_bytes (lit ''BADMAGIC'')) backup = Some bad \<and>
      (\<forall>t \<in> {''decode_signed_backup'', ''decode_signed_backup_structured''}.
        fs (seed_path t ''valid_signed_backup'') = Some backup \<and> fs (seed_path t ''truncated'') = Some (truncated8 backup) \<and>
        fs (seed_path t ''empty'') = Some [] \<and> fs (seed_path t ''bad_magic'') = Some bad)"
    and "t \<in> set otpauth_targets \<Longrightarrow> fs (seed_path t ''valid_otpauth_uri'') = Some (as_bytes SEED_URI)"
proof -
  obtain fs1 fs2 where f1: "generate_decode_vault_file_seeds E SEED_PASSWORD Map.empty = Some fs1"
    and f2: "generate_signed_backup_seeds E SEED_PASSWORD fs1 = Some fs2"
    and f3: "generate_vault_roundtrip_seeds E SEED_PASSWORD (generate_otpauth_seeds fs2) = Some fs"
    using assms by (auto simp: seed_main_def bind_eq_Some_conv)
  have keep: "fs (seed_path t n) = fs2 (seed_path t n)" if "t \<notin> set otpauth_targets" "t \<notin> set vault_targets" for t n
    using other_target(1) [OF that(1)] other_target(2) [OF that(2) f3] by simp
  have out: "''decode_vault_file'' \<notin> set otpauth_targets \<union> set vault_targets"
    "''decode_signed_backup'' \<notin> set otpauth_targets \<union> set vault_targets"
    "''decode_signed_backup_structured'' \<notin> set otpauth_targets \<union> set vault_targets"
    by (simp_all add: otpauth_targets_def vault_targets_def)
  obtain encrypted duress bad where a: "encrypted_vault_container E 0 SEED_PASSWORD = Some encrypted"
    "duress_vault_container E 1 SEED_PASSWORD DECOY_SEED_PASSWORD = Some duress"
    "with_front (as_bytes (lit ''BAD!'')) encrypted = Some bad"
    and fs1: "fs1 = [seed_path ''decode_vault_file'' ''valid_encrypted'' \<mapsto> encrypted,
      seed_path ''decode_vault_file'' ''valid_duress'' \<mapsto> duress,
      seed_path ''decode_vault_file'' ''truncated'' \<mapsto> truncated8 encrypted,
      seed_path ''decode_vault_file'' ''bad_magic'' \<mapsto> bad]"
    using f1 by (auto simp: generate_decode_vault_file_seeds_def Let_def bind_eq_Some_conv write_seed_eq)
  obtain vault backup badb where b: "encrypted_vault_container E 2 SEED_PASSWORD = Some vault"
    "signed_backup E 3 SEED_PASSWORD vault = Some backup" "with_front (as_bytes (lit ''BADMAGIC'')) backup = Some badb"
    and fs2: "fs2 = write_both ''bad_magic'' badb (write_both ''empty'' [] (write_both ''tampered_signature'' (last_flipped backup)
      (write_both ''truncated'' (truncated8 backup) (write_both ''valid_signed_backup'' backup fs1))))"
    using f2 by (auto simp: generate_signed_backup_seeds_def bind_eq_Some_conv)
  note look = write_both_def write_seed_eq
  have "fs (seed_path ''decode_vault_file'' n) = fs1 (seed_path ''decode_vault_file'' n)" for n
    using keep out(1) by (simp add: fs2 look)
  then show "\<exists>encrypted duress bad. encrypted_vault_container E 0 SEED_PASSWORD = Some encrypted \<and>
      duress_vault_container E 1 SEED_PASSWORD DECOY_SEED_PASSWORD = Some duress \<and>
      with_front (as_bytes (lit ''BAD!'')) encrypted = Some bad \<and>
      fs (seed_path ''decode_vault_file'' ''valid_encrypted'') = Some encrypted \<and>
      fs (seed_path ''decode_vault_file'' ''valid_duress'') = Some duress \<and>
      fs (seed_path ''decode_vault_file'' ''truncated'') = Some (truncated8 encrypted) \<and>
      fs (seed_path ''decode_vault_file'' ''bad_magic'') = Some bad"
    using a by (simp add: fs1)
  have "fs (seed_path t n) = fs2 (seed_path t n)" if "t \<in> {''decode_signed_backup'', ''decode_signed_backup_structured''}" for t n
    using that keep out(2,3) by blast
  then show "\<exists>vault backup bad. encrypted_vault_container E 2 SEED_PASSWORD = Some vault \<and>
      signed_backup E 3 SEED_PASSWORD vault = Some backup \<and>
      with_front (as_bytes (lit ''BADMAGIC'')) backup = Some bad \<and>
      (\<forall>t \<in> {''decode_signed_backup'', ''decode_signed_backup_structured''}.
        fs (seed_path t ''valid_signed_backup'') = Some backup \<and> fs (seed_path t ''truncated'') = Some (truncated8 backup) \<and>
        fs (seed_path t ''empty'') = Some [] \<and> fs (seed_path t ''bad_magic'') = Some bad)"
    using b by (simp add: fs2 look)
  show "fs (seed_path t ''valid_otpauth_uri'') = Some (as_bytes SEED_URI)" if "t \<in> set otpauth_targets"
  proof -
    have "t \<notin> set vault_targets" using that by (auto simp: otpauth_targets_def vault_targets_def)
    from other_target(2) [OF this f3] show ?thesis using otpauth_seed_files [OF that] by simp
  qed
qed

text \<open>The URI seed is one of the generated URIs of the structured target.\<close>

definition seed_uri_case :: otp_uri_case where
  "seed_uri_case = \<lparr>uc_scheme = OtpAuthScheme, uc_host = TotpHost, uc_label_issuer = Some (lit ''GitHub''),
     uc_label_account = Some (lit ''octocat''), uc_bare_label = lit ''GitHub'', uc_explicit_issuer = Some (lit ''GitHub''),
     uc_secret = lit ''JBSWY3DPEHPK3PXP'', uc_include_secret = True, uc_include_algorithm = False,
     uc_include_digits = True, uc_include_period = True, uc_algorithm = StructuredSha1, uc_digits_selector = 0,
     uc_period_selector = 2\<rparr>"

lemma seed_uri_parses:
  assumes "url_reads_plain U"
  shows "parse_totp_otpauth_uri U (policy_new NotDebugged Primary) SEED_URI =
    Inr (lit ''GitHub'', sample_totp\<lparr>ts_account_name := Some (lit ''octocat'')\<rparr>)"
proof -
  have "uri_case_ok seed_uri_case"
    by (simp add: uri_case_ok_def seed_uri_case_def drawn_string_def DISPLAY_ALPHABET_def ACCOUNT_ALPHABET_def
        BASE32_ALPHABET_def lit_def)
  moreover have "build_uri seed_uri_case = SEED_URI"
    by (simp add: build_uri_def seed_uri_case_def SEED_URI_def uri_label_def uri_pairs_def pair_text_def lit_def
        digits_from_selector_def period_from_selector_def dec_digits.simps)
  moreover have "\<not> dot_label (uri_label seed_uri_case)"
    by (simp add: seed_uri_case_def uri_label_def dot_label_def lit_def)
  ultimately show ?thesis
    using structured_parse [OF assms, of seed_uri_case NotDebugged]
    by (simp add: parse_structured_def)
       (simp add: seed_uri_case_def uri_label_parts_def uri_totp_of_def uri_query_def sample_totp_def
         digits_from_selector_def period_from_selector_def)
qed

text \<open>The files are what their names say: the valid containers open under the seed password, the valid
  backup restores, the URI parses, and the truncated, foreign and empty files are refused.\<close>

lemma seeds_as_named:
  assumes "seed_main E = Some fs" and "json_correct (se_json E)" and "aead_correct (se_crypto E)"
    and "backup_lib_correct (se_backup E)" and "\<And>p bs. fs p = Some bs \<Longrightarrow> length bs \<le> 16 * 1024 * 1024"
    and "allow_signed_backup_transfer policy"
  shows "\<exists>file parsed p. fs (seed_path ''decode_vault_file'' ''valid_encrypted'') = Some file \<and>
      decode_vault_file (se_json E) probe file None MAX_VAULT_CONTAINER_PAYLOAD_LEN False = Inr parsed \<and>
      sample_payload (se_uuid E 0) = Some p \<and>
      unlock_vault_with_outcome (se_json E) (se_crypto E) parsed SEED_PASSWORD = Inr (Primary, p)"
    and "\<exists>file parsed pt. fs (seed_path ''decode_vault_file'' ''valid_duress'') = Some file \<and>
      decode_vault_file (se_json E) probe file None MAX_VAULT_CONTAINER_PAYLOAD_LEN False = Inr parsed \<and>
      unlock_vault_to_plaintext_json_with_outcome (se_json E) (se_crypto E) parsed SEED_PASSWORD = Inr (Primary, pt)"
    and "n \<in> {''truncated'', ''bad_magic''} \<Longrightarrow> \<exists>file. fs (seed_path ''decode_vault_file'' n) = Some file \<and>
      \<not> is_ok (decode_vault_file (se_json E) probe file None MAX_VAULT_CONTAINER_PAYLOAD_LEN False)"
    and "t \<in> {''decode_signed_backup'', ''decode_signed_backup_structured''} \<Longrightarrow>
      \<exists>backup vault. fs (seed_path t ''valid_signed_backup'') = Some backup \<and>
        decode_signed_backup (se_backup E) (se_crypto E) policy SEED_PASSWORD backup = Inr vault"
    and "t \<in> {''decode_signed_backup'', ''decode_signed_backup_structured''} \<Longrightarrow> n \<in> {''truncated'', ''empty'', ''bad_magic''} \<Longrightarrow>
      \<exists>backup. fs (seed_path t n) = Some backup \<and>
        \<not> is_ok (decode_signed_backup (se_backup E) (se_crypto E) policy' pw backup)"
proof -
  have cap: "length bs \<le> USIZE_MAX" if "fs p = Some bs" for p bs using assms(5) [OF that] by (simp add: USIZE_MAX_def)
  obtain encrypted duress bad where a: "encrypted_vault_container E 0 SEED_PASSWORD = Some encrypted"
    "duress_vault_container E 1 SEED_PASSWORD DECOY_SEED_PASSWORD = Some duress"
    "with_front (as_bytes (lit ''BAD!'')) encrypted = Some bad"
    "fs (seed_path ''decode_vault_file'' ''valid_encrypted'') = Some encrypted"
    "fs (seed_path ''decode_vault_file'' ''valid_duress'') = Some duress"
    "fs (seed_path ''decode_vault_file'' ''truncated'') = Some (truncated8 encrypted)"
    "fs (seed_path ''decode_vault_file'' ''bad_magic'') = Some bad"
    using run_files(1) [OF assms(1)] by blast
  note enc = encrypted_container [OF a(1) assms(2,3) assms(5) [OF a(4)], of probe]
  from enc a(4) show "\<exists>file parsed p. fs (seed_path ''decode_vault_file'' ''valid_encrypted'') = Some file \<and>
      decode_vault_file (se_json E) probe file None MAX_VAULT_CONTAINER_PAYLOAD_LEN False = Inr parsed \<and>
      sample_payload (se_uuid E 0) = Some p \<and>
      unlock_vault_with_outcome (se_json E) (se_crypto E) parsed SEED_PASSWORD = Inr (Primary, p)" by blast
  from duress_container [OF a(2) assms(2,3) assms(5) [OF a(5)], of probe] a(5)
  show "\<exists>file parsed pt. fs (seed_path ''decode_vault_file'' ''valid_duress'') = Some file \<and>
      decode_vault_file (se_json E) probe file None MAX_VAULT_CONTAINER_PAYLOAD_LEN False = Inr parsed \<and>
      unlock_vault_to_plaintext_json_with_outcome (se_json E) (se_crypto E) parsed SEED_PASSWORD = Inr (Primary, pt)" by blast
  from enc truncated_container foreign_magic [OF a(3)] a(6,7)
  show "n \<in> {''truncated'', ''bad_magic''} \<Longrightarrow> \<exists>file. fs (seed_path ''decode_vault_file'' n) = Some file \<and>
      \<not> is_ok (decode_vault_file (se_json E) probe file None MAX_VAULT_CONTAINER_PAYLOAD_LEN False)" by fastforce
  obtain vault backup badb where b: "signed_backup E 3 SEED_PASSWORD vault = Some backup"
    "with_front (as_bytes (lit ''BADMAGIC'')) backup = Some badb"
    and files: "\<And>t. t \<in> {''decode_signed_backup'', ''decode_signed_backup_structured''} \<Longrightarrow>
        fs (seed_path t ''valid_signed_backup'') = Some backup \<and> fs (seed_path t ''truncated'') = Some (truncated8 backup) \<and>
        fs (seed_path t ''empty'') = Some [] \<and> fs (seed_path t ''bad_magic'') = Some badb"
    using run_files(2) [OF assms(1)] by blast
  have l: "length backup \<le> USIZE_MAX" "length badb \<le> USIZE_MAX" using files [of "''decode_signed_backup''"] cap by blast+
  have restored: "decode_signed_backup (se_backup E) (se_crypto E) policy SEED_PASSWORD backup = Inr vault"
    using b(1) by (intro restored_backup [OF _ assms(4) l(1) assms(6)]) (simp add: signed_backup_def)
  show "t \<in> {''decode_signed_backup'', ''decode_signed_backup_structured''} \<Longrightarrow>
      \<exists>backup vault. fs (seed_path t ''valid_signed_backup'') = Some backup \<and>
        decode_signed_backup (se_backup E) (se_crypto E) policy SEED_PASSWORD backup = Inr vault"
    and "t \<in> {''decode_signed_backup'', ''decode_signed_backup_structured''} \<Longrightarrow> n \<in> {''truncated'', ''empty'', ''bad_magic''} \<Longrightarrow>
      \<exists>backup. fs (seed_path t n) = Some backup \<and>
        \<not> is_ok (decode_signed_backup (se_backup E) (se_crypto E) policy' pw backup)"
    subgoal using files restored by blast
    subgoal premises prems
    proof -
      have "n = ''truncated'' \<or> n = ''empty'' \<or> n = ''bad_magic''" using prems(2) by simp
      then show ?thesis
        using files [OF prems(1)] truncated_backup [OF restored l(1), of policy' pw] foreign_backup_magic [OF b(2) l(2)]
          empty_backup by (elim disjE; hypsubst) blast+
    qed
    done
qed

end
