(* ===== verification/Module_Tests.thy ===== *)
theory Module_Tests
  imports Lock_Runs
begin

text \<open>
  The test modules of \<open>core/antidebug.rs\<close>, \<open>core/session.rs\<close> and \<open>core/lock_state.rs\<close>, each test as the
  conjunction of its assertions over the model. The tests of the manager run on a virtual machine of
  their own: no time passes between their calls, so the timer task takes no step. The answer of the
  live probe is an argument, and so is the JSON library, of which the tests need that the empty vault is
  written and read back.
\<close>

section \<open>Tests of core/antidebug.rs\<close>

definition restrictive_state_classification_is_conservative :: bool where
  "restrictive_state_classification_is_conservative \<longleftrightarrow>
     \<not> is_restrictive NotDebugged \<and> is_restrictive Debugged \<and> is_restrictive Unknown \<and>
     is_restrictive TamperSuspected"

definition state_helper_methods_match_variants :: bool where
  "state_helper_methods_match_variants \<longleftrightarrow>
     is_debugged Debugged \<and> is_unknown Unknown \<and> is_tamper_suspected TamperSuspected \<and>
     \<not> is_debugged NotDebugged"

lemma antidebug_tests_pass:
  "restrictive_state_classification_is_conservative" "state_helper_methods_match_variants"
  by code_simp+

section \<open>Tests of core/session.rs\<close>

definition empty_vault :: vault_payload where
  "empty_vault = \<lparr>vp_entries = []\<rparr>"

definition strong_session_does_not_require_extra_strong_reauth :: bool where
  "strong_session_does_not_require_extra_strong_reauth \<longleftrightarrow>
     (let session = session_new Primary empty_vault in
      session_is_strong session \<and> uvs_auth_strength session = Strong \<and>
      \<not> session_requires_strong_reauth_for session Export \<and>
      \<not> session_requires_strong_reauth_for session CopyTotp)"

text \<open>The two tests of the weaker strengths differ in the strength and the operations they try.\<close>

definition weak_session_requires_strong_reauth :: "authentication_strength \<Rightarrow> sensitive_operation list \<Rightarrow> bool" where
  "weak_session_requires_strong_reauth strength operations \<longleftrightarrow>
     (let session = session_with_strength Primary empty_vault strength in
      \<not> session_is_strong session \<and> list_all (session_requires_strong_reauth_for session) operations)"

definition biometric_session_requires_strong_reauth_for_sensitive_ops :: bool where
  "biometric_session_requires_strong_reauth_for_sensitive_ops \<longleftrightarrow>
     weak_session_requires_strong_reauth Biometric [Export, CopySecret]"

definition quick_unlock_requires_strong_reauth_for_sensitive_ops :: bool where
  "quick_unlock_requires_strong_reauth_for_sensitive_ops \<longleftrightarrow>
     weak_session_requires_strong_reauth QuickUnlock [RevealSecret, ChangeSecuritySettings]"

definition decoy_session_reports_decoy_outcome :: bool where
  "decoy_session_reports_decoy_outcome \<longleftrightarrow>
     (let session = session_with_strength Decoy empty_vault Strong in
      session_is_decoy session \<and> uvs_outcome session = Decoy)"

definition runtime_event_semantics_remain_stable :: bool where
  "runtime_event_semantics_remain_stable \<longleftrightarrow>
     forces_lock DeviceLocked \<and> forces_lock BiometricSetChanged \<and> forces_lock QuickUnlockInvalidated \<and>
     forces_lock RuntimeBecameRestrictive \<and> event_requires_strong_reauth AppBackgrounded \<and>
     \<not> event_requires_strong_reauth DeviceLocked"

lemma session_tests_pass:
  "strong_session_does_not_require_extra_strong_reauth"
  "biometric_session_requires_strong_reauth_for_sensitive_ops"
  "quick_unlock_requires_strong_reauth_for_sensitive_ops"
  "decoy_session_reports_decoy_outcome" "runtime_event_semantics_remain_stable"
  by code_simp+

section \<open>Tests of core/lock_state.rs\<close>

text \<open>\<open>serde_json::to_vec(...).expect("serialize")\<close>: \<open>None\<close> is the panic of the test.\<close>

definition with_empty_json :: "json_lib \<Rightarrow> (secret_bytes \<Rightarrow> bool) \<Rightarrow> bool" where
  "with_empty_json J test = (case payload_to_vec J empty_vault of None \<Rightarrow> False | Some json \<Rightarrow> test json)"

definition compatibility_unlock_defaults_to_primary_strong_session ::
    "json_lib \<Rightarrow> runtime_inspection_state \<Rightarrow> bool" where
  "compatibility_unlock_defaults_to_primary_strong_session J probe = with_empty_json J (\<lambda>json.
     let manager = unlock_with_plaintext_json probe manager_new json (dur_secs 60) in
     current_authentication_strength manager = Some Strong \<and>
     current_unlock_outcome manager = Some Primary \<and>
     strong_reauth_required manager = Some False)"

definition explicit_context_is_preserved :: "json_lib \<Rightarrow> bool" where
  "explicit_context_is_preserved J = with_empty_json J (\<lambda>json.
     let manager = unlock_with_plaintext_json_with_context manager_new json (dur_secs 60) Strong Decoy NotDebugged in
     case current_policy_context manager of
       None \<Rightarrow> False
     | Some policy \<Rightarrow> pc_outcome policy = Decoy \<and> pc_runtime_state policy = NotDebugged)"

text \<open>A manager unlocked as in the two tests of a debugged runtime.\<close>
definition debugged_manager :: "secret_bytes \<Rightarrow> lock_manager" where
  "debugged_manager json =
    unlock_with_plaintext_json_with_context manager_new json (dur_secs 60) Strong Primary Debugged"

definition restrictive_runtime_denies_sensitive_operation :: "json_lib \<Rightarrow> bool" where
  "restrictive_runtime_denies_sensitive_operation J = with_empty_json J (\<lambda>json.
     authorize_sensitive_operation (debugged_manager json) RevealSecret = Inl PolicyDenied)"

text \<open>The test refreshes the posture at the end and asserts nothing of the two results.\<close>
definition explicit_runtime_refresh_updates_session_policy_state ::
    "json_lib \<Rightarrow> runtime_inspection_state \<Rightarrow> bool" where
  "explicit_runtime_refresh_updates_session_policy_state J probe = with_empty_json J (\<lambda>json.
     let first = authorize_sensitive_operation (debugged_manager json) RevealSecret;
         (manager, _) = refresh_runtime_policy_state probe (debugged_manager json);
         _ = current_runtime_inspection_state_of manager
     in first = Inl PolicyDenied)"

definition background_event_marks_strong_reauth_required ::
    "json_lib \<Rightarrow> runtime_inspection_state \<Rightarrow> bool" where
  "background_event_marks_strong_reauth_required J probe = with_empty_json J (\<lambda>json.
     let manager = unlock_with_plaintext_json probe manager_new json (dur_secs 60);
         manager = handle_runtime_security_event manager AppBackgrounded in
     get_payload J manager \<noteq> None \<and> strong_reauth_required manager = Some True)"

definition device_locked_event_forces_full_lock :: "json_lib \<Rightarrow> runtime_inspection_state \<Rightarrow> bool" where
  "device_locked_event_forces_full_lock J probe = with_empty_json J (\<lambda>json.
     let manager = unlock_with_plaintext_json probe manager_new json (dur_secs 60);
         manager = handle_runtime_security_event manager DeviceLocked in
     get_payload J manager = None \<and> current_authentication_strength manager = None \<and>
     strong_reauth_required manager = None)"

section \<open>What the tests show\<close>

lemmas manager_test_simps =
  unlock_with_plaintext_json_def unlock_state open_session_def Let_def
  current_authentication_strength_def current_unlock_outcome_def strong_reauth_required_def
  current_policy_context_def handle_runtime_security_event_def
  mark_strong_reauth_required_def get_payload_def decode_payload_from_plaintext_json_def

lemma empty_json:
  assumes "payload_json_ok J []"
  obtains json where "payload_to_vec J empty_vault = Some json" "payload_from_slice J json = Some empty_vault"
  using assms
  by (auto simp: payload_json_ok_def payload_to_vec_def payload_from_slice_def empty_vault_def)

lemma debugged_denied: "authorize_sensitive_operation (debugged_manager json) RevealSecret = Inl PolicyDenied"
  by (simp add: authorize_session debugged_manager_def unlock_state open_session_def)

text \<open>All the tests but the first pass whatever the live probe answers.\<close>

lemma lock_state_tests_pass:
  assumes "payload_json_ok J []"
  shows "explicit_context_is_preserved J" "restrictive_runtime_denies_sensitive_operation J"
    "explicit_runtime_refresh_updates_session_policy_state J probe"
    "background_event_marks_strong_reauth_required J probe" "device_locked_event_forces_full_lock J probe"
proof -
  obtain json where json: "payload_to_vec J empty_vault = Some json" "payload_from_slice J json = Some empty_vault"
    using assms by (rule empty_json)
  show "explicit_context_is_preserved J"
    using json by (simp add: explicit_context_is_preserved_def with_empty_json_def manager_test_simps
        policy_from_parts_def)
  show "restrictive_runtime_denies_sensitive_operation J"
    using json by (simp add: restrictive_runtime_denies_sensitive_operation_def with_empty_json_def debugged_denied)
  show "explicit_runtime_refresh_updates_session_policy_state J probe"
    using json by (simp add: explicit_runtime_refresh_updates_session_policy_state_def with_empty_json_def
        debugged_denied refresh_runtime_policy_state_def)
  show "background_event_marks_strong_reauth_required J probe"
    using json by (simp add: background_event_marks_strong_reauth_required_def with_empty_json_def manager_test_simps)
  show "device_locked_event_forces_full_lock J probe"
    using json by (simp add: device_locked_event_forces_full_lock_def with_empty_json_def manager_test_simps)
qed

text \<open>
  The first expects a session that needs no re-authentication, which the manager opens only where the
  probe finds no debugger: the test fails under one, and on every target without a probe.
\<close>

lemma compatibility_test_exactly:
  assumes "payload_json_ok J []"
  shows "compatibility_unlock_defaults_to_primary_strong_session J probe \<longleftrightarrow> probe = NotDebugged"
proof -
  obtain json where "payload_to_vec J empty_vault = Some json" "payload_from_slice J json = Some empty_vault"
    using assms by (rule empty_json)
  then show ?thesis
    by (simp add: compatibility_unlock_defaults_to_primary_strong_session_def with_empty_json_def manager_test_simps)
qed

lemma compatibility_test_fails_without_probe:
  assumes "payload_json_ok J []"
  shows "\<not> compatibility_unlock_defaults_to_primary_strong_session J
    (detect_runtime_inspection_state OtherTarget status sysctl)"
  using assms by (simp add: compatibility_test_exactly detect_runtime_inspection_state_def)

end
