(* ===== verification/Vault_App.thy ===== *)
theory Vault_App
  imports Copy_Ops
begin

text \<open>
  The library as its host drives it: one lock manager and one clipboard guard, every call of
  \<open>core/lock_state.rs\<close>, \<open>core/entries.rs\<close> and \<open>clipboard/guard.rs\<close> with its answer, the steps of the
  background tasks and of other programs. An abstract service, a posture and a finite map of entries,
  says what a host may rely on, and the library is shown to implement it. The imports, which edit the
  payload through closures of their own, have their theories; the clocks of the two background tasks run
  independently, which allows more runs than one clock would.
\<close>

section \<open>Calls and answers\<close>

datatype 'h app_event =
  Manager lock_event
| Clip "'h clip_event"
| Add vault_entry
| Update uuid vault_entry
| UpdateFields uuid entry_update
| Delete uuid
| ListAll
| Get uuid
| GetFor uuid sensitive_operation
| Reveal uuid sensitive_operation
| CopySecretOf uuid sensitive_operation duration
| CopyTotpOf uuid sensitive_operation u64 "duration option"

datatype app_answer =
  Done
| Result "entry_error + unit"
| Summaries "entry_summary list option"
| View "entry_error + entry_view"
| Secret "entry_error + rstring"

record 'h app =
  ap_manager :: lock_manager
  ap_clipboard :: "'h clipboard_guard"

definition on_manager :: "'h app \<Rightarrow> lock_manager \<times> (entry_error + unit) \<Rightarrow> 'h app \<times> app_answer" where
  "on_manager s mr = (s\<lparr>ap_manager := fst mr\<rparr>, Result (snd mr))"

definition on_clipboard :: "'h app \<Rightarrow> 'h clipboard_guard \<times> (entry_error + unit) \<Rightarrow> 'h app \<times> app_answer" where
  "on_clipboard s gr = (s\<lparr>ap_clipboard := fst gr\<rparr>, Result (snd gr))"

fun app_exec ::
    "json_lib \<Rightarrow> totp_lib \<Rightarrow> 'h clipboard_backend \<Rightarrow> 'h app \<Rightarrow> 'h app_event \<Rightarrow> 'h app \<times> app_answer" where
  "app_exec J L B s (Manager e) = (s\<lparr>ap_manager := exec_event (ap_manager s) e\<rparr>, Done)"
| "app_exec J L B s (Clip e) = (s\<lparr>ap_clipboard := clip_exec B (ap_clipboard s) e\<rparr>, Done)"
| "app_exec J L B s (Add e) = on_manager s (add_entry J (ap_manager s) e)"
| "app_exec J L B s (Update i e) = on_manager s (update_entry J (ap_manager s) i e)"
| "app_exec J L B s (UpdateFields i u) = on_manager s (update_entry_fields J (ap_manager s) i u)"
| "app_exec J L B s (Delete i) = on_manager s (delete_entry J (ap_manager s) i)"
| "app_exec J L B s ListAll = (s, Summaries (list_entries J (ap_manager s)))"
| "app_exec J L B s (Get i) = (s, View (get_entry J (ap_manager s) i))"
| "app_exec J L B s (GetFor i op) = (s, View (get_entry_for_operation J (ap_manager s) i op))"
| "app_exec J L B s (Reveal i op) = (s, Secret (reveal_entry_secret_for_operation J (ap_manager s) i op))"
| "app_exec J L B s (CopySecretOf i op d) =
    on_clipboard s (copy_entry_secret_for_operation J (ap_manager s) B i op d (ap_clipboard s))"
| "app_exec J L B s (CopyTotpOf i op time d) =
    on_clipboard s (copy_entry_totp_for_operation L J (ap_manager s) B i op time d (ap_clipboard s))"

definition app_new :: "'h \<Rightarrow> 'h app" where
  "app_new h = \<lparr>ap_manager = manager_new, ap_clipboard = guard_new h\<rparr>"

section \<open>The abstract service\<close>

text \<open>
  A vault is shut, or open in a posture with a finite map of entries; \<open>None\<close> is the session whose
  plaintext no longer decodes. The service does not know how entries are stored.
\<close>

record posture =
  po_strength :: authentication_strength
  po_reauth :: bool
  po_outcome :: unlock_outcome
  po_runtime :: runtime_inspection_state

type_synonym entries = "uuid \<rightharpoonup> vault_entry"

datatype vault_view = Shut | Open posture "entries option"

fun in_posture :: "(posture \<Rightarrow> posture) \<Rightarrow> vault_view \<Rightarrow> vault_view" where
  "in_posture f Shut = Shut"
| "in_posture f (Open po es) = Open (f po) es"

definition see_runtime :: "runtime_inspection_state \<Rightarrow> posture \<Rightarrow> posture" where
  "see_runtime r po = po\<lparr>po_runtime := r, po_reauth := (po_reauth po \<or> r \<noteq> NotDebugged)\<rparr>"

text \<open>What a manager call or a step of its timer may do; nothing is said of a foreign closure.\<close>

fun spec_manager :: "json_lib \<Rightarrow> vault_view \<Rightarrow> lock_event \<Rightarrow> vault_view set" where
  "spec_manager J v (EvUnlock pj timeout a oc r) =
    {Open \<lparr>po_strength = a, po_reauth = (a \<noteq> Strong \<or> r \<noteq> NotDebugged), po_outcome = oc, po_runtime = r\<rparr>
      (map_option entry_map (payload_from_slice J pj))}"
| "spec_manager J v EvLock = {Shut}"
| "spec_manager J v (EvSecurity e) =
    {if e = AppBackgrounded then in_posture (po_reauth_update (\<lambda>_. True)) v else Shut}"
| "spec_manager J v (EvRefresh r) = {in_posture (see_runtime r) v}"
| "spec_manager J v (EvSetRuntime r) = {in_posture (see_runtime r) v}"
| "spec_manager J v EvMark = {in_posture (po_reauth_update (\<lambda>_. True)) v}"
| "spec_manager J v EvClear = {in_posture (po_reauth_update (\<lambda>_. False)) v}"
| "spec_manager J v (EvFire i) = {v, Shut}"
| "spec_manager J v (EvEdit J' f) = UNIV"
| "spec_manager J v _ = {v}"

text \<open>An edit that leaves an entry no reader accepts is stored all the same, and closes the map.\<close>

fun spec_edit :: "(entries \<Rightarrow> entries \<times> (entry_error + unit)) \<Rightarrow> vault_view \<Rightarrow> vault_view \<times> (entry_error + unit)" where
  "spec_edit g (Open po (Some f)) =
    (let (f', r) = g f in (Open po (if \<forall>e\<in>ran f'. entry_ok e then Some f' else None), r))"
| "spec_edit g v = (v, Inl VaultLocked)"

definition spec_add :: "vault_entry \<Rightarrow> entries \<Rightarrow> entries \<times> (entry_error + unit)" where
  "spec_add e f = (if f (entry_id e) = None then (f(entry_id e \<mapsto> e), Inr ()) else (f, Inl DuplicateEntry))"

definition spec_delete :: "uuid \<Rightarrow> entries \<Rightarrow> entries \<times> (entry_error + unit)" where
  "spec_delete i f = (f(i := None), if f i = None then Inl EntryNotFound else Inr ())"

definition spec_change ::
    "uuid \<Rightarrow> (vault_entry \<Rightarrow> entry_result) \<Rightarrow> entries \<Rightarrow> entries \<times> (entry_error + unit)" where
  "spec_change i change f =
    (case f i of None \<Rightarrow> (f, Inl EntryNotFound) | Some e \<Rightarrow> (f(i \<mapsto> fst (change e)), snd (change e)))"

fun spec_authorised :: "vault_view \<Rightarrow> entry_error + unit" where
  "spec_authorised Shut = Inl VaultLocked"
| "spec_authorised (Open po es) =
    (if po_outcome po \<noteq> Primary \<or> po_runtime po \<noteq> NotDebugged then Inl PolicyDenied
     else if po_reauth po \<or> po_strength po \<noteq> Strong then Inl ReauthRequired
     else Inr ())"

fun spec_get :: "vault_view \<Rightarrow> uuid \<Rightarrow> entry_error + entry_view" where
  "spec_get (Open po (Some f)) i = ok_or EntryNotFound (map_option to_view (f i))"
| "spec_get v i = Inl VaultLocked"

definition spec_get_for :: "vault_view \<Rightarrow> uuid \<Rightarrow> entry_error + entry_view" where
  "spec_get_for v i = rbind (spec_authorised v) (\<lambda>_. spec_get v i)"

definition spec_reveal :: "vault_view \<Rightarrow> uuid \<Rightarrow> entry_error + rstring" where
  "spec_reveal v i = rbind (spec_get_for v i) (\<lambda>e. guard (vw_secret e = []) InvalidType (Inr (vw_secret e)))"

definition spec_code :: "totp_lib \<Rightarrow> vault_view \<Rightarrow> uuid \<Rightarrow> u64 \<Rightarrow> entry_error + rstring" where
  "spec_code L v i time =
    rbind (spec_get_for v i) (\<lambda>e.
    rbind (ok_or InvalidType (vw_totp e)) (\<lambda>t.
      map_err (\<lambda>_. InvalidData) (totp_generate_formatted L t time)))"

definition spec_put ::
    "'h clipboard_backend \<Rightarrow> duration \<Rightarrow> entry_error + rstring \<Rightarrow> 'h clipboard_guard \<Rightarrow>
     'h clipboard_guard \<times> (entry_error + unit)" where
  "spec_put B d text g =
    (case text of Inl e \<Rightarrow> (g, Inl e) | Inr s \<Rightarrow> (copy_with_timeout B s d g, Inr ()))"

text \<open>A listing may come in any order; it has one summary for each entry.\<close>

fun spec_listing :: "vault_view \<Rightarrow> entry_summary list option set" where
  "spec_listing (Open po (Some f)) =
    {Some ss |ss. distinct (map sum_id ss) \<and> set ss = to_summary ` ran f}"
| "spec_listing v = {None}"

type_synonym 'h spec_state = "vault_view \<times> 'h clipboard_guard"

definition edited ::
    "'h clipboard_guard \<Rightarrow> vault_view \<times> (entry_error + unit) \<Rightarrow> ('h spec_state \<times> app_answer) set" where
  "edited g vr = {((fst vr, g), Result (snd vr))}"

definition put ::
    "vault_view \<Rightarrow> 'h clipboard_guard \<times> (entry_error + unit) \<Rightarrow> ('h spec_state \<times> app_answer) set" where
  "put v gr = {((v, fst gr), Result (snd gr))}"

fun spec_exec ::
    "json_lib \<Rightarrow> totp_lib \<Rightarrow> 'h clipboard_backend \<Rightarrow> 'h spec_state \<Rightarrow> 'h app_event
      \<Rightarrow> ('h spec_state \<times> app_answer) set" where
  "spec_exec J L B (v, g) (Manager e) = (\<lambda>v'. ((v', g), Done)) ` spec_manager J v e"
| "spec_exec J L B (v, g) (Clip e) = {((v, clip_exec B g e), Done)}"
| "spec_exec J L B (v, g) (Add e) = edited g (spec_edit (spec_add e) v)"
| "spec_exec J L B (v, g) (Update i e) = edited g (spec_edit (spec_change i (\<lambda>_. (e, Inr ()))) v)"
| "spec_exec J L B (v, g) (UpdateFields i u) = edited g (spec_edit (spec_change i (\<lambda>e. apply_update e u)) v)"
| "spec_exec J L B (v, g) (Delete i) = edited g (spec_edit (spec_delete i) v)"
| "spec_exec J L B (v, g) ListAll = (\<lambda>ss. ((v, g), Summaries ss)) ` spec_listing v"
| "spec_exec J L B (v, g) (Get i) = {((v, g), View (spec_get v i))}"
| "spec_exec J L B (v, g) (GetFor i op) = {((v, g), View (spec_get_for v i))}"
| "spec_exec J L B (v, g) (Reveal i op) = {((v, g), Secret (spec_reveal v i))}"
| "spec_exec J L B (v, g) (CopySecretOf i op d) = put v (spec_put B d (spec_reveal v i) g)"
| "spec_exec J L B (v, g) (CopyTotpOf i op time d) =
    put v (spec_put B (case d of Some t \<Rightarrow> t | None \<Rightarrow> dur_secs 30) (spec_code L v i time) g)"

end
