(* ===== verification/Json_Sample.thy ===== *)
theory Json_Sample
  imports Samples
begin

text \<open>
  A JSON library for the witnesses that need one for all payloads: values are written as
  self-delimiting byte strings, numbers in unary, and read back exactly. It stands in for
  serde\_json, of which the properties use nothing but that what is written is read back.
\<close>

definition reads_back :: "('a \<Rightarrow> bytes) \<Rightarrow> (bytes \<Rightarrow> ('a \<times> bytes) option) \<Rightarrow> bool" where
  "reads_back put get \<longleftrightarrow> (\<forall>x rest. get (put x @ rest) = Some (x, rest))"

lemma reads_backD [simp]: "reads_back put get \<Longrightarrow> get (put x @ rest) = Some (x, rest)"
  by (simp add: reads_back_def)

lemma reads_backI: "(\<And>x rest. get (put x @ rest) = Some (x, rest)) \<Longrightarrow> reads_back put get"
  by (simp add: reads_back_def)

section \<open>Numbers, pairs, options and lists\<close>

fun put_nat :: "nat \<Rightarrow> bytes" where
  "put_nat 0 = [0]"
| "put_nat (Suc n) = 1 # put_nat n"

fun get_nat :: "bytes \<Rightarrow> (nat \<times> bytes) option" where
  "get_nat [] = None"
| "get_nat (b # bs) = (if b = 0 then Some (0, bs) else map_option (\<lambda>(n, r). (Suc n, r)) (get_nat bs))"

lemma nat_back [intro!]: "reads_back put_nat get_nat"
proof (rule reads_backI)
  show "get_nat (put_nat n @ rest) = Some (n, rest)" for n rest
    by (induction n) auto
qed

definition put_via :: "('b \<Rightarrow> 'a) \<Rightarrow> ('a \<Rightarrow> bytes) \<Rightarrow> 'b \<Rightarrow> bytes" where
  "put_via f put x = put (f x)"

definition get_via :: "('a \<Rightarrow> 'b) \<Rightarrow> (bytes \<Rightarrow> ('a \<times> bytes) option) \<Rightarrow> bytes \<Rightarrow> ('b \<times> bytes) option" where
  "get_via g get bs = map_option (\<lambda>(x, r). (g x, r)) (get bs)"

lemma via_back: "reads_back put get \<Longrightarrow> (\<And>x. g (f x) = x) \<Longrightarrow> reads_back (put_via f put) (get_via g get)"
  by (simp add: reads_back_def put_via_def get_via_def)

definition put_pair :: "('a \<Rightarrow> bytes) \<Rightarrow> ('b \<Rightarrow> bytes) \<Rightarrow> 'a \<times> 'b \<Rightarrow> bytes" where
  "put_pair p q xy = p (fst xy) @ q (snd xy)"

definition get_pair ::
    "(bytes \<Rightarrow> ('a \<times> bytes) option) \<Rightarrow> (bytes \<Rightarrow> ('b \<times> bytes) option) \<Rightarrow> bytes \<Rightarrow> (('a \<times> 'b) \<times> bytes) option" where
  "get_pair g h bs =
    (case g bs of None \<Rightarrow> None | Some (x, r) \<Rightarrow> map_option (\<lambda>(y, r'). ((x, y), r')) (h r))"

lemma pair_back [intro!]:
  "reads_back p g \<Longrightarrow> reads_back q h \<Longrightarrow> reads_back (put_pair p q) (get_pair g h)"
  by (simp add: reads_back_def put_pair_def get_pair_def)

definition put_opt :: "('a \<Rightarrow> bytes) \<Rightarrow> 'a option \<Rightarrow> bytes" where
  "put_opt p x = (case x of None \<Rightarrow> [0] | Some y \<Rightarrow> 1 # p y)"

definition get_opt :: "(bytes \<Rightarrow> ('a \<times> bytes) option) \<Rightarrow> bytes \<Rightarrow> ('a option \<times> bytes) option" where
  "get_opt g bs = (case bs of [] \<Rightarrow> None
     | b # r \<Rightarrow> if b = 0 then Some (None, r) else map_option (\<lambda>(x, r'). (Some x, r')) (g r))"

lemma opt_back [intro!]: "reads_back p g \<Longrightarrow> reads_back (put_opt p) (get_opt g)"
  by (auto simp: reads_back_def put_opt_def get_opt_def split: option.splits)

fun get_times :: "(bytes \<Rightarrow> ('a \<times> bytes) option) \<Rightarrow> nat \<Rightarrow> bytes \<Rightarrow> ('a list \<times> bytes) option" where
  "get_times g 0 bs = Some ([], bs)"
| "get_times g (Suc n) bs =
    (case g bs of None \<Rightarrow> None | Some (x, r) \<Rightarrow> map_option (\<lambda>(xs, r'). (x # xs, r')) (get_times g n r))"

definition put_list :: "('a \<Rightarrow> bytes) \<Rightarrow> 'a list \<Rightarrow> bytes" where
  "put_list p xs = put_nat (length xs) @ concat (map p xs)"

definition get_list :: "(bytes \<Rightarrow> ('a \<times> bytes) option) \<Rightarrow> bytes \<Rightarrow> ('a list \<times> bytes) option" where
  "get_list g bs = (case get_nat bs of None \<Rightarrow> None | Some (n, r) \<Rightarrow> get_times g n r)"

lemma list_back [intro!]:
  assumes "reads_back p g"
  shows "reads_back (put_list p) (get_list g)"
proof (rule reads_backI)
  have "get_times g (length xs) (concat (map p xs) @ rest) = Some (xs, rest)" for xs rest
    using assms by (induction xs) auto
  then show "get_list g (put_list p xs @ rest) = Some (xs, rest)" for xs rest
    using nat_back by (simp add: put_list_def get_list_def)
qed

abbreviation put_word :: "'w::len word \<Rightarrow> bytes" where "put_word \<equiv> put_via unat put_nat"
abbreviation get_word :: "bytes \<Rightarrow> ('w::len word \<times> bytes) option" where "get_word \<equiv> get_via of_nat get_nat"

lemma word_back [intro!]: "reads_back put_word get_word"
  by (rule via_back) auto

abbreviation put_text :: "rstring \<Rightarrow> bytes" where "put_text \<equiv> put_list put_nat"
abbreviation get_text :: "bytes \<Rightarrow> (rstring \<times> bytes) option" where "get_text \<equiv> get_list get_nat"

section \<open>Entries\<close>

fun type_index :: "entry_type \<Rightarrow> nat" where
  "type_index Password = 0" | "type_index SecureNote = 1" | "type_index Card = 2" | "type_index Totp = 3"

definition type_at :: "nat \<Rightarrow> entry_type" where
  "type_at n = (if n = 0 then Password else if n = 1 then SecureNote else if n = 2 then Card else Totp)"

fun algorithm_index :: "totp_algorithm \<Rightarrow> nat" where
  "algorithm_index Sha1 = 0" | "algorithm_index Sha256 = 1" | "algorithm_index Sha512 = 2"

definition algorithm_at :: "nat \<Rightarrow> totp_algorithm" where
  "algorithm_at n = (if n = 0 then Sha1 else if n = 1 then Sha256 else Sha512)"

lemma index_back [simp]: "type_at (type_index t) = t" "algorithm_at (algorithm_index a) = a"
  by (cases t; simp add: type_at_def) (cases a; simp add: algorithm_at_def)

definition put_totp :: "totp_secret_dto \<Rightarrow> bytes" where
  "put_totp = put_via (\<lambda>t. (td_issuer t, td_account_name t, td_secret_b32 t, td_digits t, td_period_secs t, td_algorithm t))
    (put_pair (put_opt put_text) (put_pair (put_opt put_text) (put_pair put_text
      (put_pair put_word (put_pair put_word (put_via algorithm_index put_nat))))))"

definition get_totp :: "bytes \<Rightarrow> (totp_secret_dto \<times> bytes) option" where
  "get_totp = get_via (\<lambda>(issuer, account, secret, digits, period, algorithm).
      \<lparr>td_issuer = issuer, td_account_name = account, td_secret_b32 = secret, td_digits = digits,
       td_period_secs = period, td_algorithm = algorithm\<rparr>)
    (get_pair (get_opt get_text) (get_pair (get_opt get_text) (get_pair get_text
      (get_pair get_word (get_pair get_word (get_via algorithm_at get_nat))))))"

lemma totp_back [intro!]: "reads_back put_totp get_totp"
  unfolding put_totp_def get_totp_def by (rule via_back) (auto intro: via_back)

definition put_secret :: "entry_secret_dto \<Rightarrow> bytes" where
  "put_secret = put_via (\<lambda>s. (sd_title s, sd_note s, sd_username s, sd_secret s, sd_extra s, sd_totp s))
    (put_pair put_text (put_pair (put_opt put_text) (put_pair (put_opt put_text) (put_pair put_text
      (put_pair (put_opt (put_list put_word)) (put_opt put_totp))))))"

definition get_secret :: "bytes \<Rightarrow> (entry_secret_dto \<times> bytes) option" where
  "get_secret = get_via (\<lambda>(title, note, username, secret, extra, totp).
      \<lparr>sd_title = title, sd_note = note, sd_username = username, sd_secret = secret, sd_extra = extra, sd_totp = totp\<rparr>)
    (get_pair get_text (get_pair (get_opt get_text) (get_pair (get_opt get_text) (get_pair get_text
      (get_pair (get_opt (get_list get_word)) (get_opt get_totp))))))"

lemma secret_back [intro!]: "reads_back put_secret get_secret"
  unfolding put_secret_def get_secret_def by (rule via_back) auto

definition put_entry :: "vault_entry_dto \<Rightarrow> bytes" where
  "put_entry = put_via (\<lambda>e. (em_id (vd_meta e), em_entry_type (vd_meta e), vd_secret e))
    (put_pair put_word (put_pair (put_via type_index put_nat) put_secret))"

definition get_entry_dto :: "bytes \<Rightarrow> (vault_entry_dto \<times> bytes) option" where
  "get_entry_dto = get_via (\<lambda>(i, t, s). \<lparr>vd_meta = \<lparr>em_id = i, em_entry_type = t\<rparr>, vd_secret = s\<rparr>)
    (get_pair get_word (get_pair (get_via type_at get_nat) get_secret))"

lemma entry_back [intro!]: "reads_back put_entry get_entry_dto"
  unfolding put_entry_def get_entry_dto_def by (rule via_back) (auto intro: via_back)

section \<open>The library\<close>

definition full_json :: "vault_header \<Rightarrow> json_lib" where
  "full_json h = (demo_json h)
    \<lparr>json_of_payload := \<lambda>ds. Some (put_list put_entry ds),
     json_to_payload := \<lambda>bs. (case get_list get_entry_dto bs of Some (ds, []) \<Rightarrow> Some ds | _ \<Rightarrow> None)\<rparr>"

lemma full_json_ok [simp]: "payload_json_ok (full_json h) ds"
proof -
  have "get_list get_entry_dto (put_list put_entry ds @ []) = Some (ds, [])"
    by (rule reads_backD) auto
  then show ?thesis by (simp add: payload_json_ok_def full_json_def)
qed

lemma full_json_read: "payload_ok p \<Longrightarrow> \<exists>bs. payload_to_vec (full_json h) p = Some bs \<and> payload_from_slice (full_json h) bs = Some p"
  using payload_from_to_vec [OF full_json_ok] by (simp add: payload_to_vec_def full_json_def)

lemma full_json_sel [simp]:
  "json_of_header (full_json h) h = Some [7]"
  "header_json_ok (full_json h) h"
  "payload_to_vec (full_json h) empty_payload = Some [0]"
  using demo_json_sel(1,2) [of h]
  by (simp_all add: full_json_def header_json_ok_def payload_to_vec_def empty_payload_def put_list_def)

end
