(* ===== verification/App_Refinement.thy ===== *)
theory App_Refinement
  imports Vault_App Json_Sample
begin

text \<open>
  The library implements the abstract service of \<open>Vault_App\<close>: every run of the calls, with the answers
  given, is a run the service allows. The proof goes call by call: edits through the closures of
  \<open>Entry_Ops\<close>, queries through the finite map, manager calls through the posture of the session.
\<close>

section \<open>Abstraction\<close>

definition posture_of :: "session_state \<Rightarrow> posture" where
  "posture_of s = \<lparr>po_strength = us_auth_strength s, po_reauth = us_strong_reauth_required s,
     po_outcome = us_unlock_outcome s, po_runtime = us_runtime_state s\<rparr>"

fun vault_view_of :: "json_lib \<Rightarrow> vault_state \<Rightarrow> vault_view" where
  "vault_view_of J Locked = Shut"
| "vault_view_of J (Unlocked s) =
    Open (posture_of s) (map_option entry_map (payload_from_slice J (us_plaintext_json s)))"

definition view_of :: "json_lib \<Rightarrow> 'h app \<Rightarrow> 'h spec_state" where
  "view_of J s = (vault_view_of J (lm_state (ap_manager s)), ap_clipboard s)"

text \<open>Identifiers are unique in every payload; what a host has to keep to for that.\<close>

definition tidy_manager :: "json_lib \<Rightarrow> lock_manager \<Rightarrow> bool" where
  "tidy_manager J m \<longleftrightarrow> (\<forall>p. get_payload J m = Some p \<longrightarrow> unique_ids p)"

abbreviation tidy :: "json_lib \<Rightarrow> 'h app \<Rightarrow> bool" where
  "tidy J s \<equiv> tidy_manager J (ap_manager s)"

fun tidy_call :: "json_lib \<Rightarrow> lock_event \<Rightarrow> bool" where
  "tidy_call J (EvUnlock pj timeout a oc r) \<longleftrightarrow> (\<forall>p. payload_from_slice J pj = Some p \<longrightarrow> unique_ids p)"
| "tidy_call J (EvEdit J' f) \<longleftrightarrow> False"
| "tidy_call J _ \<longleftrightarrow> True"

fun tidy_event :: "json_lib \<Rightarrow> 'h app_event \<Rightarrow> bool" where
  "tidy_event J (Manager e) \<longleftrightarrow> tidy_call J e"
| "tidy_event J (Update i e) \<longleftrightarrow> entry_id e = i"
| "tidy_event J _ \<longleftrightarrow> True"

text \<open>A JSON library that writes every payload and reads it back.\<close>
definition json_total :: "json_lib \<Rightarrow> bool" where
  "json_total J \<longleftrightarrow> (\<forall>ds. payload_json_ok J ds)"

section \<open>Payloads and maps\<close>

lemma find_unique:
  "distinct (map (\<lambda>e. entry_id e) es) \<Longrightarrow> e \<in> set es \<Longrightarrow> List.find (\<lambda>x. entry_id x = entry_id e) es = Some e"
  by (induction es) (auto simp: rev_image_eqI)

lemma entries_are_range: "unique_ids p \<Longrightarrow> set (vp_entries p) = ran (entry_map p)"
  proof -
  assume u: "unique_ids p"
  have "entry_map p (entry_id e) = Some e" if "e \<in> set (vp_entries p)" for e
    using u that by (simp add: unique_ids_def entry_map_def find_unique)
  then show ?thesis by (auto simp: ran_def dest: entry_map_id)
qed

lemma payload_ok_range: "unique_ids p \<Longrightarrow> payload_ok p \<longleftrightarrow> (\<forall>e\<in>ran (entry_map p). entry_ok e)"
  by (simp add: payload_ok_def list_all_iff entries_are_range)

lemma view_Open:
  "vault_view_of J (lm_state m) = Open po (Some f) \<longleftrightarrow>
    (\<exists>s p. lm_state m = Unlocked s \<and> po = posture_of s \<and> get_payload J m = Some p \<and> f = entry_map p)"
  by (cases "lm_state m") (auto simp: payload_access)

lemma view_unreadable: "get_payload J m = None \<longleftrightarrow> (\<nexists>po f. vault_view_of J (lm_state m) = Open po (Some f))"
  by (cases "lm_state m") (auto simp: payload_access)

section \<open>Edits\<close>

text \<open>A closure implements an operation on maps.\<close>
definition implements ::
    "payload_closure \<Rightarrow> (entries \<Rightarrow> entries \<times> (entry_error + unit)) \<Rightarrow> bool" where
  "implements c g \<longleftrightarrow>
    (\<forall>p p' r. unique_ids p \<longrightarrow> c p = (p', r) \<longrightarrow> g (entry_map p) = (entry_map p', r) \<and> unique_ids p')"

lemma implementsD:
  "implements c g \<Longrightarrow> unique_ids p \<Longrightarrow> c p = (p', r) \<Longrightarrow> g (entry_map p) = (entry_map p', r) \<and> unique_ids p'"
  by (simp add: implements_def)

lemma add_implements: "implements (add_entry_in e) (spec_add e)"
  by (auto simp: implements_def add_entry_in_eq spec_add_def entry_map_snoc unique_ids_snoc split: if_splits)

lemma delete_implements: "implements (delete_entry_in i) (spec_delete i)"
  by (auto simp: implements_def spec_delete_def dest: delete_entry_in_map delete_entry_in_unique)

text \<open>Only the entry that is changed has to keep its identifier.\<close>

lemma at_first_cong:
  "(\<And>e. entry_id e = i \<Longrightarrow> f e = f' e) \<Longrightarrow> at_first i f es = at_first i f' es"
  by (induction es) auto

lemma change_implements:
  assumes "\<And>e. entry_id e = i \<Longrightarrow> entry_id (fst (change e)) = i"
  shows "implements (\<lambda>p. let (es, r) = at_first i change (vp_entries p) in (p\<lparr>vp_entries := es\<rparr>, r))
    (spec_change i change)"
proof -
  let ?f = "\<lambda>e. if entry_id e = i then change e else (e, Inr ())"
  have k: "entry_id (fst (?f e)) = entry_id e" for e using assms by simp
  have "spec_change i change (entry_map p) = (entry_map (p\<lparr>vp_entries := es\<rparr>), r) \<and>
      (unique_ids p \<longrightarrow> unique_ids (p\<lparr>vp_entries := es\<rparr>))"
    if "at_first i change (vp_entries p) = (es, r)" for p es r
  proof -
    have f: "at_first i ?f (vp_entries p) = (es, r)"
      using that at_first_cong [of i change ?f] by simp
    have m: "entry_map (p\<lparr>vp_entries := es\<rparr>) j =
        (if j = i then map_option (\<lambda>e. fst (?f e)) (entry_map p i) else entry_map p j)" for j
      using at_first_find [OF f k, of j] by (simp add: entry_map_def)
    have "r = (case entry_map p i of None \<Rightarrow> Inl EntryNotFound | Some e \<Rightarrow> snd (?f e))"
      and "map (\<lambda>e. entry_id e) es = map (\<lambda>e. entry_id e) (vp_entries p)"
      using at_first_find [OF f k] by (simp_all add: entry_map_def)
    then show ?thesis
      using m entry_map_id [of p i]
      by (cases "entry_map p i") (auto simp: spec_change_def unique_ids_def fun_eq_iff)
  qed
  then show ?thesis by (auto simp: implements_def split: prod.splits)
qed

lemma update_implements: "entry_id e = i \<Longrightarrow> implements (update_entry_in i e) (spec_change i (\<lambda>_. (e, Inr ())))"
  using change_implements [of i "\<lambda>_. (e, Inr ())"] by (simp add: update_entry_in_def [abs_def])

lemma update_fields_implements:
  "implements (update_entry_fields_in i u) (spec_change i (\<lambda>e. apply_update e u))"
  using change_implements [of i "\<lambda>e. apply_update e u"]
  by (simp add: update_entry_fields_in_def [abs_def] apply_update_meta)

lemma edit_simulates:
  assumes "json_total J" and "tidy_manager J m" and "implements c g"
    and "or_locked (with_unlocked_payload_mut J m c) = (m', r)"
  shows "spec_edit g (vault_view_of J (lm_state m)) = (vault_view_of J (lm_state m'), r) \<and> tidy_manager J m'"
proof (cases "get_payload J m")
  case None
  then show ?thesis
    using vault.run_closed [OF None, of c] assms(2,4) view_unreadable [of J m]
    by (cases "vault_view_of J (lm_state m)") auto
next
  case (Some p)
  obtain s where s: "lm_state m = Unlocked s" "payload_from_slice J (us_plaintext_json s) = Some p"
    using Some by (auto simp: payload_access split: vault_state.splits)
  obtain p' r' where c: "c p = (p', r')" by fastforce
  have i: "g (entry_map p) = (entry_map p', r')" "unique_ids p'"
    using implementsD [OF assms(3) _ c] assms(2) Some by (simp_all add: tidy_manager_def)
  have w: "payload_json_ok J (map entry_to_dto (vp_entries p'))" using assms(1) by (simp add: json_total_def)
  then obtain bs where bs: "payload_to_vec J p' = Some bs" using payload_to_vec_ok by blast
  then have m': "m' = m\<lparr>lm_state := Unlocked (s\<lparr>us_plaintext_json := bs\<rparr>)\<rparr>" "r' = r"
    using assms(4) s c by (auto simp: payload_access)
  have read: "payload_from_slice J bs = (if payload_ok p' then Some p' else None)"
    by (rule payload_from_to_vec [OF w bs])
  then show ?thesis
    using s i m' by (auto simp: posture_of_def payload_ok_range tidy_manager_def payload_access)
qed

section \<open>Queries\<close>

lemma authorise_simulates:
  "map_err (\<lambda>e. e) (rbind (authorize_sensitive_operation m op) (\<lambda>_. Inr ())) =
    spec_authorised (vault_view_of J (lm_state m))"
  by (cases "lm_state m") (auto simp: authorize_session posture_of_def)

lemma authorise_then:
  "rbind (authorize_sensitive_operation m op) (\<lambda>_. k) = rbind (spec_authorised (vault_view_of J (lm_state m))) (\<lambda>_. k)"
  by (cases "lm_state m") (auto simp: authorize_session posture_of_def)

lemma get_simulates: "get_entry J m i = spec_get (vault_view_of J (lm_state m)) i"
  by (cases "lm_state m") (auto simp: get_entry_map payload_access split: option.splits)

lemma get_for_simulates: "get_entry_for_operation J m i op = spec_get_for (vault_view_of J (lm_state m)) i"
  by (simp add: get_entry_for_operation_def spec_get_for_def authorise_then [of m op _ J] get_simulates)

lemma reveal_simulates: "reveal_entry_secret_for_operation J m i op = spec_reveal (vault_view_of J (lm_state m)) i"
  by (simp add: reveal_entry_secret_for_operation_def spec_reveal_def get_for_simulates)

lemma copy_simulates:
  "copy_entry_secret_for_operation J m B i op d g = spec_put B d (spec_reveal (vault_view_of J (lm_state m)) i) g"
  by (simp add: copy_entry_secret_for_operation_def spec_put_def reveal_simulates split: sum.splits)

lemma copy_code_simulates:
  "copy_entry_totp_for_operation L J m B i op time d g =
    spec_put B (case d of Some t \<Rightarrow> t | None \<Rightarrow> dur_secs 30) (spec_code L (vault_view_of J (lm_state m)) i time) g"
proof (cases "authorize_sensitive_operation m op")
  case (Inl e)
  then have "spec_authorised (vault_view_of J (lm_state m)) = Inl e"
    using authorise_then [of m op "Inr ()" J] by (cases "spec_authorised (vault_view_of J (lm_state m))") auto
  with Inl show ?thesis
    by (simp add: copy_entry_totp_for_operation_def spec_put_def spec_code_def spec_get_for_def)
next
  case (Inr po)
  then obtain u where "spec_authorised (vault_view_of J (lm_state m)) = Inr u"
    using authorise_then [of m op "Inr ()" J] by (cases "spec_authorised (vault_view_of J (lm_state m))") auto
  with Inr show ?thesis
    by (auto simp: copy_entry_totp_for_operation_def spec_put_def spec_code_def spec_get_for_def get_simulates
        totp_generate_and_copy_to_clipboard_def Let_def DEFAULT_OTP_CLIPBOARD_TIMEOUT_SECS_def
        split: sum.splits option.splits)
qed

lemma listing_simulates:
  assumes "tidy_manager J m"
  shows "list_entries J m \<in> spec_listing (vault_view_of J (lm_state m))"
proof (cases "get_payload J m")
  case None
  then show ?thesis
    using locked_ops(6) [OF None] view_unreadable [of J m] by (cases "vault_view_of J (lm_state m)" ) auto
next
  case (Some p)
  then obtain s where s: "lm_state m = Unlocked s" "payload_from_slice J (us_plaintext_json s) = Some p"
    by (auto simp: payload_access split: vault_state.splits)
  have "unique_ids p" using assms Some by (simp add: tidy_manager_def)
  moreover have "map sum_id (map to_summary es) = map (\<lambda>e. entry_id e) es" for es
    by (simp add: to_summary_def)
  ultimately show ?thesis
    using s by (auto simp: list_entries_def payload_access unique_ids_def entries_are_range [symmetric] simp del: map_map)
qed

section \<open>Manager calls\<close>

lemma tidy_manager_iff:
  "tidy_manager J m \<longleftrightarrow>
    (\<forall>s p. lm_state m = Unlocked s \<longrightarrow> payload_from_slice J (us_plaintext_json s) = Some p \<longrightarrow> unique_ids p)"
  by (cases "lm_state m") (auto simp: tidy_manager_def payload_access)

lemma posture_on_runtime [simp]:
  "posture_of (on_runtime_state r s) = see_runtime r (posture_of s)"
  "us_plaintext_json (on_runtime_state r s) = us_plaintext_json s"
  by (simp_all add: on_runtime_state_def posture_of_def see_runtime_def Let_def)

lemma posture_of_reauth [simp]:
  "posture_of (s\<lparr>us_strong_reauth_required := b\<rparr>) = (posture_of s)\<lparr>po_reauth := b\<rparr>"
  by (simp add: posture_of_def)

lemmas manager_call_defs = unlock_state open_session_def handle_runtime_security_event_def session_ops
  tidy_manager_iff task_state

lemma fire_state: "lm_state (task_fire i m) \<in> {lm_state m, Locked}"
  using task_state(4) [of i m] by auto

lemma manager_simulates:
  assumes "tidy_call J e" and "tidy_manager J m"
  shows "vault_view_of J (lm_state (exec_event m e)) \<in> spec_manager J (vault_view_of J (lm_state m)) e \<and>
    tidy_manager J (exec_event m e)"
proof (cases e)
  case (EvFire i)
  then show ?thesis
    using fire_state [of i m] assms(2) by (cases "lm_state m") (auto simp: tidy_manager_iff)
next
  case (EvUnlock pj timeout a oc r)
  then show ?thesis using assms by (auto simp: manager_call_defs posture_of_def)
qed (use assms in \<open>cases "lm_state m"; auto simp: manager_call_defs\<close>)+

section \<open>The simulation\<close>

lemma on_manager_edit:
  assumes "json_total J" and "tidy J s" and "implements c g"
    and "or_locked (with_unlocked_payload_mut J (ap_manager s) c) = (m', r)"
  shows "edited (ap_clipboard s) (spec_edit g (vault_view_of J (lm_state (ap_manager s)))) =
      {(view_of J (s\<lparr>ap_manager := m'\<rparr>), Result r)} \<and> tidy J (s\<lparr>ap_manager := m'\<rparr>)"
  using edit_simulates [OF assms] by (simp add: edited_def view_of_def)

lemmas edit_ops = add_entry_def update_entry_def update_entry_fields_def delete_entry_def

lemma app_simulates:
  assumes "json_total J" and "tidy J s" and "tidy_event J e" and "app_exec J L B s e = (s', a)"
  shows "(view_of J s', a) \<in> spec_exec J L B (view_of J s) e \<and> tidy J s'"
proof -
  have edit: "(view_of J s', a) \<in> edited (ap_clipboard s) (spec_edit g (vault_view_of J (lm_state (ap_manager s)))) \<and>
      tidy J s'"
    if "implements c g" "on_manager s (or_locked (with_unlocked_payload_mut J (ap_manager s) c)) = (s', a)" for c g
  proof -
    obtain m' r where o: "or_locked (with_unlocked_payload_mut J (ap_manager s) c) = (m', r)" by fastforce
    then have "s' = s\<lparr>ap_manager := m'\<rparr>" "a = Result r" using that(2) by (simp_all add: on_manager_def)
    then show ?thesis using on_manager_edit [OF assms(1,2) that(1) o] by simp
  qed
  show ?thesis
  proof (cases e)
    case (Manager m)
    then show ?thesis
      using manager_simulates [of J m "ap_manager s"] assms(2-4) by (auto simp: view_of_def)
  next
    case (Add e)
    then show ?thesis using edit [OF add_implements, of e] assms(4) by (simp add: view_of_def edit_ops)
  next
    case (Update i e)
    then show ?thesis
      using edit [OF update_implements, of e i] assms(3,4) by (simp add: view_of_def edit_ops)
  next
    case (UpdateFields i u)
    then show ?thesis using edit [OF update_fields_implements, of i u] assms(4) by (simp add: view_of_def edit_ops)
  next
    case (Delete i)
    then show ?thesis using edit [OF delete_implements, of i] assms(4) by (simp add: view_of_def edit_ops)
  next
    case ListAll
    then show ?thesis using listing_simulates [OF assms(2)] assms(2,4) by (auto simp: view_of_def)
  qed (use assms(2,4) in \<open>auto simp: view_of_def get_simulates get_for_simulates reveal_simulates copy_simulates
      copy_code_simulates on_clipboard_def put_def\<close>)
qed

interpretation library: simulation "app_exec J L B" "spec_exec J L B" "view_of J" "tidy_event J"
  "\<lambda>s. json_total J \<and> tidy J s" for J L B
  by unfold_locales (use app_simulates in blast)+

section \<open>Properties\<close>

text \<open>C1. The library is a finite map behind a lock: in every run, every answer it gives is one that the abstract
  service allows, which knows a posture, a map from identifiers to entries and the clipboard guard. An
  edit changes the map at the one identifier it names, a call made for a sensitive operation takes an entry
  out of the map only when the posture authorises it, a listing has one summary per entry, the timer may
  lock, and an entry no reader accepts closes the map. Identifiers stay unique as long as the host replaces
  entries under their own identifier and opens payloads in which they are.\<close>

theorem library_implements_service:
  assumes "json_total J" and "tidy J s" and "\<forall>e\<in>set es. tidy_event J e"
    and "replies (app_exec J L B) s es = (s', answers)"
  shows "allowed (spec_exec J L B) (view_of J s) (zip es answers) (view_of J s') \<and>
    length answers = length es \<and> tidy J s'"
  using library.trace_allowed [OF assms(4) _ assms(3)] assms(1,2) by blast

theorem library_implements_service_witness:
  "\<exists>pj s' answers. replies (app_exec (full_json demo_header) toy_totp mem_backend) (app_new None)
      [Manager (EvUnlock pj 60 Strong Primary NotDebugged), Add demo_entry, Get 5] = (s', answers) \<and>
    allowed (spec_exec (full_json demo_header) toy_totp mem_backend) (Shut, guard_new None)
      (zip [Manager (EvUnlock pj 60 Strong Primary NotDebugged), Add demo_entry, Get 5] answers)
      (view_of (full_json demo_header) s') \<and> answers ! 2 = View (Inr (to_view demo_entry))"
proof -
  let ?J = "full_json demo_header" and ?B = mem_backend
  obtain pj where pj: "payload_from_slice ?J pj = Some empty_payload"
    using full_json_read [OF demo_payload_ok(2)] by blast
  let ?es = "[Manager (EvUnlock pj 60 Strong Primary NotDebugged), Add demo_entry, Get 5]"
  obtain s' answers where r: "replies (app_exec ?J toy_totp ?B) (app_new None) ?es = (s', answers)" by fastforce
  have v: "view_of ?J (app_new None) = (Shut, guard_new None)" and t: "tidy ?J (app_new None)"
    by (simp_all add: view_of_def app_new_def manager_new_def tidy_manager_iff)
  have e: "entry_map empty_payload = Map.empty" "unique_ids empty_payload"
    by (auto simp: entry_map_def empty_payload_def unique_ids_def)
  have all: "allowed (spec_exec ?J toy_totp ?B) (Shut, guard_new None) (zip ?es answers) (view_of ?J s')"
    "length answers = 3"
    using library_implements_service [OF _ t _ r] pj e by (auto simp: json_total_def v)
  obtain a b c where "answers = [a, b, c]" using all(2) by (auto simp: numeral_3_eq_3 length_Suc_conv)
  then have "answers ! 2 = View (Inr (to_view demo_entry))"
    using all(1) pj e by (auto simp: edited_def spec_add_def)
  then show ?thesis using r all(1) by blast
qed

end
