(* ===== verification/App_Secrecy.thy ===== *)
theory App_Secrecy
  imports App_Refinement Vault_Life Json_Sample
begin

text \<open>
  What leaves an unlocked vault in whole runs of the library: which session a released secret comes
  from, what a session that may release nothing still answers, and what a decoy session tells of the
  primary vault beside it.
\<close>

section \<open>Calls as manager events\<close>

text \<open>What a call does to the manager is a closure it runs there, or nothing.\<close>

definition edit_event :: "json_lib \<Rightarrow> payload_closure \<Rightarrow> lock_event" where
  "edit_event J c = EvEdit J (\<lambda>p. fst (c p))"

fun manager_events :: "json_lib \<Rightarrow> 'h app_event \<Rightarrow> lock_event list" where
  "manager_events J (Manager e) = [e]"
| "manager_events J (Add e) = [edit_event J (add_entry_in e)]"
| "manager_events J (Update i e) = [edit_event J (update_entry_in i e)]"
| "manager_events J (UpdateFields i u) = [edit_event J (update_entry_fields_in i u)]"
| "manager_events J (Delete i) = [edit_event J (delete_entry_in i)]"
| "manager_events J _ = []"

lemma edit_event_exec: "exec_event m (edit_event J c) = fst (or_locked (with_unlocked_payload_mut J m c))"
  by (auto simp: edit_event_def with_unlocked_payload_mut_def Let_def split: vault_state.splits option.splits prod.splits)

abbreviation app_step :: "json_lib \<Rightarrow> totp_lib \<Rightarrow> 'h clipboard_backend \<Rightarrow> 'h app \<Rightarrow> 'h app_event \<Rightarrow> 'h app" where
  "app_step J L B s e \<equiv> fst (app_exec J L B s e)"

abbreviation app_run :: "json_lib \<Rightarrow> totp_lib \<Rightarrow> 'h clipboard_backend \<Rightarrow> 'h app \<Rightarrow> 'h app_event list \<Rightarrow> 'h app" where
  "app_run J L B \<equiv> run (app_step J L B)"

lemma manager_step: "ap_manager (app_step J L B s e) = run_manager (ap_manager s) (manager_events J e)"
  by (cases e) (auto simp: on_manager_def on_clipboard_def edit_event_exec edit_ops)

lemma manager_run:
  "ap_manager (app_run J L B s es) = run_manager (ap_manager s) (concat (map (manager_events J) es))"
  by (induction es arbitrary: s) (simp_all add: manager_step run_append)

lemma fst_replies: "fst (replies serve s es) = run (\<lambda>s e. fst (serve s e)) s es"
  by (induction es arbitrary: s) (simp_all add: Let_def case_prod_beta)

section \<open>Events that matter to a session\<close>

fun opens :: "'h app_event \<Rightarrow> bool" where
  "opens (Manager e) = is_unlock e"
| "opens _ = False"

fun shuts :: "'h app_event \<Rightarrow> bool" where
  "shuts (Manager EvLock) = True"
| "shuts (Manager (EvSecurity e)) = (e \<noteq> AppBackgrounded)"
| "shuts _ = False"

text \<open>After these a strong authentication has to be given again.\<close>
fun risky :: "'h app_event \<Rightarrow> bool" where
  "risky (Manager (EvSecurity e)) = (e = AppBackgrounded)"
| "risky (Manager (EvSetRuntime r)) = (r \<noteq> NotDebugged)"
| "risky (Manager (EvRefresh r)) = (r \<noteq> NotDebugged)"
| "risky (Manager EvMark) = True"
| "risky _ = False"

lemma no_unlock_events: "\<not> opens x \<Longrightarrow> e \<in> set (manager_events J x) \<Longrightarrow> \<not> is_unlock e"
  by (cases x) (auto simp: edit_event_def)

lemma no_clear_events: "x \<noteq> Manager EvClear \<Longrightarrow> e \<in> set (manager_events J x) \<Longrightarrow> e \<noteq> EvClear"
  by (cases x) (auto simp: edit_event_def)

lemma shut_stays:
  assumes "lm_state (ap_manager s) = Locked" and "\<forall>x\<in>set es. \<not> opens x"
  shows "lm_state (ap_manager (app_run J L B s es)) = Locked"
  using locked.run_inv_all [of "ap_manager s" "concat (map (manager_events J) es)"] assms
  by (auto simp: manager_run session_all_False dest: no_unlock_events)

lemma origin_stays:
  assumes "session_all (\<lambda>t. us_unlock_outcome t = oc \<and> us_auth_strength t = st) (ap_manager s)"
    and "\<forall>x\<in>set es. \<not> opens x"
  shows "session_all (\<lambda>t. us_unlock_outcome t = oc \<and> us_auth_strength t = st) (ap_manager (app_run J L B s es))"
  unfolding manager_run by (rule origin.run_inv_all [OF assms(1)]) (use assms(2) in \<open>auto dest: no_unlock_events\<close>)

lemma reauth_stays:
  assumes "session_all us_strong_reauth_required (ap_manager s)"
    and "\<forall>x\<in>set es. \<not> opens x \<and> x \<noteq> Manager EvClear"
  shows "session_all us_strong_reauth_required (ap_manager (app_run J L B s es))"
  unfolding manager_run
  by (rule reauth.run_inv_all [OF assms(1)]) (use assms(2) in \<open>auto dest: no_unlock_events no_clear_events\<close>)

lemma shuts_step: "shuts x \<Longrightarrow> lm_state (ap_manager (app_step J L B s x)) = Locked"
  by (cases x rule: shuts.cases) (auto simp: handle_runtime_security_event_def)

lemma risky_step: "risky x \<Longrightarrow> session_all us_strong_reauth_required (ap_manager (app_step J L B s x))"
  by (cases x rule: risky.cases; cases "lm_state (ap_manager s)")
     (auto simp: session_all_def handle_runtime_security_event_def session_ops)

lemma opens_cases: "opens x \<Longrightarrow> \<exists>pj timeout a oc r. x = Manager (EvUnlock pj timeout a oc r)"
  by (cases x) (auto elim: is_unlock.elims)

section \<open>Releases\<close>

text \<open>An answer that hands a secret to the caller or puts it on the clipboard after an authorisation.\<close>

fun releases :: "'h app_event \<Rightarrow> app_answer \<Rightarrow> bool" where
  "releases (GetFor i op) (View (Inr v)) = True"
| "releases (Reveal i op) (Secret (Inr s)) = True"
| "releases (CopySecretOf i op d) (Result (Inr u)) = True"
| "releases (CopyTotpOf i op time d) (Result (Inr u)) = True"
| "releases _ _ = False"

definition trusted_session :: "session_state \<Rightarrow> bool" where
  "trusted_session t \<longleftrightarrow> us_unlock_outcome t = Primary \<and> us_auth_strength t = Strong \<and>
     us_runtime_state t = NotDebugged \<and> \<not> us_strong_reauth_required t"

lemma authorised_trusted:
  "is_ok (authorize_sensitive_operation m op) \<longleftrightarrow> (\<exists>t. lm_state m = Unlocked t \<and> trusted_session t)"
  by (cases "lm_state m") (auto simp: authorize_session trusted_session_def is_ok_iff)

lemma release_is_authorised:
  assumes "app_exec J L B s e = (s', a)" and "releases e a"
  shows "\<exists>t. lm_state (ap_manager s) = Unlocked t \<and> trusted_session t"
proof -
  have "\<exists>op. is_ok (authorize_sensitive_operation (ap_manager s) op)"
  proof (cases e)
    case (GetFor i op)
    then show ?thesis
      using assms by (cases "authorize_sensitive_operation (ap_manager s) op")
        (auto simp: get_entry_for_operation_def is_ok_iff)
  next
    case (Reveal i op)
    then obtain v where "reveal_entry_secret_for_operation J (ap_manager s) i op = Inr v"
      using assms by (cases "reveal_entry_secret_for_operation J (ap_manager s) i op") auto
    then show ?thesis using reveal_iff by blast
  next
    case (CopySecretOf i op d)
    obtain g r where c: "copy_entry_secret_for_operation J (ap_manager s) B i op d (ap_clipboard s) = (g, r)" by fastforce
    then have "r = Inr ()" using assms CopySecretOf by (cases r) (auto simp: on_clipboard_def)
    then show ?thesis using copy_secret_cases [OF c] reveal_iff by blast
  next
    case (CopyTotpOf i op time d)
    obtain g r where c: "copy_entry_totp_for_operation L J (ap_manager s) B i op time d (ap_clipboard s) = (g, r)"
      by fastforce
    then have "r = Inr ()" using assms CopyTotpOf by (cases r) (auto simp: on_clipboard_def)
    then show ?thesis using copy_totp_cases [OF c] by blast
  qed (use assms(2) in simp_all)
  then show ?thesis by (simp add: authorised_trusted)
qed

text \<open>Nothing is released in a run from a decoy session that opens no other.\<close>

lemma decoy_run_releases_nothing:
  assumes "session_all (\<lambda>t. us_unlock_outcome t = Decoy \<and> us_auth_strength t = st) (ap_manager s)"
    and "\<forall>x\<in>set es. \<not> opens x" and "replies (app_exec J L B) s es = (s', answers)"
  shows "\<forall>(x, a)\<in>set (zip es answers). \<not> releases x a"
  using assms
proof (induction es arbitrary: s answers)
  case (Cons e es)
  obtain s1 a where e: "app_exec J L B s e = (s1, a)" by fastforce
  then obtain answers' where r: "replies (app_exec J L B) s1 es = (s', answers')" "answers = a # answers'"
    using Cons.prems(3) by (auto split: prod.splits)
  have "session_all (\<lambda>t. us_unlock_outcome t = Decoy \<and> us_auth_strength t = st) (ap_manager s1)"
    using origin_stays [OF Cons.prems(1), of "[e]" J L B] Cons.prems(2) e by simp
  moreover have "\<not> releases e a"
    using release_is_authorised [OF e] Cons.prems(1) by (auto simp: session_all_def trusted_session_def)
  ultimately show ?case using Cons.IH [OF _ _ r(1)] Cons.prems(2) r(2) by auto
qed simp

section \<open>A host that opens a vault\<close>

text \<open>
  A gated unlock, and then the calls of the host on the session it opens: the answers, the gate
  afterwards and the delay imposed, everything a person at the device can see.
\<close>

definition host_session ::
    "json_lib \<Rightarrow> crypto_lib \<Rightarrow> totp_lib \<Rightarrow> 'h clipboard_backend \<Rightarrow> auth_gate \<Rightarrow> instant \<Rightarrow> u64 \<Rightarrow> duration
      \<Rightarrow> runtime_inspection_state \<Rightarrow> 'h app \<Rightarrow> 'h app_event list \<Rightarrow> parsed_vault_file \<Rightarrow> master_password
      \<Rightarrow> ((unlock_error + 'h app \<times> app_answer list) \<times> auth_gate \<times> duration) option" where
  "host_session J C L B gate now r timeout rt s es parsed pw =
    map_option (\<lambda>(res, gate', slept).
        (rbind res (\<lambda>(outcome, json).
           Inr (replies (app_exec J L B) s (Manager (EvUnlock json timeout Strong outcome rt) # es))), gate', slept))
      (unlock_plaintext_json_gated J C gate now r parsed pw)"

text \<open>A password of the decoy branch, on a parsed file.\<close>

definition decoy_password :: "json_lib \<Rightarrow> crypto_lib \<Rightarrow> parsed_vault_file \<Rightarrow> master_password \<Rightarrow> bool" where
  "decoy_password J C parsed pw \<longleftrightarrow>
    (\<exists>dh env. vh_duress (pv_header parsed) = Some dh \<and> json_to_envelope J (pv_payload parsed) = Some env \<and>
      shut_out C (pv_header_bytes parsed) (dh_primary dh) (env_primary_ct env) pw)"

lemma host_session_decoy:
  assumes "unlock_vault_to_plaintext_json_with_outcome J C parsed pw = Inr (Decoy, json)"
  shows "host_session J C L B gate now r timeout rt s es parsed pw =
    Some (Inr (replies (app_exec J L B) s (Manager (EvUnlock json timeout Strong Decoy rt) # es)), gate, 0)"
  using assms by (simp add: host_session_def unlock_plaintext_json_gated_def auth_gate_run_def)

section \<open>Two vaults with one decoy\<close>

text \<open>The duress vault of \<open>Samples\<close>, and another with an empty primary vault under another password.\<close>

definition other_envelope :: dual_ciphertext_envelope where
  "other_envelope =
     \<lparr>env_primary_ct = toy_seal (as_bytes (lit ''xx'') @ ch_salt (demo_crypto 0)) (ch_nonce (demo_crypto 0)) [7] [0],
      env_decoy_ct = env_decoy_ct demo_envelope\<rparr>"

definition envelope_bytes :: "dual_ciphertext_envelope \<Rightarrow> bytes" where
  "envelope_bytes v = toy_bytes (env_primary_ct v) @ toy_bytes (env_decoy_ct v)"

definition demo_parsed :: "dual_ciphertext_envelope \<Rightarrow> parsed_vault_file" where
  "demo_parsed v = \<lparr>pv_format_version = 1, pv_header = demo_duress_header, pv_header_bytes = [7],
     pv_mode = Encrypted, pv_payload = envelope_bytes v\<rparr>"

abbreviation made_of :: "dual_ciphertext_envelope \<Rightarrow> vault_file" where
  "made_of v \<equiv> \<lparr>vf_header = demo_duress_header, vf_storage = SEncrypted (envelope_bytes v)\<rparr>"

lemma envelope_read: "json_to_envelope (demo_json h) (envelope_bytes v) = Some v"
  using demo_json_sel(7) [of h] demo_json_sel(8) [of h v] by (simp add: envelope_json_correct_def envelope_bytes_def)

lemma envelope_file:
  assumes "length (envelope_bytes v) \<le> 1000"
  shows "encode_vault_storage (demo_json demo_duress_header) NotDebugged (vf_header (made_of v)) (vf_storage (made_of v)) 1
      = Inr (short_file (envelope_bytes v))"
    and "length (short_file (envelope_bytes v)) \<le> 16 * 1024 * 1024"
    and "decode_vault_file (demo_json demo_duress_header) NotDebugged (short_file (envelope_bytes v)) (Some 1)
      MAX_VAULT_CONTAINER_PAYLOAD_LEN False = Inr (demo_parsed v)"
proof -
  show e: "encode_vault_storage (demo_json demo_duress_header) NotDebugged (vf_header (made_of v)) (vf_storage (made_of v)) 1
      = Inr (short_file (envelope_bytes v))" by (simp add: demo_encode)
  show l: "length (short_file (envelope_bytes v)) \<le> 16 * 1024 * 1024" using assms by simp
  show "decode_vault_file (demo_json demo_duress_header) NotDebugged (short_file (envelope_bytes v)) (Some 1)
      MAX_VAULT_CONTAINER_PAYLOAD_LEN False = Inr (demo_parsed v)"
    using decode_created [OF _ l, where probe = NotDebugged] e by (simp add: demo_parsed_def)
qed

lemma other_create:
  "create_duress_vault (demo_json demo_duress_header) toy_cipher demo_rng 7 (lit ''xx'') (lit ''no'')
     empty_payload empty_payload 1 demo_kdf = Inr (made_of other_envelope)"
  by (auto simp: create_duress_vault_def fill_def Let_def demo_duress_header_eq demo_duress_sel
      encrypt_duress_envelope_def encrypt_duress_envelope_from_plaintext_json_def
      other_envelope_def demo_envelope_def envelope_bytes_def validate_payload_json_def)

lemma demo_made: "demo_duress_vault = made_of demo_envelope"
  by (simp add: demo_duress_vault_def envelope_bytes_def)

lemma envelope_lengths: "length (envelope_bytes demo_envelope) \<le> 1000" "length (envelope_bytes other_envelope) \<le> 1000"
  by (simp_all add: envelope_bytes_def demo_envelope_def other_envelope_def)

lemma other_shut_out: "shut_out toy_cipher [7] (demo_crypto 0) (env_primary_ct other_envelope) (lit ''no'')"
  using demo_passwords_differ by (simp add: shut_out_def demo_opens other_envelope_def toy_seal_tag)

lemma decoy_no:
  "shut_out toy_cipher [7] (demo_crypto 0) (env_primary_ct v) (lit ''no'') \<Longrightarrow>
    decoy_password (demo_json demo_duress_header) toy_cipher (demo_parsed v) (lit ''no'')"
  by (simp add: decoy_password_def demo_parsed_def demo_duress_sel envelope_read)

lemma primary_opens:
  "unlock_vault_with_outcome (demo_json demo_duress_header) toy_cipher (demo_parsed demo_envelope) (lit ''pw'') =
    Inr (Primary, demo_payload)"
  "unlock_vault_with_outcome (demo_json demo_duress_header) toy_cipher (demo_parsed other_envelope) (lit ''xx'') =
    Inr (Primary, empty_payload)"
  by (simp_all add: unlock_vault_with_outcome_def demo_parsed_def demo_duress_sel envelope_read
      unlock_duress_envelope_def unlock_duress_envelope_to_plaintext_json_def demo_opens
      demo_envelope_def other_envelope_def)

section \<open>Properties\<close>

text \<open>C3. A released secret comes from the owner: whenever, in any run of the library, a gated call hands out
  an entry, a secret or a code, the session in force was opened by a strong unlock of the primary
  vault; it has not been locked since, and every event since then that asks for a new authentication, a
  runtime found restrictive at the unlock included, was followed by an explicit clearance.\<close>

theorem released_secret_has_owner:
  assumes "replies (app_exec J L B) (app_new h) es = (s, answers)"
    and "app_exec J L B s e = (s', a)" and "releases e a"
  shows "\<exists>before pj timeout rt after. es = before @ Manager (EvUnlock pj timeout Strong Primary rt) # after \<and>
    (\<forall>x\<in>set after. \<not> opens x \<and> \<not> shuts x) \<and>
    (rt \<noteq> NotDebugged \<longrightarrow> Manager EvClear \<in> set after) \<and>
    (\<forall>xs x ys. after = xs @ x # ys \<longrightarrow> risky x \<longrightarrow> Manager EvClear \<in> set ys)"
proof -
  have s: "s = app_run J L B (app_new h) es"
    using fst_replies [of "app_exec J L B" "app_new h" es] assms(1) by simp
  obtain t where t: "lm_state (ap_manager s) = Unlocked t" "trusted_session t"
    using release_is_authorised [OF assms(2,3)] by blast
  have "\<exists>x\<in>set es. opens x"
    using shut_stays [of "app_new h" es J L B] s t(1) by (auto simp: app_new_def manager_new_def)
  then obtain before x after where es: "es = before @ x # after" and x: "opens x"
    and after: "\<forall>y\<in>set after. \<not> opens y" by (metis split_list_last_prop)
  obtain pj timeout st oc rt where u: "x = Manager (EvUnlock pj timeout st oc rt)" using opens_cases [OF x] by blast
  let ?s0 = "app_step J L B (app_run J L B (app_new h) before) x"
  have open0: "lm_state (ap_manager ?s0) = open_session pj st oc rt" by (simp add: u unlock_state)
  have run: "s = app_run J L B ?s0 after" by (simp add: s es run_append)
  have "session_all (\<lambda>t. us_unlock_outcome t = oc \<and> us_auth_strength t = st) (ap_manager s)"
    unfolding run by (rule origin_stays [OF _ after]) (simp add: session_all_def open0 open_session_def)
  then have own: "st = Strong" "oc = Primary" using t by (auto simp: session_all_def trusted_session_def)
  have last: "lm_state (ap_manager s1) \<noteq> Locked \<and>
      (session_all us_strong_reauth_required (ap_manager s1) \<longrightarrow> Manager EvClear \<in> set ys)"
    if "s = app_run J L B s1 ys" "\<forall>y\<in>set ys. \<not> opens y" for s1 ys
    using shut_stays [of s1 ys J L B] reauth_stays [of s1 ys J L B] that t
    by (auto simp: session_all_def trusted_session_def)
  have split: "lm_state (ap_manager (app_step J L B (app_run J L B ?s0 xs) y)) \<noteq> Locked \<and>
      (session_all us_strong_reauth_required (ap_manager (app_step J L B (app_run J L B ?s0 xs) y)) \<longrightarrow>
        Manager EvClear \<in> set ys)" if "after = xs @ y # ys" for xs y ys
    using last [of "app_step J L B (app_run J L B ?s0 xs) y" ys] that after run by (simp add: run_append)
  have "\<not> shuts y" if "y \<in> set after" for y
    using split_list [OF that] split shuts_step by blast
  moreover have "Manager EvClear \<in> set after" if "rt \<noteq> NotDebugged"
    using last [OF run after] that by (auto simp: session_all_def open0 open_session_def)
  moreover have "Manager EvClear \<in> set ys" if "after = xs @ y # ys" "risky y" for xs y ys
    using split [OF that(1)] risky_step [OF that(2)] by blast
  ultimately show ?thesis using es u own after by blast
qed

theorem released_secret_has_owner_witness:
  "\<exists>pj before timeout rt after.
    [Manager (EvUnlock pj 60 Strong Primary Debugged), Manager (EvSetRuntime NotDebugged), Manager EvClear] =
      before @ Manager (EvUnlock pj timeout Strong Primary rt) # after \<and>
    (rt \<noteq> NotDebugged \<longrightarrow> (Manager EvClear :: rstring option app_event) \<in> set after) \<and>
    payload_from_slice (full_json demo_header) pj = Some demo_payload"
proof -
  let ?J = "full_json demo_header"
  obtain pj where pj: "payload_from_slice ?J pj = Some demo_payload"
    using full_json_read [OF demo_payload_ok(1)] by blast
  let ?es = "[Manager (EvUnlock pj 60 Strong Primary Debugged), Manager (EvSetRuntime NotDebugged), Manager EvClear]"
  obtain s answers where r: "replies (app_exec ?J toy_totp mem_backend) (app_new None) ?es = (s, answers)" by fastforce
  have "lm_state (ap_manager s) = Unlocked \<lparr>us_plaintext_json = pj, us_auth_strength = Strong,
      us_strong_reauth_required = False, us_unlock_outcome = Primary, us_runtime_state = NotDebugged\<rparr>"
    using r by (auto simp: manager_call_defs on_runtime_state_def Let_def)
  then have "app_exec ?J toy_totp mem_backend s (Reveal 5 RevealSecret) = (s, Secret (Inr (lit ''n'')))"
    using pj by (simp add: reveal_simulates posture_of_def spec_reveal_def spec_get_for_def entry_map_def
        demo_payload_def to_view_def) (simp add: demo_entry_def lit_def)
  from released_secret_has_owner [OF r this] show ?thesis using pj by fastforce
qed

text \<open>C7. Finding. The policy stands beside an open door: in a session opened as a decoy or with a convenience
  factor no gated call ever gives anything away, whatever happens short of a new unlock, but
  \<open>get_entry\<close>, which asks for no authorisation, hands out every entry with its secret and its code
  parameters for as long as the session can be read.\<close>

theorem ungated_read_defeats_policy:
  assumes "oc = Decoy \<or> st \<noteq> Strong" and "\<forall>x\<in>set es. \<not> opens x"
    and "replies (app_exec J L B) s (Manager (EvUnlock pj timeout st oc rt) # es) = (s', answers)"
    and "get_payload J (ap_manager s') = Some p" and "entry_map p i = Some e"
  shows "(\<forall>x s'' a. app_exec J L B s' x = (s'', a) \<longrightarrow> \<not> releases x a) \<and>
    app_exec J L B s' (Get i) = (s', View (Inr (to_view e))) \<and>
    vw_secret (to_view e) = es_secret (ve_secret e) \<and> vw_totp (to_view e) = es_totp (ve_secret e)"
proof -
  let ?s0 = "app_step J L B s (Manager (EvUnlock pj timeout st oc rt))"
  have run: "s' = app_run J L B ?s0 es"
    using fst_replies [of "app_exec J L B" s "Manager (EvUnlock pj timeout st oc rt) # es"] assms(3) by simp
  have "session_all (\<lambda>t. us_unlock_outcome t = oc \<and> us_auth_strength t = st) (ap_manager s')"
    unfolding run by (rule origin_stays [OF _ assms(2)]) (simp add: session_all_def unlock_state open_session_def)
  then have "\<not> (\<exists>t. lm_state (ap_manager s') = Unlocked t \<and> trusted_session t)"
    using assms(1) by (auto simp: session_all_def trusted_session_def)
  then have "\<not> releases x a" if "app_exec J L B s' x = (s'', a)" for x s'' a
    using release_is_authorised [OF that] by blast
  then show ?thesis using assms(4,5) by (auto simp: get_entry_map to_view_def)
qed

theorem ungated_read_defeats_policy_witness:
  "\<exists>pj s' answers. replies (app_exec (full_json demo_header) toy_totp mem_backend) (app_new None)
      [Manager (EvUnlock pj 60 Biometric Decoy Debugged)] = (s', answers) \<and>
    app_exec (full_json demo_header) toy_totp mem_backend s' (Get 5) = (s', View (Inr (to_view demo_entry))) \<and>
    vw_secret (to_view demo_entry) = lit ''n''"
proof -
  let ?J = "full_json demo_header"
  obtain pj where pj: "payload_from_slice ?J pj = Some demo_payload"
    using full_json_read [OF demo_payload_ok(1)] by blast
  obtain s' answers where r: "replies (app_exec ?J toy_totp mem_backend) (app_new None)
      [Manager (EvUnlock pj 60 Biometric Decoy Debugged)] = (s', answers)" by fastforce
  have "get_payload ?J (ap_manager s') = Some demo_payload"
    using r pj by (auto simp: payload_access unlock_state open_session_def)
  moreover have "entry_map demo_payload 5 = Some demo_entry" by (simp add: entry_map_def demo_payload_def)
  moreover have "es_secret (ve_secret demo_entry) = lit ''n''" by (simp add: demo_entry_def)
  ultimately show ?thesis
    using ungated_read_defeats_policy [OF _ _ r] r by fastforce
qed

text \<open>C4. A decoy session tells nothing of the vault beside it: take two duress vaults with the same decoy
  payload but any two primary payloads, passwords, salts, identifiers and parameters. Whoever opens them
  with their decoy passwords sees the same delay, the same gate and the same answers to all calls that
  follow, and no gated call releases anything, so nothing seen depends on what the primary vaults
  hold.\<close>

theorem decoy_session_tells_nothing:
  assumes "create_duress_vault J C rnd new_id pw1 pw2 p1 p2 schema kdf = Inr vf"
    and "create_duress_vault J C rnd' new_id' pw1' pw2' p1' p2 schema' kdf' = Inr vf'"
    and "encode_vault_storage J probe (vf_header vf) (vf_storage vf) fv = Inr file"
    and "encode_vault_storage J probe' (vf_header vf') (vf_storage vf') fv' = Inr file'"
    and "length file \<le> 16 * 1024 * 1024" and "length file' \<le> 16 * 1024 * 1024"
    and "aead_correct C" and "envelope_json_correct J"
    and "header_json_ok J (vf_header vf)" and "header_json_ok J (vf_header vf')"
    and "decode_vault_file J NotDebugged file (Some fv) MAX_VAULT_CONTAINER_PAYLOAD_LEN False = Inr parsed"
    and "decode_vault_file J NotDebugged file' (Some fv') MAX_VAULT_CONTAINER_PAYLOAD_LEN False = Inr parsed'"
    and "decoy_password J C parsed pw2" and "decoy_password J C parsed' pw2'"
    and "\<forall>x\<in>set es. \<not> opens x"
  shows "\<exists>s' answers.
    host_session J C L B gate now r timeout rt s es parsed pw2 = Some (Inr (s', Done # answers), gate, 0) \<and>
    host_session J C L B gate now r timeout rt s es parsed' pw2' = Some (Inr (s', Done # answers), gate, 0) \<and>
    (\<forall>(x, a)\<in>set (zip es answers). \<not> releases x a)"
proof -
  obtain json where json: "payload_to_vec J p2 = Some json"
    and o: "unlock_vault_to_plaintext_json_with_outcome J C parsed pw2 = Inr (Decoy, json)"
    using created_duress_file [OF assms(1,3,5,7,9,8), of NotDebugged] assms(11,13)
    by (force simp: decoy_password_def)
  have o': "unlock_vault_to_plaintext_json_with_outcome J C parsed' pw2' = Inr (Decoy, json)"
    using created_duress_file [OF assms(2,4,6,7,10,8), of NotDebugged] assms(12,14) json
    by (force simp: decoy_password_def)
  let ?open = "Manager (EvUnlock json timeout Strong Decoy rt)"
  obtain s' answers where r: "replies (app_exec J L B) s (?open # es) = (s', Done # answers)"
    by (cases "replies (app_exec J L B) (app_step J L B s ?open) es") auto
  have "session_all (\<lambda>t. us_unlock_outcome t = Decoy \<and> us_auth_strength t = Strong) (ap_manager (app_step J L B s ?open))"
    by (simp add: session_all_def unlock_state open_session_def)
  moreover have "replies (app_exec J L B) (app_step J L B s ?open) es = (s', answers)"
    using r by (auto split: prod.splits)
  ultimately have "\<forall>(x, a)\<in>set (zip es answers). \<not> releases x a"
    using decoy_run_releases_nothing assms(15) by blast
  then show ?thesis using host_session_decoy [OF o] host_session_decoy [OF o'] r by metis
qed

theorem decoy_session_tells_nothing_witness:
  "\<exists>parsed parsed' s' answers.
    unlock_vault_with_outcome (demo_json demo_duress_header) toy_cipher parsed (lit ''pw'') = Inr (Primary, demo_payload) \<and>
    unlock_vault_with_outcome (demo_json demo_duress_header) toy_cipher parsed' (lit ''xx'') = Inr (Primary, empty_payload) \<and>
    host_session (demo_json demo_duress_header) toy_cipher toy_totp mem_backend (auth_gate_new default_throttle_policy) 0 5 60 NotDebugged (app_new None)
      [ListAll, Reveal 5 RevealSecret] parsed (lit ''no'') = Some (Inr (s', Done # answers), (auth_gate_new default_throttle_policy), 0) \<and>
    host_session (demo_json demo_duress_header) toy_cipher toy_totp mem_backend (auth_gate_new default_throttle_policy) 0 5 60 NotDebugged (app_new None)
      [ListAll, Reveal 5 RevealSecret] parsed' (lit ''no'') = Some (Inr (s', Done # answers), (auth_gate_new default_throttle_policy), 0)"
proof -
  let ?J = "demo_json demo_duress_header"
  note a = envelope_file [OF envelope_lengths(1)] and b = envelope_file [OF envelope_lengths(2)]
  have p: "unlock_vault_with_outcome ?J toy_cipher (demo_parsed demo_envelope) (lit ''pw'') = Inr (Primary, demo_payload)"
    "unlock_vault_with_outcome ?J toy_cipher (demo_parsed other_envelope) (lit ''xx'') = Inr (Primary, empty_payload)"
    by (simp_all add: primary_opens)
  have "decoy_password ?J toy_cipher (demo_parsed demo_envelope) (lit ''no'')"
    "decoy_password ?J toy_cipher (demo_parsed other_envelope) (lit ''no'')"
    using decoy_no [of demo_envelope] decoy_no [of other_envelope] demo_duress_shut_out(1) other_shut_out by blast+
  from decoy_session_tells_nothing [OF demo_create_duress [unfolded demo_made] other_create
      a(1) b(1) a(2) b(2) toy_cipher_correct demo_json_sel(7) _ _ a(3) b(3) this,
      where es = "[ListAll, Reveal 5 RevealSecret]" and s = "app_new None" and B = mem_backend and L = toy_totp]
  show ?thesis using p by fastforce
qed

end
