(* ===== verification/App_Life.thy ===== *)
theory App_Life
  imports App_Refinement Persist
begin

text \<open>
  From the disk to the session: a vault that was created, saved and read back after a crash, opened
  through the gate, and served by the library.
\<close>

section \<open>Lemmas\<close>

text \<open>A session opened on the bytes of a payload starts from the map of that payload.\<close>

lemma session_serves_payload:
  assumes "json_total J" and "payload_from_slice J json = Some p" and "unique_ids p"
    and "\<forall>e\<in>set es. tidy_event J e"
    and "replies (app_exec J L B) s (Manager (EvUnlock json timeout st oc rt) # es) = (s', answers)"
  shows "allowed (spec_exec J L B)
      (Open \<lparr>po_strength = st, po_reauth = (st \<noteq> Strong \<or> rt \<noteq> NotDebugged), po_outcome = oc, po_runtime = rt\<rparr>
        (Some (entry_map p)), ap_clipboard s)
      (zip es (tl answers)) (view_of J s')"
proof -
  let ?s0 = "s\<lparr>ap_manager := unlock_with_plaintext_json_with_context (ap_manager s) json timeout st oc rt\<rparr>"
  have v: "view_of J ?s0 = (Open \<lparr>po_strength = st, po_reauth = (st \<noteq> Strong \<or> rt \<noteq> NotDebugged),
      po_outcome = oc, po_runtime = rt\<rparr> (Some (entry_map p)), ap_clipboard s)"
    using assms(2) by (auto simp: view_of_def unlock_state open_session_def posture_of_def)
  have t: "tidy J ?s0" using assms(2,3) by (auto simp: tidy_manager_iff unlock_state open_session_def)
  obtain answers' where "replies (app_exec J L B) ?s0 es = (s', answers')" "answers = Done # answers'"
    using assms(5) by (auto split: prod.splits)
  then show ?thesis
    using library.trace_allowed [of J L B ?s0 es s' answers'] assms(1,4) t v by auto
qed

lemma opened_json:
  assumes "unlock_vault_with_outcome J C parsed pw = Inr (Primary, p)"
  shows "\<exists>json. unlock_plaintext_json_gated J C gate now r parsed pw =
      Some (Inr (Primary, json), auth_gate_reset gate, 0) \<and> payload_from_slice J json = Some p"
  using assms
  by (cases "unlock_vault_to_plaintext_json_with_outcome J C parsed pw")
     (auto simp: unlock_payload_via_json unlock_plaintext_json_gated_def auth_gate_run_def)

section \<open>Properties\<close>

text \<open>C22. From the disk to the screen: a created vault that was saved with success, on a Unix
   target and into a directory that no crash can lose (its own entry and those above it have been synced,
   and no directory has the name of the lock file), survives a power failure, reads back and decodes in
   whatever state the medium is in afterwards, opens through the gate under its password without a delay,
   and the session it opens serves exactly its entries: every call that follows is answered as by a map
   that starts as the entries the vault was made from.\<close>

theorem saved_vault_is_served:
  assumes "create_encrypted_vault J C rnd new_id pw p schema kdf = Inr vf"
    and "encode_vault_storage J probe (vf_header vf) (vf_storage vf) fv = Inr file"
    and "length file \<le> 16 * 1024 * 1024"
    and "aead_correct C" and "header_json_ok J (vf_header vf)" and "json_total J"
    and "payload_ok p" and "unique_ids p"
    and "disk_ok (wd_disk w)" and "saves_for_good path w" and "write_vault_atomic suffix path file w = (w', Inr ())"
    and "crashes_to (wd_disk w') (wd_disk w2)" and "no_faults w2"
    and "\<forall>e\<in>set es. tidy_event J e"
  shows "\<exists>w3 file' parsed json s' answers. read_vault_locked path w2 = (w3, Inr file') \<and>
    decode_vault_file J probe' file' (Some fv) MAX_VAULT_CONTAINER_PAYLOAD_LEN False = Inr parsed \<and>
    unlock_plaintext_json_gated J C gate now r parsed pw = Some (Inr (Primary, json), auth_gate_reset gate, 0) \<and>
    replies (app_exec J L B) s (Manager (EvUnlock json timeout Strong Primary rt) # es) = (s', Done # answers) \<and>
    allowed (spec_exec J L B)
      (Open \<lparr>po_strength = Strong, po_reauth = (rt \<noteq> NotDebugged), po_outcome = Primary, po_runtime = rt\<rparr>
        (Some (entry_map p)), ap_clipboard s)
      (zip es answers) (view_of J s')"
proof -
  have j: "payload_json_ok J (map entry_to_dto (vp_entries p))" using assms(6) by (simp add: json_total_def)
  obtain w3 file' parsed where f: "read_vault_locked path w2 = (w3, Inr file')"
    "decode_vault_file J probe' file' (Some fv) MAX_VAULT_CONTAINER_PAYLOAD_LEN False = Inr parsed"
    "unlock_vault_with_outcome J C parsed pw = Inr (Primary, p)"
    using saved_vault_survives_crash [OF assms(1-5) j assms(7,9-13)] by blast
  obtain json where u: "unlock_plaintext_json_gated J C gate now r parsed pw =
      Some (Inr (Primary, json), auth_gate_reset gate, 0)" "payload_from_slice J json = Some p"
    using opened_json [OF f(3)] by blast
  obtain s' answers where r: "replies (app_exec J L B) s (Manager (EvUnlock json timeout Strong Primary rt) # es) =
      (s', Done # answers)"
    by (cases "replies (app_exec J L B) (fst (app_exec J L B s (Manager (EvUnlock json timeout Strong Primary rt)))) es") auto
  show ?thesis
    using session_serves_payload [OF assms(6) u(2) assms(8,14) r] f(1,2) u(1) r by auto
qed

definition full_vault :: vault_file where
  "full_vault = \<lparr>vf_header = demo_header,
     vf_storage = SEncrypted (toy_seal (as_bytes (lit ''pw'') @ ch_salt (demo_crypto 0)) (ch_nonce (demo_crypto 0)) [7] [0])\<rparr>"

lemma full_create:
  "create_encrypted_vault (full_json demo_header) toy_cipher demo_rng 7 (lit ''pw'') empty_payload 1 demo_kdf = Inr full_vault"
proof -
  have "\<lparr>vh_schema_version = 1, vh_vault_id = 7,
      vh_crypto = \<lparr>ch_kdf = Argon2id 65536 3 1, ch_aead = XChaCha20Poly1305,
        ch_salt = replicate SALT_LEN 0, ch_nonce = replicate XCHACHA20_NONCE_LEN 1\<rparr>,
      vh_duress = None\<rparr> = demo_header"
    by (simp add: demo_header_def demo_crypto_def)
  then show ?thesis
    by (simp add: create_encrypted_vault_def fill_def Let_def encrypt_xchacha20poly1305_def
        full_vault_def demo_crypto_def)
qed

lemma full_vault_sel [simp]:
  "vf_header full_vault = demo_header"
  "vf_storage full_vault = SEncrypted (toy_seal (as_bytes (lit ''pw'') @ ch_salt (demo_crypto 0)) (ch_nonce (demo_crypto 0)) [7] [0])"
  by (simp_all add: full_vault_def)

text \<open>A save on an empty disk, and a crash that keeps what is certain.\<close>

lemma saved_and_crashed:
  obtains w' w2 where "write_vault_atomic [49] [RootDir, Normal [97]] bytes blank_world = (w', Inr ())"
    "crashes_to (wd_disk w') (wd_disk w2)" "no_faults w2"
proof -
  have "parent [RootDir, Normal [97]] = Some [RootDir]" "file_name [RootDir, Normal [97]] = Some [97]"
    by (simp_all add: parent_def file_name_def)
  from write_no_faults [OF blank_ok(2,1) this blank_unobstructed] obtain w' where
    w': "write_vault_atomic [49] [RootDir, Normal [97]] bytes blank_world = (w', Inr ())" by auto
  from write_vault_effect [OF blank_ok(1) w'] have ok: "disk_ok (wd_disk w')" by simp
  let ?d = "(wd_disk w')\<lparr>dk_dir := (\<lambda>q. dk_dir (wd_disk w') q \<and> missing (wd_disk w') q = [])\<rparr>"
  define d where "d = ?d\<lparr>dk_maybe := (\<lambda>p. {dk_entry (wd_disk w') p}), dk_kept := dk_dir ?d\<rparr>"
  have "missing d q = [] \<longleftrightarrow> missing (wd_disk w') q = []" for q
    using missing_reachable [of "wd_disk w'" q] by (simp add: d_def)
  then have "crashes_to (wd_disk w') (wd_disk (blank_world\<lparr>wd_disk := d\<rparr>))"
    using disk_okD(1) [OF ok] entry_reachable [OF ok] lasting_exists [OF ok] by (auto simp: crashes_to_def d_def)
  moreover have "no_faults (blank_world\<lparr>wd_disk := d\<rparr>)" using blank_ok(2) by simp
  ultimately show thesis using that w' by blast
qed

lemma blank_saves_for_good: "saves_for_good [RootDir, Normal [97]] blank_world"
  by (simp add: saves_for_good_def root_ok blank_ok split: sum.splits)

theorem saved_vault_is_served_witness:
  "\<exists>w2 w3 file parsed json s' answers. read_vault_locked [RootDir, Normal [97]] w2 = (w3, Inr file) \<and>
    decode_vault_file (full_json demo_header) NotDebugged file (Some 1) MAX_VAULT_CONTAINER_PAYLOAD_LEN False = Inr parsed \<and>
    unlock_plaintext_json_gated (full_json demo_header) toy_cipher (auth_gate_new default_throttle_policy) 0 5 parsed (lit ''pw'') =
      Some (Inr (Primary, json), auth_gate_reset (auth_gate_new default_throttle_policy), 0) \<and>
    replies (app_exec (full_json demo_header) toy_totp mem_backend) (app_new None)
      [Manager (EvUnlock json 60 Strong Primary NotDebugged), Add demo_entry, Get 5] = (s', Done # answers) \<and>
    answers = [Result (Inr ()), View (Inr (to_view demo_entry))]"
proof -
  let ?J = "full_json demo_header"
  obtain fb where enc: "encode_vault_storage ?J NotDebugged (vf_header full_vault) (vf_storage full_vault) 1 = Inr fb"
    "length fb \<le> 16 * 1024 * 1024"
    by (simp add: encode_short_header)
  obtain w' w2 where w: "write_vault_atomic [49] [RootDir, Normal [97]] fb blank_world = (w', Inr ())"
    "crashes_to (wd_disk w') (wd_disk w2)" "no_faults w2" by (rule saved_and_crashed)
  have e: "entry_map empty_payload = Map.empty" "unique_ids empty_payload"
    by (auto simp: entry_map_def empty_payload_def unique_ids_def)
  have total: "json_total ?J" "header_json_ok ?J (vf_header full_vault)" by (simp_all add: json_total_def)
  have *: "\<forall>e\<in>set [Add demo_entry, Get 5]. tidy_event ?J e" by simp
  have answers: "answers = [Result (Inr ()), View (Inr (to_view demo_entry))]"
    if "replies (app_exec ?J toy_totp mem_backend) (app_new None)
        [Manager (EvUnlock json 60 Strong Primary NotDebugged), Add demo_entry, Get 5] = (s', Done # answers)"
      "allowed (spec_exec ?J toy_totp mem_backend) (Open po (Some (entry_map empty_payload)), g)
        (zip [Add demo_entry, Get 5] answers) t" for json s' answers po g t
  proof -
    have "length answers = 2" using that(1) by (auto split: prod.splits)
    then obtain a b where "answers = [a, b]" by (auto simp: numeral_2_eq_2 length_Suc_conv)
    then show ?thesis using that(2) e(1) by (auto simp: edited_def spec_add_def)
  qed
  show ?thesis
    using saved_vault_is_served [OF full_create enc toy_cipher_correct total(2,1) demo_payload_ok(2) e(2) blank_ok(1) blank_saves_for_good w *,
        where L = toy_totp and B = mem_backend and s = "app_new None" and gate = "auth_gate_new default_throttle_policy" and now = 0 and r = 5
          and timeout = 60 and rt = NotDebugged and probe' = NotDebugged]
      answers by (elim exE conjE) blast
qed

end
