(* ===== verification/Spec2Isabelle.thy ===== *)
theory Spec2Isabelle
  imports Backup_Cases Persist Storage_Concurrent Storage_Faults Lock_Concurrent Copy_Ops Biometrics
    Signed_Import Fuzz_Vault Seed_Corpus Module_Tests App_Secrecy App_Life
begin

text \<open>
  A verification development for the core library of ViperVault, the crate
  \<open>src/core/crates/vipervault-core\<close>. File names below are relative to its \<open>src\<close> directory.

  \<^bold>\<open>The program.\<close> ViperVault is a password manager. A vault is a payload of entries, serialised as
  JSON, encrypted under a key derived from a master password and stored in a binary container;
  a duress vault holds two ciphertexts, of which a second password opens the decoy. An unlocked
  vault lives in the lock manager as plaintext JSON, together with the strength of the
  authentication, the outcome of the unlock and the state of the runtime, and a background task locks
  it after a time without activity. Entries are read and changed through the manager, their secrets
  and time-based codes go to the clipboard and are cleared from it by another background task.
  Failed password unlocks are counted and delayed. Vaults travel as signed backups, and accounts
  come in as \<open>otpauth://\<close> URIs.

  \<^bold>\<open>Shared vocabulary.\<close> \<open>Prelude\<close>: machine words, \<open>Result\<close> as a sum with the \<open>?\<close> operator (\<open>rbind\<close>),
  operations on \<open>&mut\<close> state that fail half-way (\<open>mut_result\<close>), little-endian fields, durations, the
  locale of byte sources and the locale of step invariants with its runs. \<open>Rust_String\<close>: strings as
  lists of scalar values, UTF-8, trimming, lines, splitting, decimal integers. \<open>Samples\<close>: the concrete
  libraries and vaults the witnesses run on. \<open>Json_Sample\<close>: a JSON library that writes and reads every
  payload.

  \<^bold>\<open>The components.\<close>
  \<^item> \<open>Policy\<close>: \<open>core/antidebug.rs\<close>, \<open>core/policy.rs\<close>, \<open>core/session.rs\<close>. Inspection states, the policy matrix and
    the session types; one lemma states the whole matrix as a single trusted posture.
  \<^item> \<open>Rate_Limit\<close>: \<open>core/rate_limit.rs\<close>, \<open>core/auth_gate.rs\<close>. The failure counter with its schedule and jitter,
    and the gate around an operation; a burst of failures follows the schedule.
  \<^item> \<open>Entries\<close>: \<open>entries/types.rs\<close>, \<open>entries/validate.rs\<close>, \<open>entries/error.rs\<close>. Constructors, granular updates with
    the writes they leave behind when they fail, invariants, the DTO boundary.
  \<^item> \<open>Crypto\<close>, \<open>Vault_Codec\<close>, \<open>Duress\<close>, \<open>Unlock\<close>, \<open>Vault_Life\<close>: \<open>crypto/kdf.rs\<close>, \<open>crypto/aead.rs\<close>, \<open>vault/codec.rs\<close>,
    \<open>vault/types.rs\<close>, \<open>vault/error.rs\<close>, \<open>vault/create.rs\<close>, \<open>vault/duress.rs\<close>, \<open>vault/migrate.rs\<close>, \<open>core/unlock.rs\<close>.
    The container is accepted exactly when it has the layout; created and migrated vaults open under
    their passwords; gated unlocks are throttled as documented.
  \<^item> \<open>Storage\<close>, \<open>Persist\<close>, \<open>Storage_Concurrent\<close>, \<open>Storage_Faults\<close>: \<open>vault/storage.rs\<close>. Paths, lock files and the
    transactional writer over a disk with directories, unsynced data, unsynced directory entries, injected
    faults and crashes, on targets that can sync a directory (Unix) and on the others. \<open>create_dir_all\<close> makes
    directories whose own entries nothing syncs, so a crash can lose them with all they hold: a saved vault
    survives every crash on Unix when its directory is \<open>lasting\<close>, and old or new otherwise; two lemmas show
    what is lost where it is not. Then readers and writers of several processes, broken into
    their system calls and interleaved, with the advisory locks they wait for, which the steps of their
    holders alone always free; and the backend of the
    module's own tests, which fails at a chosen call, with those tests.
  \<^item> \<open>Lock_State\<close>, \<open>Lock_Runs\<close>, \<open>Lock_Concurrent\<close>: \<open>core/lock_state.rs\<close>. The state and every call of the manager
    and the steps of its timer task; invariants of all runs of calls, timer steps and passing time
    within the bounds of the clock, and what an overlong timeout does to the timer;
    and the calls broken into their atomic steps and interleaved.
  \<^item> \<open>Module_Tests\<close>: the test modules of \<open>core/antidebug.rs\<close>, \<open>core/session.rs\<close> and \<open>core/lock_state.rs\<close>, and the one
    test that depends on the platform.
  \<^item> \<open>Entry_Ops\<close>, \<open>Totp\<close>, \<open>Clipboard\<close>, \<open>Copy_Ops\<close>: \<open>core/entries.rs\<close>, \<open>totp/*.rs\<close>, \<open>clipboard/*.rs\<close>. The operations as a
    finite map, codes as RFC 6238, the clearing task step by step, and the copies that join them.
  \<^item> \<open>Vault_App\<close>, \<open>App_Refinement\<close>, \<open>App_Secrecy\<close>, \<open>App_Life\<close>: the library as its host drives it, the calls of the
    manager, the entry operations, the copies and the background steps with the answers they give. An
    abstract service, a posture and a finite map of entries, is implemented in every run; from it and
    from the manager follow what a released secret presupposes, what a decoy session tells and what it
    still gives away, and that a vault saved before a crash is served as it was made.
  \<^item> \<open>Biometrics\<close>: \<open>core/biometrics.rs\<close>, \<open>biometrics/*.rs\<close>. Unlock with a released key and the C bridge.
  \<^item> \<open>Backup\<close>, \<open>Backup_Cases\<close>: \<open>backup/*.rs\<close> and the fuzz target \<open>decode_signed_backup_structured.rs\<close> of
    \<open>src/core/fuzz\<close>. The signed container, and what the decoder does with the damage that target applies.
  \<^item> \<open>Otpauth\<close>, \<open>Interop\<close>, \<open>Signed_Import\<close>: \<open>otpauth/*.rs\<close>, \<open>entries/import.rs\<close>, \<open>import/*.rs\<close>, \<open>core/import.rs\<close>. The URI
    parser and exporter, the quarantine with its deduplication, the commit, and the import of a signed
    backup up to the unlocked manager.
  \<^item> \<open>Fuzz_Support\<close>, \<open>Fuzz_Otpauth\<close>, \<open>Fuzz_Vault\<close>: the fuzz targets of \<open>src/core/fuzz\<close> that build their own
    inputs and assert a result, over the generator of \<open>support/structured.rs\<close>: the URI generator, the two
    round trips of the exporter, the vault container and the migration. An assertion that fails is a
    value of the model, and the properties say for which inputs there is none.
  \<^item> \<open>Seed_Corpus\<close>: \<open>examples/generate_seed_corpus.rs\<close>, the program that writes the first inputs of the fuzzers,
    with what its files hold.

  \<^bold>\<open>Interfaces.\<close> Each locale states what a client relies on and is interpreted on the model of the code:
  \<open>byte_source\<close> on the readers of both container codecs, \<open>payload_store\<close> on the lock manager,
  \<open>storage_contract\<close> on the real storage backend over the disk, and \<open>step_invariant\<close> on the runs of the manager,
  on its interleavings, on the runs of the clipboard guard and on the processes that share a vault file;
  \<open>storage_contract\<close> is interpreted on the injected backend of the tests as well, and \<open>simulation\<close> on the whole
  library against the abstract service.

  \<^bold>\<open>What is a parameter.\<close> Code outside the repository is a field of a record handed to the definitions:
  \<open>json_lib\<close> (serde\_json on plain data), \<open>crypto_lib\<close> (Argon2id, XChaCha20-Poly1305), \<open>backup_lib\<close>
  (Ed25519, HKDF), \<open>totp_lib\<close> (HMAC, the base32 decoder), \<open>url_lib\<close> (url, percent\_encoding), SHA-256 and
  UUIDs in \<open>interop_lib\<close>, the host callbacks of the clipboard and the biometric bridge. What is relied on is
  a named predicate (\<open>aead_correct\<close>, \<open>header_json_ok\<close>, \<open>json_total\<close>, \<open>backup_lib_correct\<close>, \<open>url_lib_correct\<close>, ...), and the
  witnesses discharge it on a concrete library. That the deduplication of an import tells accounts apart rests on SHA-256 having no
  collision among the texts of that one list. The URL standard is constrained where the exporter meets
  it only: percent-decoding, dot segments and the length of what it accepts. The bytes a fuzzer draws
  and the \<open>unstructured\<close> of the crate arbitrary are arbitrary values. Time, random words, identifiers and the answer of
  the runtime probe are arguments.

  \<^bold>\<open>Totality and bounds.\<close> No definition uses fuel: every loop of the source runs over a finite input
  (bytes, lines, query pairs, entries, the window of a verification) and is structural recursion.
  What may not happen at once (sleeping, waiting for activity, locking) is a step of an explicit task,
  and liveness is stated for runs that take the steps. Panics of the source are \<open>None\<close> or a removed task;
  \<open>throttled_flows_return\<close> shows when the throttled flows cannot reach one. \<open>usize\<close> is 64 bits wide. The
  timer of the manager is considered while the clock stays a largest timeout \<open>T\<close> away from its end (64-bit
  signed seconds) and the 64-bit generation counter has not wrapped (\<open>within\<close>).

  \<^bold>\<open>Not modelled.\<close> Wiping of memory (\<open>memory/secret.rs\<close> beyond the values it holds), since HOL values leave no
  copies; logging and the text of error messages; file permissions; links and the identity of paths with \<open>.\<close> or
  \<open>..\<close> in them, which are compared as written; the module files, which only
  re-export; the integration tests and the fuzz targets without an assertion, which hand their bytes to
  one function of the library that is modelled in its own theory; the derived instances of \<open>Arbitrary\<close>,
  which are generated code; build files and documentation.
\<close>

end
